(* ===== verification/Prelude.thy ===== *)
theory Prelude
  imports
    Main
    "HOL-Library.Word"
    "HOL-Library.Signed_Division"
    "HOL-Library.Finite_Map"
    "HOL-Library.Multiset"
    "HOL-Library.Sublist"
begin

text \<open>
  Shared vocabulary of the development. It fixes how Go control flow is read in HOL:
  \<^item> an \<open>error\<close> value is a \<open>GoErr\<close>: either a plain message (\<open>errors.New\<close>,
    \<open>fmt.Errorf\<close>) or an API status error carrying its reason;
  \<^item> a function that may return an error, panic or fail to return, and that acts on some
    state, is a value of type \<open>('s, 'a) go\<close>;
  \<^item> \<open>if err != nil { return err }\<close> is \<open>bindG\<close>, an inspected error is \<open>tryG\<close>, a
    range loop with early return is \<open>forG\<close> or \<open>foldG\<close>;
  \<^item> a Go map is a finite map under an option (\<open>None\<close> is the nil map).
  The second half of the theory holds the generic lemmas: inversion of the combinators, and
  \<open>keeps R m\<close>, the frame judgement that every run of \<open>m\<close> relates its two states by \<open>R\<close>, and
  \<open>returnsG m\<close>, the judgement that no run of \<open>m\<close> goes on for ever.
\<close>

named_theorems go_simps \<open>evaluation of the control-flow combinators\<close>
named_theorems go_keeps \<open>compositional rules for the frame judgement\<close>
named_theorems go_returns \<open>compositional rules for termination\<close>

subsection \<open>Errors and results\<close>

datatype StatusReason = NotFound | AlreadyExists | Conflict | OtherReason

datatype GoErr =
    ErrorString string
  | StatusError StatusReason string

fun ErrorMsg :: "GoErr \<Rightarrow> string" where
  "ErrorMsg (ErrorString m) = m"
| "ErrorMsg (StatusError r m) = m"

fun IsNotFound :: "GoErr \<Rightarrow> bool" where
  "IsNotFound (StatusError NotFound m) = True"
| "IsNotFound e = False"

datatype 'a res = Ok 'a | Fail GoErr | Panic string | Diverge

type_synonym ('s, 'a) go = "'s \<Rightarrow> 'a res \<times> 's"

subsection \<open>Combinators\<close>

definition retG :: "'a \<Rightarrow> ('s, 'a) go" where
  "retG a = (\<lambda>s. (Ok a, s))"

definition failG :: "GoErr \<Rightarrow> ('s, 'a) go" where
  "failG e = (\<lambda>s. (Fail e, s))"

definition panicG :: "string \<Rightarrow> ('s, 'a) go" where
  "panicG m = (\<lambda>s. (Panic m, s))"

abbreviation skipG :: "('s, unit) go" where
  "skipG \<equiv> retG ()"

definition tryG :: "('s, 'a) go \<Rightarrow> (GoErr \<Rightarrow> ('s, 'b) go) \<Rightarrow> ('a \<Rightarrow> ('s, 'b) go) \<Rightarrow> ('s, 'b) go" where
  "tryG m h k = (\<lambda>s. case m s of
       (Ok a, t) \<Rightarrow> k a t
     | (Fail e, t) \<Rightarrow> h e t
     | (Panic p, t) \<Rightarrow> (Panic p, t)
     | (Diverge, t) \<Rightarrow> (Diverge, t))"

definition bindG :: "('s, 'a) go \<Rightarrow> ('a \<Rightarrow> ('s, 'b) go) \<Rightarrow> ('s, 'b) go" where
  "bindG m k = tryG m failG k"

definition seqG :: "('s, 'a) go \<Rightarrow> ('s, 'b) go \<Rightarrow> ('s, 'b) go" where
  "seqG m n = bindG m (\<lambda>_. n)"

definition readG :: "('s \<Rightarrow> 'a) \<Rightarrow> ('a \<Rightarrow> ('s, 'b) go) \<Rightarrow> ('s, 'b) go" where
  "readG f k = (\<lambda>s. k (f s) s)"

definition modifyG :: "('s \<Rightarrow> 's) \<Rightarrow> ('s, unit) go" where
  "modifyG f = (\<lambda>s. (Ok (), f s))"

definition ifG :: "('s \<Rightarrow> bool) \<Rightarrow> ('s, 'a) go \<Rightarrow> ('s, 'a) go \<Rightarrow> ('s, 'a) go" where
  "ifG p m n = (\<lambda>s. if p s then m s else n s)"

text \<open>\<open>whenG p m\<close> is an \<open>if\<close> without \<open>else\<close>; \<open>zoomG get put m\<close> runs \<open>m\<close> on a part of the state
  (a method called on a field, a map passed by reference).\<close>

definition whenG :: "('s \<Rightarrow> bool) \<Rightarrow> ('s, unit) go \<Rightarrow> ('s, unit) go" where
  "whenG p m = ifG p m skipG"

definition zoomG :: "('s \<Rightarrow> 't) \<Rightarrow> ('t \<Rightarrow> 's \<Rightarrow> 's) \<Rightarrow> ('t, 'a) go \<Rightarrow> ('s, 'a) go" where
  "zoomG get put m = (\<lambda>s. case m (get s) of (r, t) \<Rightarrow> (r, put t s))"

primrec forG :: "('x \<Rightarrow> ('s, unit) go) \<Rightarrow> 'x list \<Rightarrow> ('s, unit) go" where
  "forG f [] = skipG"
| "forG f (x # xs) = seqG (f x) (forG f xs)"

primrec foldG :: "('x \<Rightarrow> 'a \<Rightarrow> ('s, 'a) go) \<Rightarrow> 'x list \<Rightarrow> 'a \<Rightarrow> ('s, 'a) go" where
  "foldG f [] a = retG a"
| "foldG f (x # xs) a = bindG (f x a) (foldG f xs)"

text \<open>A nil pointer or an index out of range panics.\<close>

definition derefG :: "'a option \<Rightarrow> ('s, 'a) go" where
  "derefG p = (case p of None \<Rightarrow> panicG ''nil pointer dereference'' | Some a \<Rightarrow> retG a)"

definition indexG :: "'a list \<Rightarrow> nat \<Rightarrow> ('s, 'a) go" where
  "indexG xs i = (if i < length xs then retG (xs ! i) else panicG ''index out of range'')"

subsection \<open>Go maps\<close>

type_synonym ('k, 'v) gomap = "('k, 'v) fmap option"
type_synonym strmap = "(string, string) gomap"

definition entries :: "('k, 'v) gomap \<Rightarrow> ('k, 'v) fmap" where
  "entries m = (case m of None \<Rightarrow> fmempty | Some f \<Rightarrow> f)"

definition lookupM :: "('k, 'v) gomap \<Rightarrow> 'k \<Rightarrow> 'v option" where
  "lookupM m k = fmlookup (entries m) k"

text \<open>\<open>m[k]\<close> on a \<open>map[string]string\<close>: the zero value when the key is absent.\<close>

definition indexM :: "strmap \<Rightarrow> string \<Rightarrow> string" where
  "indexM m k = (case lookupM m k of None \<Rightarrow> [] | Some v \<Rightarrow> v)"

text \<open>\<open>m[k] = v\<close>: assignment to an entry of the nil map panics.\<close>

definition assignM :: "'k \<Rightarrow> 'v \<Rightarrow> ('k, 'v) gomap \<Rightarrow> ('k, 'v) gomap res" where
  "assignM k v m = (case m of None \<Rightarrow> Panic ''assignment to entry in nil map''
                            | Some f \<Rightarrow> Ok (Some (fmupd k v f)))"

abbreviation mapLit :: "('k \<times> 'v) list \<Rightarrow> ('k, 'v) gomap" where
  "mapLit kvs \<equiv> Some (fmap_of_list kvs)"

text \<open>
  The order in which \<open>range\<close> visits a map is unspecified. A definition that depends on it
  takes an enumeration \<open>it\<close> of the entries; \<open>enumerates\<close> is all the language promises.
\<close>

definition enumerates :: "(('k, 'v) fmap \<Rightarrow> ('k \<times> 'v) list) \<Rightarrow> bool" where
  "enumerates it \<longleftrightarrow> (\<forall>m. distinct (map fst (it m)) \<and> map_of (it m) = fmlookup m)"

subsection \<open>Evaluation lemmas\<close>

lemma retG_run [go_simps, simp]: "retG a s = (Ok a, s)"
  by (simp add: retG_def)

lemma failG_run [go_simps, simp]: "failG e s = (Fail e, s)"
  by (simp add: failG_def)

lemma panicG_run [go_simps, simp]: "panicG p s = (Panic p, s)"
  by (simp add: panicG_def)

lemma modifyG_run [go_simps, simp]: "modifyG f s = (Ok (), f s)"
  by (simp add: modifyG_def)

lemma readG_run [go_simps, simp]: "readG f k s = k (f s) s"
  by (simp add: readG_def)

lemma ifG_run [go_simps, simp]: "ifG p m n s = (if p s then m s else n s)"
  by (simp add: ifG_def)

lemma whenG_run [go_simps, simp]: "whenG p m s = (if p s then m s else (Ok (), s))"
  by (simp add: whenG_def)

lemma zoomG_run [go_simps]: "m (get s) = (r, t) \<Longrightarrow> zoomG get put m s = (r, put t s)"
  by (simp add: zoomG_def)

lemma tryG_run [go_simps]:
  "m s = (Ok a, t) \<Longrightarrow> tryG m h k s = k a t"
  "m s = (Fail e, t) \<Longrightarrow> tryG m h k s = h e t"
  "m s = (Panic p, t) \<Longrightarrow> tryG m h k s = (Panic p, t)"
  "m s = (Diverge, t) \<Longrightarrow> tryG m h k s = (Diverge, t)"
  by (simp_all add: tryG_def)

lemma bindG_run [go_simps]:
  "m s = (Ok a, t) \<Longrightarrow> bindG m k s = k a t"
  "m s = (Fail e, t) \<Longrightarrow> bindG m k s = (Fail e, t)"
  "m s = (Panic p, t) \<Longrightarrow> bindG m k s = (Panic p, t)"
  "m s = (Diverge, t) \<Longrightarrow> bindG m k s = (Diverge, t)"
  by (simp_all add: bindG_def tryG_def)

lemma seqG_run [go_simps]:
  "m s = (Ok a, t) \<Longrightarrow> seqG m n s = n t"
  "m s = (Fail e, t) \<Longrightarrow> seqG m n s = (Fail e, t)"
  "m s = (Panic p, t) \<Longrightarrow> seqG m n s = (Panic p, t)"
  "m s = (Diverge, t) \<Longrightarrow> seqG m n s = (Diverge, t)"
  by (simp_all add: seqG_def bindG_run)

lemma seqG_case:
  "seqG m n s = (case m s of (r, t) \<Rightarrow>
     (case r of Ok a \<Rightarrow> n t | Fail e \<Rightarrow> (Fail e, t) | Panic p \<Rightarrow> (Panic p, t) | Diverge \<Rightarrow> (Diverge, t)))"
  by (simp add: seqG_def bindG_def tryG_def split: prod.splits res.splits)

lemma seqG_FailI: "m s = (Fail e, t) \<Longrightarrow> fst (seqG m n s) = Fail e"
  by (simp add: seqG_run)

lemma seqG_OkI: "m s = (Ok a, t) \<Longrightarrow> P (n t) \<Longrightarrow> P (seqG m n s)"
  by (simp add: seqG_run)

lemma derefG_simps [simp]:
  "derefG (Some a) = retG a" "derefG None = panicG ''nil pointer dereference''"
  by (simp_all add: derefG_def)

subsection \<open>Inversion\<close>

lemma tryG_OkE:
  assumes "tryG m h k s = (Ok b, u)"
  obtains (ok) a t where "m s = (Ok a, t)" and "k a t = (Ok b, u)"
  | (err) e t where "m s = (Fail e, t)" and "h e t = (Ok b, u)"
  using assms by (auto simp: tryG_def split: prod.splits res.splits)

lemma bindG_OkE:
  assumes "bindG m k s = (Ok b, u)"
  obtains a t where "m s = (Ok a, t)" and "k a t = (Ok b, u)"
  using assms by (auto simp: bindG_def tryG_def split: prod.splits res.splits)

lemma bindG_Ok_iff:
  "bindG m k s = (Ok b, u) \<longleftrightarrow> (\<exists>a t. m s = (Ok a, t) \<and> k a t = (Ok b, u))"
  by (auto simp: bindG_def tryG_def split: prod.splits res.splits)

lemma seqG_Ok_iff:
  "seqG m n s = (Ok b, u) \<longleftrightarrow> (\<exists>a t. m s = (Ok a, t) \<and> n t = (Ok b, u))"
  by (simp add: seqG_def bindG_Ok_iff)

lemma forG_append: "forG f (xs @ ys) = seqG (forG f xs) (forG f ys)"
  by (induction xs)
     (auto simp: fun_eq_iff seqG_def bindG_def tryG_def split: prod.splits res.splits)

lemma derefG_Ok_iff [simp]: "derefG p s = (Ok a, t) \<longleftrightarrow> p = Some a \<and> t = s"
  by (auto simp: derefG_def split: option.splits)

lemma indexG_Ok_iff [simp]: "indexG xs i s = (Ok a, t) \<longleftrightarrow> i < length xs \<and> a = xs ! i \<and> t = s"
  by (auto simp: indexG_def)

subsection \<open>Frames\<close>

definition keeps :: "('s \<Rightarrow> 's \<Rightarrow> bool) \<Rightarrow> ('s, 'a) go \<Rightarrow> bool" where
  "keeps R m \<longleftrightarrow> (\<forall>s. R s (snd (m s)))"

lemma keepsD: "keeps R m \<Longrightarrow> m s = (r, t) \<Longrightarrow> R s t"
  by (metis keeps_def snd_conv)

lemma keeps_leaf [go_keeps]:
  "reflp R \<Longrightarrow> keeps R (retG a)"
  "reflp R \<Longrightarrow> keeps R (failG e)"
  "reflp R \<Longrightarrow> keeps R (panicG p)"
  "reflp R \<Longrightarrow> keeps R (derefG q)"
  "reflp R \<Longrightarrow> keeps R (indexG xs i)"
  by (auto simp: keeps_def reflp_def derefG_def indexG_def split: option.splits)

lemma keeps_tryG [go_keeps]:
  assumes "transp R" "keeps R m" "\<And>e. keeps R (h e)" "\<And>a. keeps R (k a)"
  shows "keeps R (tryG m h k)"
  unfolding keeps_def
proof
  fix s
  obtain r t where m: "m s = (r, t)" by (cases "m s")
  have R: "R s t" using assms(2) m by (rule keepsD)
  have k: "R t (snd (k a t))" and h: "R t (snd (h e t))" for a e
    using assms(3,4) by (simp_all add: keeps_def)
  show "R s (snd (tryG m h k s))"
    using transpD [OF assms(1) R k] transpD [OF assms(1) R h] R m
    by (cases r) (simp_all add: tryG_def)
qed

lemma keeps_bindG [go_keeps]:
  assumes "reflp R" "transp R" "keeps R m" "\<And>a. keeps R (k a)"
  shows "keeps R (bindG m k)"
  unfolding bindG_def using assms by (intro keeps_tryG keeps_leaf)

lemma keeps_seqG [go_keeps]:
  assumes "reflp R" "transp R" "keeps R m" "keeps R n"
  shows "keeps R (seqG m n)"
  unfolding seqG_def using assms by (intro keeps_bindG)

lemma keeps_readG [go_keeps]:
  "(\<And>a. keeps R (k a)) \<Longrightarrow> keeps R (readG f k)"
  by (simp add: keeps_def)

lemma keeps_modifyG [go_keeps]:
  "(\<And>s. R s (f s)) \<Longrightarrow> keeps R (modifyG f)"
  by (simp add: keeps_def)

lemma keeps_ifG [go_keeps]:
  "keeps R m \<Longrightarrow> keeps R n \<Longrightarrow> keeps R (ifG p m n)"
  by (simp add: keeps_def)

lemma keeps_whenG [go_keeps]:
  "reflp R \<Longrightarrow> keeps R m \<Longrightarrow> keeps R (whenG p m)"
  unfolding whenG_def by (intro keeps_ifG keeps_leaf)

lemma keeps_if [go_keeps]:
  "(b \<Longrightarrow> keeps R m) \<Longrightarrow> (\<not> b \<Longrightarrow> keeps R n) \<Longrightarrow> keeps R (if b then m else n)"
  by simp

lemma keeps_option [go_keeps]:
  "keeps R m \<Longrightarrow> (\<And>x. keeps R (h x)) \<Longrightarrow> keeps R (case v of None \<Rightarrow> m | Some x \<Rightarrow> h x)"
  by (simp split: option.split)

lemma keeps_forG [go_keeps]:
  "reflp R \<Longrightarrow> transp R \<Longrightarrow> (\<And>x. keeps R (f x)) \<Longrightarrow> keeps R (forG f xs)"
  by (induction xs) (auto intro: keeps_leaf keeps_seqG)

lemma keeps_foldG [go_keeps]:
  "reflp R \<Longrightarrow> transp R \<Longrightarrow> (\<And>x a. keeps R (f x a)) \<Longrightarrow> keeps R (foldG f xs a)"
  by (induction xs arbitrary: a) (auto intro: keeps_leaf keeps_bindG)

text \<open>The relation used most: two states agree under a projection.\<close>

definition same :: "('s \<Rightarrow> 'v) \<Rightarrow> 's \<Rightarrow> 's \<Rightarrow> bool" where
  "same f s t \<longleftrightarrow> f t = f s"

lemma same_order [go_keeps, simp]: "reflp (same f)" "transp (same f)"
  by (auto simp: same_def reflp_def transp_def)

lemma keeps_sameD: "keeps (same f) m \<Longrightarrow> m s = (r, t) \<Longrightarrow> f t = f s"
  by (drule (1) keepsD) (simp add: same_def)

subsection \<open>Termination\<close>

definition returnsG :: "('s, 'a) go \<Rightarrow> bool" where
  "returnsG m \<longleftrightarrow> (\<forall>s. fst (m s) \<noteq> Diverge)"

lemma returnsGD: "returnsG m \<Longrightarrow> m s = (r, t) \<Longrightarrow> r \<noteq> Diverge"
  by (auto simp: returnsG_def) (metis fst_conv)

lemma returnsG_leaf [go_returns]:
  "returnsG (retG a)" "returnsG (failG e)" "returnsG (panicG p)" "returnsG (modifyG f)"
  "returnsG (derefG q)" "returnsG (indexG xs i)"
  by (auto simp: returnsG_def derefG_def indexG_def split: option.splits)

lemma returnsG_tryG [go_returns]:
  assumes "returnsG m" "\<And>e. returnsG (h e)" "\<And>a. returnsG (k a)"
  shows "returnsG (tryG m h k)"
proof -
  have "fst (tryG m h k s) \<noteq> Diverge" for s
    using assms unfolding returnsG_def
    by (cases "m s"; cases "fst (m s)") (auto simp: tryG_def, metis fst_conv)
  then show ?thesis by (simp add: returnsG_def)
qed

lemma returnsG_bindG [go_returns]:
  "returnsG m \<Longrightarrow> (\<And>a. returnsG (k a)) \<Longrightarrow> returnsG (bindG m k)"
  unfolding bindG_def by (intro returnsG_tryG returnsG_leaf)

lemma returnsG_seqG [go_returns]:
  "returnsG m \<Longrightarrow> returnsG n \<Longrightarrow> returnsG (seqG m n)"
  unfolding seqG_def by (intro returnsG_bindG)

lemma returnsG_cond [go_returns]:
  "(\<And>a. returnsG (g a)) \<Longrightarrow> returnsG (readG f g)"
  "returnsG m \<Longrightarrow> returnsG n \<Longrightarrow> returnsG (ifG p m n)"
  "returnsG l \<Longrightarrow> returnsG (whenG p l)"
  "(b \<Longrightarrow> returnsG m) \<Longrightarrow> (\<not> b \<Longrightarrow> returnsG n) \<Longrightarrow> returnsG (if b then m else n)"
  "returnsG m \<Longrightarrow> (\<And>x. returnsG (h x)) \<Longrightarrow> returnsG (case v of None \<Rightarrow> m | Some x \<Rightarrow> h x)"
  by (auto simp: returnsG_def split: option.splits)

lemma returnsG_zoomG [go_returns]: "returnsG m \<Longrightarrow> returnsG (zoomG get put m)"
  by (auto simp: returnsG_def zoomG_def split_def)

lemma returnsG_forG [go_returns]: "(\<And>x. returnsG (f x)) \<Longrightarrow> returnsG (forG f xs)"
  by (induction xs) (auto intro: go_returns)

lemma returnsG_foldG [go_returns]: "(\<And>x a. returnsG (f x a)) \<Longrightarrow> returnsG (foldG f xs a)"
  by (induction xs arbitrary: a) (auto intro: go_returns)

subsection \<open>Maps\<close>

lemma entries_simps [simp]: "entries None = fmempty" "entries (Some f) = f"
  by (simp_all add: entries_def)

lemma lookupM_simps [simp]: "lookupM None k = None" "lookupM (Some f) k = fmlookup f k"
  by (simp_all add: lookupM_def)

lemma assignM_Some [simp]: "assignM k v (Some f) = Ok (Some (fmupd k v f))"
  by (simp add: assignM_def)

lemma enumeratesD:
  assumes "enumerates it"
  shows "distinct (map fst (it m))" and "map_of (it m) = fmlookup m"
    and "(k, v) \<in> set (it m) \<longleftrightarrow> fmlookup m k = Some v"
  using assms unfolding enumerates_def by (auto simp flip: map_of_eq_Some_iff)

lemma fmupd_same: "fmlookup m k = Some v \<Longrightarrow> fmupd k v m = m"
  by (rule fmap_ext) auto

subsection \<open>sort.Slice\<close>

text \<open>
  \<open>sort.Slice\<close> is not stable. A definition that sorts takes the sorting function as an
  argument; \<open>go_sort\<close> is what the library promises for an order given by an integer key.
  \<open>insertionSort\<close> is the routine the library runs on short slices.
\<close>

definition go_sort :: "(('a \<Rightarrow> 'a \<Rightarrow> bool) \<Rightarrow> 'a list \<Rightarrow> 'a list) \<Rightarrow> bool" where
  "go_sort srt \<longleftrightarrow> (\<forall>(key :: 'a \<Rightarrow> int) xs.
      mset (srt (\<lambda>a b. key a < key b) xs) = mset xs \<and>
      sorted (map key (srt (\<lambda>a b. key a < key b) xs)))"

fun insertLess :: "('a \<Rightarrow> 'a \<Rightarrow> bool) \<Rightarrow> 'a \<Rightarrow> 'a list \<Rightarrow> 'a list" where
  "insertLess lt x [] = [x]"
| "insertLess lt x (y # ys) = (if lt y x then y # insertLess lt x ys else x # y # ys)"

fun insertionSort :: "('a \<Rightarrow> 'a \<Rightarrow> bool) \<Rightarrow> 'a list \<Rightarrow> 'a list" where
  "insertionSort lt [] = []"
| "insertionSort lt (x # xs) = insertLess lt x (insertionSort lt xs)"

lemma mset_insertLess: "mset (insertLess lt x xs) = add_mset x (mset xs)"
  by (induction xs) auto

lemma sorted_insertLess:
  fixes key :: "'a \<Rightarrow> int"
  assumes "sorted (map key xs)"
  shows "sorted (map key (insertLess (\<lambda>a b. key a < key b) x xs))"
  using assms
proof (induction xs)
  case (Cons y ys)
  have "set (insertLess (\<lambda>a b. key a < key b) x ys) = insert x (set ys)"
    by (metis mset_insertLess set_mset_add_mset_insert set_mset_mset)
  with Cons show ?case by (auto simp: not_less)
qed simp

lemma go_sort_insertionSort: "go_sort insertionSort"
proof -
  have "mset (insertionSort lt xs) = mset xs" for lt and xs :: "'a list"
    by (induction xs) (auto simp: mset_insertLess)
  moreover have "sorted (map key (insertionSort (\<lambda>a b. key a < key b) xs))"
    for key :: "'a \<Rightarrow> int" and xs
    by (induction xs) (auto simp: sorted_insertLess)
  ultimately show ?thesis by (auto simp: go_sort_def)
qed

lemma go_sortD:
  assumes "go_sort srt" and "\<And>a b. lt a b \<longleftrightarrow> key a < (key b :: int)"
  shows "mset (srt lt xs) = mset xs" and "sorted (map key (srt lt xs))"
    and "set (srt lt xs) = set xs" and "length (srt lt xs) = length xs"
proof -
  have "lt = (\<lambda>a b. key a < key b)" using assms(2) by (simp add: fun_eq_iff)
  with assms(1) show m: "mset (srt lt xs) = mset xs" and "sorted (map key (srt lt xs))"
    by (auto simp: go_sort_def)
  from m show "set (srt lt xs) = set xs" by (rule mset_eq_setD)
  from m show "length (srt lt xs) = length xs" by (rule mset_eq_length)
qed

end
