(* ===== verification/Go_Strings.thy ===== *)
theory Go_Strings
  imports Prelude
begin

text \<open>
  The parts of Go's \<open>strings\<close>, \<open>strconv\<close>, \<open>regexp\<close> and \<open>net\<close> packages that the operator
  uses, on byte strings. Case conversion is the ASCII one. \<open>ParseInt\<close> keeps the
  distinction between a syntax error and a range error, and integers have their Go width:
  \<open>int64\<close> products wrap (\<open>mul64\<close>). The lemmas give the round trip between \<open>FormatInt\<close>
  and \<open>ParseInt\<close> and the correctness of \<open>Split\<close>.
\<close>

subsection \<open>Characters\<close>

definition isDigit :: "char \<Rightarrow> bool" where
  "isDigit c \<longleftrightarrow> 48 \<le> (of_char c :: nat) \<and> (of_char c :: nat) \<le> 57"

definition isLower :: "char \<Rightarrow> bool" where
  "isLower c \<longleftrightarrow> 97 \<le> (of_char c :: nat) \<and> (of_char c :: nat) \<le> 122"

definition isUpper :: "char \<Rightarrow> bool" where
  "isUpper c \<longleftrightarrow> 65 \<le> (of_char c :: nat) \<and> (of_char c :: nat) \<le> 90"

definition toLower :: "char \<Rightarrow> char" where
  "toLower c = (if isUpper c then char_of ((of_char c :: nat) + 32) else c)"

definition toUpper :: "char \<Rightarrow> char" where
  "toUpper c = (if isLower c then char_of ((of_char c :: nat) - 32) else c)"

abbreviation ToLower :: "string \<Rightarrow> string" where
  "ToLower s \<equiv> map toLower s"

abbreviation ToUpper :: "string \<Rightarrow> string" where
  "ToUpper s \<equiv> map toUpper s"

subsection \<open>strings\<close>

abbreviation HasSuffix :: "string \<Rightarrow> string \<Rightarrow> bool" where
  "HasSuffix s suf \<equiv> suffix suf s"

abbreviation Contains :: "string \<Rightarrow> string \<Rightarrow> bool" where
  "Contains s sub \<equiv> sublist sub s"

fun ReplaceAll1 :: "char \<Rightarrow> char \<Rightarrow> string \<Rightarrow> string" where
  "ReplaceAll1 a b s = map (\<lambda>c. if c = a then b else c) s"

fun Split :: "char \<Rightarrow> string \<Rightarrow> string list" where
  "Split sep [] = [[]]"
| "Split sep (c # cs) =
     (if c = sep then [] # Split sep cs
      else (case Split sep cs of [] \<Rightarrow> [[c]] | w # ws \<Rightarrow> (c # w) # ws))"

fun Join :: "string list \<Rightarrow> string \<Rightarrow> string" where
  "Join [] sep = []"
| "Join [w] sep = w"
| "Join (w # v # ws) sep = w @ sep @ Join (v # ws) sep"

definition newline :: string where
  "newline = [CHR 0x0A]"

text \<open>\<open>net.JoinHostPort\<close> brackets a host that contains a colon (an IPv6 literal).\<close>

definition JoinHostPort :: "string \<Rightarrow> string \<Rightarrow> string" where
  "JoinHostPort host port =
     (if CHR '':'' \<in> set host then ''['' @ host @ '']:'' @ port else host @ '':'' @ port)"

subsection \<open>strconv\<close>

definition digitChar :: "nat \<Rightarrow> char" where
  "digitChar d = char_of (48 + d)"

definition digitVal :: "char \<Rightarrow> nat" where
  "digitVal c = of_char c - 48"

fun showNat :: "nat \<Rightarrow> string" where
  "showNat n = (if n < 10 then [digitChar n] else showNat (n div 10) @ [digitChar (n mod 10)])"

declare showNat.simps [simp del]

definition FormatInt :: "int \<Rightarrow> string" where
  "FormatInt i = (if i < 0 then CHR ''-'' # showNat (nat (- i)) else showNat (nat i))"

datatype NumErr = ErrSyntax | ErrRange

fun parseUint :: "nat \<Rightarrow> string \<Rightarrow> NumErr + nat" where
  "parseUint acc [] = Inr acc"
| "parseUint acc (c # cs) =
     (if \<not> isDigit c then Inl ErrSyntax
      else let n = acc * 10 + digitVal c in
           if n \<ge> 2 ^ 64 then Inl ErrRange else parseUint n cs)"

definition splitSign :: "string \<Rightarrow> bool \<times> string" where
  "splitSign s = (case s of
       [] \<Rightarrow> (False, [])
     | c # cs \<Rightarrow> if c = CHR ''+'' then (False, cs)
                 else if c = CHR ''-'' then (True, cs) else (False, c # cs))"

definition parseInt64 :: "string \<Rightarrow> NumErr + int" where
  "parseInt64 s =
     (if s = [] then Inl ErrSyntax
      else let (neg, ds) = splitSign s in
        if ds = [] then Inl ErrSyntax
        else case parseUint 0 ds of
          Inl e \<Rightarrow> Inl e
        | Inr un \<Rightarrow>
            if \<not> neg \<and> un \<ge> 2 ^ 63 then Inl ErrRange
            else if neg \<and> un > 2 ^ 63 then Inl ErrRange
            else Inr (if neg then - int un else int un))"

fun numErrMsg :: "string \<Rightarrow> string \<Rightarrow> NumErr \<Rightarrow> string" where
  "numErrMsg fn s ErrSyntax =
     ''strconv.'' @ fn @ '': parsing '' @ [CHR 0x22] @ s @ [CHR 0x22] @ '': invalid syntax''"
| "numErrMsg fn s ErrRange =
     ''strconv.'' @ fn @ '': parsing '' @ [CHR 0x22] @ s @ [CHR 0x22] @ '': value out of range''"

definition ParseInt :: "string \<Rightarrow> GoErr + int" where
  "ParseInt s = (case parseInt64 s of
       Inl e \<Rightarrow> Inl (ErrorString (numErrMsg ''ParseInt'' s e)) | Inr v \<Rightarrow> Inr v)"

definition Atoi :: "string \<Rightarrow> GoErr + int" where
  "Atoi s = (case parseInt64 s of
       Inl e \<Rightarrow> Inl (ErrorString (numErrMsg ''Atoi'' s e)) | Inr v \<Rightarrow> Inr v)"

definition mul64 :: "int \<Rightarrow> int \<Rightarrow> int" where
  "mul64 a b = sint (word_of_int a * word_of_int b :: 64 word)"

subsection \<open>regexp\<close>

text \<open>
  Every pattern of the operator is a literal followed by one capturing class under \<open>+\<close>.
  The leftmost match is found by scanning; the class is greedy.
\<close>

fun FindSubmatch :: "string \<Rightarrow> (char \<Rightarrow> bool) \<Rightarrow> string \<Rightarrow> string option" where
  "FindSubmatch pre cls [] = None"
| "FindSubmatch pre cls (c # cs) =
     (if prefix pre (c # cs) \<and> takeWhile cls (drop (length pre) (c # cs)) \<noteq> []
      then Some (takeWhile cls (drop (length pre) (c # cs)))
      else FindSubmatch pre cls cs)"

text \<open>The class \<open>[0-9a-zA-Z:.]\<close>.\<close>

definition isHostChar :: "char \<Rightarrow> bool" where
  "isHostChar c \<longleftrightarrow> isDigit c \<or> isLower c \<or> isUpper c \<or> c = CHR '':'' \<or> c = CHR ''.''"

subsection \<open>Digits\<close>

lemma digit_roundtrip [simp]:
  "d < 10 \<Longrightarrow> isDigit (digitChar d)" "d < 10 \<Longrightarrow> digitVal (digitChar d) = d"
  by (simp_all add: isDigit_def digitChar_def digitVal_def)

lemma digit_not_special:
  assumes "isDigit c"
  shows "c \<noteq> CHR ''-''" "c \<noteq> CHR ''+''" "c \<noteq> CHR ''b''" "c \<noteq> CHR ''k''"
    "c \<noteq> CHR ''m''" "c \<noteq> CHR ''g''"
  using assms by (auto simp: isDigit_def)

lemma showNat_digits: "list_all isDigit (showNat n)"
  by (induction n rule: showNat.induct) (subst showNat.simps, simp)

lemma showNat_nonempty [simp]: "showNat n \<noteq> []"
  by (subst showNat.simps) simp

lemma parseUint_append:
  "parseUint acc (xs @ ys) = (case parseUint acc xs of Inl e \<Rightarrow> Inl e | Inr a \<Rightarrow> parseUint a ys)"
  by (induction xs arbitrary: acc) (auto simp: Let_def)

lemma parseUint_showNat: "n < 2 ^ 64 \<Longrightarrow> parseUint 0 (showNat n) = Inr n"
proof (induction n rule: showNat.induct)
  case (1 n)
  show ?case
  proof (cases "n < 10")
    case True
    then show ?thesis by (subst showNat.simps) simp
  next
    case False
    with 1 have "parseUint 0 (showNat (n div 10)) = Inr (n div 10)" by simp
    then have "parseUint 0 (showNat n) = parseUint (n div 10) [digitChar (n mod 10)]"
      using False by (subst showNat.simps) (simp add: parseUint_append)
    also have "\<dots> = Inr n" using "1.prems" by (simp add: Let_def)
    finally show ?thesis .
  qed
qed

lemma FormatInt_nonempty [simp]: "FormatInt i \<noteq> []"
  by (simp add: FormatInt_def)

lemma splitSign_digits: "list_all isDigit ds \<Longrightarrow> splitSign ds = (False, ds)"
  by (cases ds) (auto simp: splitSign_def dest: digit_not_special)

lemma parseInt64_FormatInt:
  assumes "- (2 ^ 63) \<le> i" "i < 2 ^ 63"
  shows "parseInt64 (FormatInt i) = Inr i"
proof (cases "i < 0")
  case True
  have "parseUint 0 (showNat (nat (- i))) = Inr (nat (- i))"
    using assms True by (intro parseUint_showNat) (simp add: nat_less_iff)
  moreover have "splitSign (FormatInt i) = (True, showNat (nat (- i)))"
    using True by (simp add: FormatInt_def splitSign_def)
  moreover have "\<not> nat (- i) > 2 ^ 63" using assms by (simp add: nat_less_iff)
  ultimately show ?thesis using True by (simp add: parseInt64_def)
next
  case False
  have "parseUint 0 (showNat (nat i)) = Inr (nat i)"
    using assms False by (intro parseUint_showNat) (simp add: nat_less_iff)
  moreover have "splitSign (FormatInt i) = (False, showNat (nat i))"
    using False by (simp add: FormatInt_def splitSign_digits showNat_digits)
  moreover have "\<not> nat i \<ge> 2 ^ 63" using assms False by (simp add: nat_le_eq_zle le_nat_iff)
  ultimately show ?thesis using False by (simp add: parseInt64_def)
qed

lemma parseInt64_bounds:
  assumes "parseInt64 s = Inr i"
  shows "- (2 ^ 63) \<le> i" and "i < 2 ^ 63"
proof -
  have *: "int un \<le> 2 ^ 63" if "un \<le> 2 ^ 63" for un :: nat
  proof -
    have "int un \<le> int (2 ^ 63)" using that by (simp only: of_nat_le_iff)
    then show ?thesis by simp
  qed
  have **: "int un < 2 ^ 63" if "un < 2 ^ 63" for un :: nat
  proof -
    have "int un < int (2 ^ 63)" using that by (simp only: of_nat_less_iff)
    then show ?thesis by simp
  qed
  show "- (2 ^ 63) \<le> i" "i < 2 ^ 63"
    using assms
    by (auto simp: parseInt64_def Let_def not_le not_less dest!: * **
        split: if_splits sum.splits prod.splits)
qed

lemma mul64_exact:
  assumes "- (2 ^ 63) \<le> a * b" "a * b < 2 ^ 63"
  shows "mul64 a b = a * b"
proof -
  have "(word_of_int a * word_of_int b :: 64 word) = word_of_int (a * b)"
    by (rule wi_hom_mult)
  then have "mul64 a b = signed_take_bit 63 (a * b)"
    using sint_sbintrunc' [where 'a = 64, of "a * b"] by (simp only: mul64_def len_num1 len_bit0) simp
  also have "\<dots> = a * b" using assms by (intro signed_take_bit_int_eq_self) simp_all
  finally show ?thesis .
qed

subsection \<open>Words\<close>

lemma Split_nonempty [simp]: "Split sep s \<noteq> []"
  by (induction s) (auto split: list.splits)

lemma Split_word: "w \<in> set (Split sep s) \<Longrightarrow> sep \<notin> set w"
  by (induction s arbitrary: w) (auto split: list.splits if_splits)

lemma Join_Cons: "ws \<noteq> [] \<Longrightarrow> Join (w # ws) sep = w @ sep @ Join ws sep"
  by (cases ws) auto

lemma Join_Split: "Join (Split sep s) [sep] = s"
proof (induction s)
  case (Cons c cs)
  then show ?case
    by (cases "Split sep cs"; cases "tl (Split sep cs)") (auto simp: Join_Cons)
qed simp

lemma FindSubmatch_sound:
  "FindSubmatch pre cls s = Some r \<Longrightarrow> r \<noteq> [] \<and> list_all cls r \<and> sublist (pre @ r) s"
proof (induction s)
  case (Cons c cs)
  show ?case
  proof (cases "prefix pre (c # cs) \<and> takeWhile cls (drop (length pre) (c # cs)) \<noteq> []")
    case True
    with Cons.prems have r: "r = takeWhile cls (drop (length pre) (c # cs))" by simp
    obtain z where z: "c # cs = pre @ z" using True by (auto elim: prefixE)
    have "pre @ r @ dropWhile cls z = c # cs" using r z by simp
    then have "sublist (pre @ r) (c # cs)" by (metis append.assoc prefixI prefix_imp_sublist)
    then show ?thesis using r True by (auto simp: list_all_iff dest: set_takeWhileD)
  next
    case False
    then have "FindSubmatch pre cls (c # cs) = FindSubmatch pre cls cs"
      by (simp only: FindSubmatch.simps if_False)
    with Cons show ?thesis by (auto simp: sublist_Cons_right)
  qed
qed simp

end
