(* ===== verification/K8s_Types.thy ===== *)
theory K8s_Types
  imports Go_Strings
begin

text \<open>
  The Kubernetes API objects the operator reads and writes, with the fields its code sets or
  inspects. Data the operator only passes through unchanged (tolerations, security contexts,
  claim specifications, the affinity parts it never builds) is carried by \<open>Opaque\<close>.
  A resource quantity is its canonical text together with its value in nano-units; the
  protobuf \<open>Size\<close> methods of \<open>Quantity\<close> and \<open>ResourceRequirements\<close>, which the operator
  uses as a test for emptiness and for change, follow the vendored generated code.
  Every \<open>zero\<close> constant is the Go zero value of its type.
\<close>

type_synonym int32 = "32 word"
type_synonym Time = int

datatype Opaque = Opaque string

datatype IntOrString = FromInt int32 | FromString string

subsection \<open>Metadata\<close>

record OwnerReference =
  or_apiVersion :: string
  or_kind :: string
  or_name :: string
  or_uid :: string
  or_blockOwnerDeletion :: "bool option"
  or_controller :: "bool option"

record ObjectMeta =
  om_name :: string
  om_namespace :: string
  om_labels :: strmap
  om_annotations :: strmap
  om_ownerReferences :: "OwnerReference list"
  om_generation :: int
  om_uid :: string
  om_resourceVersion :: string
  om_creationTimestamp :: Time

definition zeroMeta :: ObjectMeta where
  "zeroMeta = \<lparr>om_name = [], om_namespace = [], om_labels = None, om_annotations = None,
     om_ownerReferences = [], om_generation = 0, om_uid = [], om_resourceVersion = [],
     om_creationTimestamp = 0\<rparr>"

subsection \<open>Resources\<close>

record Quantity =
  q_string :: string
  q_nano :: int

type_synonym ResourceList = "(string, Quantity) gomap"

record ResourceRequirements =
  rr_limits :: ResourceList
  rr_requests :: ResourceList

definition zeroQuantity :: Quantity where
  "zeroQuantity = \<lparr>q_string = ''0'', q_nano = 0\<rparr>"

definition milli :: "string \<Rightarrow> nat \<Rightarrow> Quantity" where
  "milli s n = \<lparr>q_string = s, q_nano = int n * 10 ^ 6\<rparr>"

definition mebi :: "string \<Rightarrow> nat \<Rightarrow> Quantity" where
  "mebi s n = \<lparr>q_string = s, q_nano = int n * 2 ^ 20 * 10 ^ 9\<rparr>"

definition resourceName :: "ResourceList \<Rightarrow> string \<Rightarrow> Quantity" where
  "resourceName rl n = (case lookupM rl n of None \<Rightarrow> zeroQuantity | Some q \<Rightarrow> q)"

abbreviation Cpu :: "ResourceList \<Rightarrow> Quantity" where
  "Cpu rl \<equiv> resourceName rl ''cpu''"

abbreviation Memory :: "ResourceList \<Rightarrow> Quantity" where
  "Memory rl \<equiv> resourceName rl ''memory''"

definition Quantity_Cmp :: "Quantity \<Rightarrow> Quantity \<Rightarrow> int" where
  "Quantity_Cmp q p = (if q_nano q = q_nano p then 0 else if q_nano q < q_nano p then -1 else 1)"

fun bitLen :: "nat \<Rightarrow> nat" where
  "bitLen n = (if n = 0 then 0 else Suc (bitLen (n div 2)))"

declare bitLen.simps [simp del]

text \<open>\<open>sovGenerated x = (bits.Len64(x|1) + 6) / 7\<close>: the bytes of a varint.\<close>

definition sovGenerated :: "nat \<Rightarrow> nat" where
  "sovGenerated x = (bitLen (if even x then x + 1 else x) + 6) div 7"

definition Quantity_Size :: "Quantity \<Rightarrow> nat" where
  "Quantity_Size q = 1 + length (q_string q) + sovGenerated (length (q_string q))"

definition mapEntrySize :: "string \<Rightarrow> Quantity \<Rightarrow> nat" where
  "mapEntrySize k v = 1 + length k + sovGenerated (length k)
     + 1 + Quantity_Size v + sovGenerated (Quantity_Size v)"

definition ResourceList_Size :: "ResourceList \<Rightarrow> nat" where
  "ResourceList_Size rl =
     (\<Sum>(k, v) \<in> fset (fset_of_fmap (entries rl)).
        mapEntrySize k v + 1 + sovGenerated (mapEntrySize k v))"

definition ResourceRequirements_Size :: "ResourceRequirements \<Rightarrow> nat" where
  "ResourceRequirements_Size r = ResourceList_Size (rr_limits r) + ResourceList_Size (rr_requests r)"

subsection \<open>Services, config maps, disruption budgets\<close>

record ServicePort =
  sp_name :: string
  sp_port :: int32
  sp_targetPort :: IntOrString
  sp_protocol :: string

record Service =
  svc_meta :: ObjectMeta
  svc_type :: string
  svc_clusterIP :: string
  svc_selector :: strmap
  svc_ports :: "ServicePort list"

record ConfigMap =
  cm_meta :: ObjectMeta
  cm_data :: strmap

record PodDisruptionBudget =
  pdb_meta :: ObjectMeta
  pdb_minAvailable :: "IntOrString option"
  pdb_selector :: "strmap option"

subsection \<open>Pods and workloads\<close>

record WeightedPodAffinityTerm =
  wt_weight :: int32
  wt_topologyKey :: string
  wt_labelSelector :: "strmap option"

record Affinity =
  af_podAntiAffinity :: "WeightedPodAffinityTerm list option"
  af_other :: Opaque

record VolumeMount =
  vm_name :: string
  vm_mountPath :: string

record ConfigMapVolumeSource =
  cv_name :: string
  cv_defaultMode :: "int32 option"

record EmptyDirVolumeSource =
  ed_medium :: string
  ed_sizeLimit :: "Quantity option"

definition zeroEmptyDir :: EmptyDirVolumeSource where
  "zeroEmptyDir = \<lparr>ed_medium = [], ed_sizeLimit = None\<rparr>"

record Volume =
  vol_name :: string
  vol_configMap :: "ConfigMapVolumeSource option"
  vol_emptyDir :: "EmptyDirVolumeSource option"

record ContainerPort =
  cp_name :: string
  cp_containerPort :: int32
  cp_protocol :: string

record Probe =
  pr_initialDelaySeconds :: int32
  pr_timeoutSeconds :: int32
  pr_periodSeconds :: int32
  pr_failureThreshold :: int32
  pr_exec :: "string list"

record EnvVar =
  ev_name :: string
  ev_value :: string
  ev_fieldPath :: "string option"

record Container =
  ct_name :: string
  ct_image :: string
  ct_imagePullPolicy :: string
  ct_env :: "EnvVar list"
  ct_ports :: "ContainerPort list"
  ct_volumeMounts :: "VolumeMount list"
  ct_command :: "string list"
  ct_readinessProbe :: "Probe option"
  ct_livenessProbe :: "Probe option"
  ct_resources :: ResourceRequirements
  ct_preStop :: "string list option"

record PodSpec =
  ps_affinity :: "Affinity option"
  ps_tolerations :: "Opaque list"
  ps_nodeSelector :: strmap
  ps_securityContext :: "Opaque option"
  ps_imagePullSecrets :: "string list"
  ps_initContainers :: "Container list"
  ps_containers :: "Container list"
  ps_volumes :: "Volume list"

record PodTemplateSpec =
  pt_labels :: strmap
  pt_annotations :: strmap
  pt_spec :: PodSpec

record PersistentVolumeClaim =
  pvc_meta :: ObjectMeta
  pvc_spec :: Opaque

record StatefulSet =
  ss_meta :: ObjectMeta
  ss_serviceName :: string
  ss_replicas :: "int32 option"
  ss_updateStrategy :: string
  ss_selector :: "strmap option"
  ss_template :: PodTemplateSpec
  ss_volumeClaimTemplates :: "PersistentVolumeClaim list"
  ss_readyReplicas :: int32

record Deployment =
  dp_meta :: ObjectMeta
  dp_selector :: "strmap option"
  dp_spec :: Opaque

record Pod =
  pod_meta :: ObjectMeta
  pod_phase :: string
  pod_ip :: string
  pod_startTime :: "Time option"

subsection \<open>Lemmas on resources\<close>

lemma sint_int32:
  assumes "- (2 ^ 31) \<le> k" and "k < 2 ^ 31"
  shows "sint (word_of_int k :: int32) = k"
proof -
  have "sint (word_of_int k :: int32) = signed_take_bit 31 k"
    using sint_sbintrunc' [where 'a = 32, of k] by (simp only: len_num1 len_bit0) simp
  then show ?thesis using assms by (simp add: signed_take_bit_int_eq_self)
qed

lemma Quantity_Cmp_0 [simp]: "Quantity_Cmp q p = 0 \<longleftrightarrow> q_nano q = q_nano p"
  by (simp add: Quantity_Cmp_def)

lemma fset_of_fmap_empty [simp]: "fset_of_fmap fmempty = {||}"
  by (metis fempty_iff fmempty_lookup fset_eqI fset_of_fmap_iff option.distinct(1) prod.exhaust)

lemma ResourceList_Size_0 [simp]: "ResourceList_Size rl = 0 \<longleftrightarrow> entries rl = fmempty"
proof
  assume size: "ResourceList_Size rl = 0"
  show "entries rl = fmempty"
  proof (rule fmap_ext)
    fix k
    have "fmlookup (entries rl) k \<noteq> Some v" for v
    proof
      assume "fmlookup (entries rl) k = Some v"
      then have "(k, v) \<in> fset (fset_of_fmap (entries rl))" by simp
      then show False
        using size unfolding ResourceList_Size_def
        by (subst (asm) sum_eq_0_iff) (auto dest: bspec [where x = "(k, v)"])
    qed
    then show "fmlookup (entries rl) k = fmlookup fmempty k" by (cases "fmlookup (entries rl) k") auto
  qed
qed (simp add: ResourceList_Size_def)

lemma ResourceRequirements_Size_0 [simp]:
  "ResourceRequirements_Size r = 0 \<longleftrightarrow>
     entries (rr_limits r) = fmempty \<and> entries (rr_requests r) = fmempty"
  by (simp add: ResourceRequirements_Size_def)

end
