(* ===== verification/Util.thy ===== *)
theory Util
  imports K8s_Types
begin

text \<open>
  Package \<open>pkg/util\<close> and the constants of \<open>controllers/common\<close>: resource names, label
  merging, the parsing of Redis memory sizes, the management filter and the pod defaults.
\<close>

subsection \<open>name.go, label.go\<close>

definition BaseName :: string where "BaseName = ''redis''"
definition SentinelName :: string where "SentinelName = ''-sentinel''"
definition SentinelRoleName :: string where "SentinelRoleName = ''sentinel''"
definition SentinelConfigFileName :: string where "SentinelConfigFileName = ''sentinel.conf''"
definition RedisConfigFileName :: string where "RedisConfigFileName = ''redis.conf''"
definition UtilRedisName :: string where "UtilRedisName = ''-cluster''"
definition RedisRoleName :: string where "RedisRoleName = ''redis''"
definition AppLabel :: string where "AppLabel = ''redis-cluster''"
definition HostnameTopologyKey :: string where "HostnameTopologyKey = ''kubernetes.io/hostname''"

definition GenerateName :: "string \<Rightarrow> string \<Rightarrow> string" where
  "GenerateName typeName metaName = BaseName @ typeName @ ''-'' @ metaName"

fun mergeInto :: "(string, string) fmap \<Rightarrow> strmap list \<Rightarrow> (string, string) fmap" where
  "mergeInto acc [] = acc"
| "mergeInto acc (m # ms) = mergeInto (acc ++\<^sub>f entries m) ms"

definition MergeLabels :: "strmap list \<Rightarrow> strmap" where
  "MergeLabels allLabels = Some (mergeInto fmempty allLabels)"

subsection \<open>utils.go\<close>

record AuthConfig =
  Password :: string

definition AnnotationScope :: string where "AnnotationScope = ''lovelycat.io/scope''"
definition AnnotationClusterScoped :: string where "AnnotationClusterScoped = ''cluster-scoped''"

definition IsClusterScoped :: bool where "IsClusterScoped = True"

definition dropLast :: "nat \<Rightarrow> string \<Rightarrow> string" where
  "dropLast n u = take (length u - n) u"

definition memUnit :: "string \<Rightarrow> string \<times> int" where
  "memUnit u =
     (if HasSuffix u ''k'' then (dropLast 1 u, 1000)
      else if HasSuffix u ''kb'' then (dropLast 2 u, 1024)
      else if HasSuffix u ''m'' then (dropLast 1 u, 1000 * 1000)
      else if HasSuffix u ''mb'' then (dropLast 2 u, 1024 * 1024)
      else if HasSuffix u ''g'' then (dropLast 1 u, 1000 * 1000 * 1000)
      else if HasSuffix u ''gb'' then (dropLast 2 u, 1024 * 1024 * 1024)
      else if HasSuffix u ''b'' then (dropLast 1 u, 1)
      else (u, 1))"

definition ParseRedisMemConf :: "string \<Rightarrow> GoErr + string" where
  "ParseRedisMemConf p =
     (let u = ToLower p; (digits, mul) = memUnit u in
      case ParseInt digits of
        Inl err \<Rightarrow> Inl err
      | Inr val \<Rightarrow> Inr (FormatInt (mul64 val mul)))"

text \<open>The process environment is the argument \<open>getenv\<close>.\<close>

definition GetEnvOrDefault :: "(string \<Rightarrow> string) \<Rightarrow> string \<Rightarrow> string \<Rightarrow> string" where
  "GetEnvOrDefault getenv name defaultVal =
     (let val = getenv name in if val = [] then defaultVal else val)"

definition ReplaceSymbol :: "string \<Rightarrow> string" where
  "ReplaceSymbol s = ReplaceAll1 (CHR ''-'') (CHR ''_'') s"

definition ShouldManage :: "ObjectMeta \<Rightarrow> bool" where
  "ShouldManage meta =
     (case lookupM (om_annotations meta) AnnotationScope of
        Some v \<Rightarrow> if IsClusterScoped then v = AnnotationClusterScoped else False
      | None \<Rightarrow> if \<not> IsClusterScoped then True else False)"

subsection \<open>controllers/common\<close>

definition OperatorName :: string where "OperatorName = ''redis-operator''"
definition LabelManagedByKey :: string where "LabelManagedByKey = ''app.kubernetes.io/managed-by''"
definition LabelNameKey :: string where "LabelNameKey = ''lovelycat.io/v1alpha1''"

definition NeedRequeueMsg :: string where "NeedRequeueMsg = ''need requeue''"
definition NeedRequeueImmediatelyMsg :: string where
  "NeedRequeueImmediatelyMsg = ''need requeue immediately''"
definition ErrNeedRequeue :: GoErr where "ErrNeedRequeue = ErrorString NeedRequeueMsg"
definition ErrNeedRequeueImmediately :: GoErr where
  "ErrNeedRequeueImmediately = ErrorString NeedRequeueImmediatelyMsg"

definition RedisBasicConfig :: string where
  "RedisBasicConfig = Join
     [''bind 0.0.0.0'', ''protected-mode yes'', ''tcp-backlog 511'', ''timeout 0'',
      ''tcp-keepalive 300'', ''daemonize no'', ''supervised no'', ''pidfile /var/run/redis.pid'']
     newline"

definition ExporterPort :: int32 where "ExporterPort = 9121"
definition ExporterPortName :: string where "ExporterPortName = ''http-metrics''"
definition ExporterContainerName :: string where "ExporterContainerName = ''redis-exporter''"
definition RedisPasswordEnv :: string where "RedisPasswordEnv = ''REDIS_PASSWORD''"
definition RedisConfigurationVolumeName :: string where "RedisConfigurationVolumeName = ''redis-conf''"
definition RedisShutdownConfigurationVolumeName :: string where
  "RedisShutdownConfigurationVolumeName = ''redis-shutdown-config''"
definition RedisStorageVolumeName :: string where "RedisStorageVolumeName = ''redis-data''"
definition GraceTime :: int32 where "GraceTime = 30"
definition UseLabelKey :: string where "UseLabelKey = ''used-for''"
definition MonitorLabelValue :: string where "MonitorLabelValue = ''monitor''"

definition exporterResources :: ResourceRequirements where
  "exporterResources = \<lparr>
     rr_limits = mapLit [(''cpu'', milli ''100m'' 100), (''memory'', mebi ''200Mi'' 200)],
     rr_requests = mapLit [(''cpu'', milli ''50m'' 50), (''memory'', mebi ''50Mi'' 50)]\<rparr>"

definition DefaultLabels :: strmap where
  "DefaultLabels = mapLit [(LabelManagedByKey, OperatorName)]"

definition ParseConfigMap :: "string list" where
  "ParseConfigMap =
     [''maxmemory'', ''proto-max-bulk-len'', ''client-query-buffer-limit'', ''repl-backlog-size'',
      ''auto-aof-rewrite-min-size'', ''active-defrag-ignore-bytes'', ''hash-max-ziplist-entries'',
      ''hash-max-ziplist-value'', ''stream-node-max-bytes'', ''set-max-intset-entries'',
      ''zset-max-ziplist-entries'', ''zset-max-ziplist-value'', ''hll-sparse-max-bytes'']"

definition ReconcileTimeDefault :: int where "ReconcileTimeDefault = 10"

definition GetAffinity :: "Affinity option \<Rightarrow> strmap \<Rightarrow> Affinity option" where
  "GetAffinity affinity labels =
     (case affinity of
        Some a \<Rightarrow> Some a
      | None \<Rightarrow> Some \<lparr>af_podAntiAffinity = Some
            [\<lparr>wt_weight = 100, wt_topologyKey = HostnameTopologyKey, wt_labelSelector = Some labels\<rparr>],
          af_other = Opaque []\<rparr>)"

definition GetSecurityContext :: "Opaque option \<Rightarrow> Opaque option" where
  "GetSecurityContext secctx = (if secctx \<noteq> None then secctx else None)"

definition PullPolicy :: "string \<Rightarrow> string" where
  "PullPolicy specPolicy = (if specPolicy = [] then ''Always'' else specPolicy)"

subsection \<open>Memory sizes\<close>

text \<open>The units a Redis memory size may carry, as its documentation lists them.\<close>

definition memUnitTable :: "(string \<times> int) list" where
  "memUnitTable = [([], 1), (''b'', 1), (''k'', 1000), (''kb'', 1024), (''m'', 1000 ^ 2),
     (''mb'', 1024 ^ 2), (''g'', 1000 ^ 3), (''gb'', 1024 ^ 3)]"

lemma suffix_last [simp]:
  "suffix [c] (xs @ [d]) \<longleftrightarrow> c = d"
  "suffix [a, b] (xs @ [d]) \<longleftrightarrow> b = d \<and> suffix [a] xs"
  using snoc_suffix_snoc [of "[]" c xs d] snoc_suffix_snoc [of "[a]" b xs d] by auto

lemma suffix_last2 [simp]:
  "suffix [c] (xs @ [d, e]) \<longleftrightarrow> c = e"
  "suffix [a, b] (xs @ [d, e]) \<longleftrightarrow> a = d \<and> b = e"
  using suffix_last(1) [of _ "xs @ [d]" e] suffix_last(2) [of a b "xs @ [d]" e] by auto

lemma suffix_last3 [simp]:
  "suffix [c] (xs @ [x, d, e]) \<longleftrightarrow> c = e"
  "suffix [a, b] (xs @ [x, d, e]) \<longleftrightarrow> a = d \<and> b = e"
  using suffix_last2(1) [of _ "xs @ [x]" d e] suffix_last2(2) [of a b "xs @ [x]" d e] by auto

lemma showNat_last: "\<exists>ds d. showNat n = ds @ [d] \<and> isDigit d"
  by (metis append_butlast_last_id last_in_set list_all_iff showNat_digits showNat_nonempty)

lemma FormatInt_last: "\<exists>ds d. FormatInt v = ds @ [d] \<and> isDigit d"
proof -
  obtain ds d where "showNat (nat \<bar>v\<bar>) = ds @ [d]" "isDigit d" using showNat_last by blast
  then have "FormatInt v = (if v < 0 then CHR ''-'' # ds else ds) @ [d]"
    by (auto simp: FormatInt_def)
  with \<open>isDigit d\<close> show ?thesis by blast
qed

lemma dropLast_simps [simp]:
  "dropLast (Suc 0) (xs @ [a, b]) = xs @ [a]" "dropLast 2 (xs @ [a, b, c]) = xs @ [a]"
  by (simp_all add: dropLast_def)

lemma memUnit_digit:
  assumes "isDigit d"
  shows "memUnit (ds @ [d]) = (ds @ [d], 1)" "memUnit (ds @ [d, CHR ''b'']) = (ds @ [d], 1)"
    "memUnit (ds @ [d, CHR ''k'']) = (ds @ [d], 1000)"
    "memUnit (ds @ [d, CHR ''k'', CHR ''b'']) = (ds @ [d], 1024)"
    "memUnit (ds @ [d, CHR ''m'']) = (ds @ [d], 1000 ^ 2)"
    "memUnit (ds @ [d, CHR ''m'', CHR ''b'']) = (ds @ [d], 1024 ^ 2)"
    "memUnit (ds @ [d, CHR ''g'']) = (ds @ [d], 1000 ^ 3)"
    "memUnit (ds @ [d, CHR ''g'', CHR ''b'']) = (ds @ [d], 1024 ^ 3)"
  using digit_not_special [OF assms, THEN not_sym] by (simp_all add: memUnit_def)

lemma memUnit_FormatInt:
  assumes "(unit, mul) \<in> set memUnitTable"
  shows "memUnit (FormatInt v @ unit) = (FormatInt v, mul)"
proof -
  obtain ds d where d: "FormatInt v = ds @ [d]" "isDigit d" using FormatInt_last by blast
  have "unit = [] \<and> mul = 1 \<or> unit = ''b'' \<and> mul = 1 \<or> unit = ''k'' \<and> mul = 1000
     \<or> unit = ''kb'' \<and> mul = 1024 \<or> unit = ''m'' \<and> mul = 1000 ^ 2 \<or> unit = ''mb'' \<and> mul = 1024 ^ 2
     \<or> unit = ''g'' \<and> mul = 1000 ^ 3 \<or> unit = ''gb'' \<and> mul = 1024 ^ 3"
    using assms by (simp only: memUnitTable_def list.set insert_iff empty_iff prod.inject simp_thms)
  then show ?thesis
    unfolding d(1) by (elim disjE conjE) (simp_all add: memUnit_digit [OF d(2)])
qed

lemma toLower_digit: "isDigit c \<Longrightarrow> toLower c = c"
  by (auto simp: isDigit_def isUpper_def toLower_def)

lemma ToLower_FormatInt [simp]: "ToLower (FormatInt v) = FormatInt v"
proof -
  have "ToLower (showNat n) = showNat n" for n
    using showNat_digits [of n] by (intro map_idI) (auto simp: list_all_iff toLower_digit)
  then show ?thesis by (simp add: FormatInt_def toLower_def isUpper_def)
qed

lemma mul64_mod: "mul64 a b mod 2 ^ 64 = a * b mod 2 ^ 64"
proof -
  have "(word_of_int (mul64 a b) :: 64 word) = word_of_int (a * b)" by (simp add: mul64_def)
  then have "uint (word_of_int (mul64 a b) :: 64 word) = uint (word_of_int (a * b) :: 64 word)" by (rule arg_cong)
  then show ?thesis unfolding uint_word_of_int by simp
qed

lemma mul64_bounds: "- (2 ^ 63) \<le> mul64 a b" "mul64 a b < 2 ^ 63"
  using sint_ge [where 'a = 64] sint_lt [where 'a = 64] by (simp_all add: mul64_def)

lemma ParseRedisMemConf_unit:
  assumes "(unit, mul) \<in> set memUnitTable" and "ToLower s = unit"
    and "- (2 ^ 63) \<le> v" and "v < 2 ^ 63"
  shows "ParseRedisMemConf (FormatInt v @ s) = Inr (FormatInt (mul64 v mul))"
  using assms
  by (simp add: ParseRedisMemConf_def memUnit_FormatInt ParseInt_def parseInt64_FormatInt)

text \<open>
  C40. A decimal number followed by one of the documented units, in any letter case, is
  converted without error to a 64-bit integer congruent to the number of bytes it denotes, which
  is that number itself exactly when it fits 64 bits: the product is not checked for overflow.
\<close>

theorem ParseRedisMemConf_value:
  assumes "(unit, mul) \<in> set memUnitTable" and "ToLower s = unit"
    and "- (2 ^ 63) \<le> v" and "v < 2 ^ 63"
  shows "\<exists>r. ParseRedisMemConf (FormatInt v @ s) = Inr (FormatInt r)
     \<and> - (2 ^ 63) \<le> r \<and> r < 2 ^ 63 \<and> r mod 2 ^ 64 = v * mul mod 2 ^ 64
     \<and> (r = v * mul \<longleftrightarrow> - (2 ^ 63) \<le> v * mul \<and> v * mul < 2 ^ 63)"
  using ParseRedisMemConf_unit [OF assms] mul64_bounds [of v mul] mul64_mod [of v mul] mul64_exact [of v mul] by auto

theorem ParseRedisMemConf_value_witness:
  "ParseRedisMemConf (FormatInt 12 @ ''Kb'') = Inr (FormatInt (12 * 1024))"
  using ParseRedisMemConf_value [of "''kb''" 1024 "''Kb''" 12]
  by (auto simp: memUnitTable_def toLower_def isUpper_def char_of_def bit_0)

text \<open>
  The result of a successful conversion is the decimal text of a 64-bit integer, and
  converting it again returns it unchanged: the comparison in \<open>CheckRedisConfig\<close> uses a
  normal form.
\<close>

lemma ParseRedisMemConf_normal:
  assumes "ParseRedisMemConf p = Inr s"
  shows "\<exists>i. s = FormatInt i \<and> - (2 ^ 63) \<le> i \<and> i < 2 ^ 63 \<and> ParseRedisMemConf s = Inr s"
proof -
  obtain v mul where s: "s = FormatInt (mul64 v mul)"
    using assms by (auto simp: ParseRedisMemConf_def Let_def split: prod.splits sum.splits)
  have "ParseRedisMemConf s = Inr (FormatInt (mul64 (mul64 v mul) 1))"
    using ParseRedisMemConf_unit [of "[]" 1 "[]" "mul64 v mul"] mul64_bounds [of v mul]
    by (simp add: s memUnitTable_def)
  also have "mul64 (mul64 v mul) 1 = mul64 v mul"
    using mul64_bounds [of v mul] mul64_exact [of "mul64 v mul" 1] by simp
  finally show ?thesis using s mul64_bounds [of v mul] by auto
qed

text \<open>
  The multiplication is not checked: a size whose number of bytes does not fit 64 bits
  is silently replaced by another number, here a negative one, instead of being rejected.
\<close>

theorem ParseRedisMemConf_wraps:
  "ParseRedisMemConf (FormatInt (2 ^ 33) @ ''gb'') = Inr (FormatInt (- (2 ^ 63)))"
proof -
  have "ParseRedisMemConf (FormatInt (2 ^ 33) @ ''gb'') = Inr (FormatInt (mul64 (2 ^ 33) (1024 ^ 3)))"
    by (rule ParseRedisMemConf_unit [where unit = "''gb''"])
       (simp_all add: memUnitTable_def toLower_def isUpper_def)
  also have "mul64 (2 ^ 33) (1024 ^ 3) = - (2 ^ 63)" by (simp add: mul64_def)
  finally show ?thesis .
qed

subsection \<open>Labels\<close>

lemma find_snoc:
  "List.find P (xs @ [y]) = (case List.find P xs of Some x \<Rightarrow> Some x
     | None \<Rightarrow> if P y then Some y else None)"
  by (induction xs) auto

lemma mergeInto_lookup:
  "fmlookup (mergeInto acc ms) k =
     (case List.find (\<lambda>m. lookupM m k \<noteq> None) (rev ms) of
        Some m \<Rightarrow> lookupM m k | None \<Rightarrow> fmlookup acc k)"
proof (induction ms arbitrary: acc)
  case (Cons m ms)
  have "fmlookup (acc ++\<^sub>f entries m) k
      = (case lookupM m k of Some v \<Rightarrow> Some v | None \<Rightarrow> fmlookup acc k)"
    by (cases "fmlookup (entries m) k") (auto simp: lookupM_def fmdom_notI fmdomI)
  with Cons show ?case by (auto simp: find_snoc split: option.splits)
qed simp

lemma MergeLabels_two [simp]:
  "lookupM (MergeLabels [a, b]) k = (case lookupM b k of Some v \<Rightarrow> Some v | None \<Rightarrow> lookupM a k)"
  by (simp only: MergeLabels_def lookupM_simps mergeInto_lookup) (simp split: option.split)

lemma MergeLabels_Some [simp]: "MergeLabels ms \<noteq> None"
  by (simp add: MergeLabels_def)

text \<open>
  Merging label maps keeps exactly the bindings of the arguments, and where several
  define a key the last one wins.
\<close>

theorem MergeLabels_last_wins:
  "lookupM (MergeLabels ms) k =
     (case List.find (\<lambda>m. lookupM m k \<noteq> None) (rev ms) of Some m \<Rightarrow> lookupM m k | None \<Rightarrow> None)"
  by (simp add: MergeLabels_def mergeInto_lookup split: option.split)

text \<open>
  The operator manages exactly the objects that carry the scope annotation with the
  value \<open>cluster-scoped\<close>.
\<close>

theorem ShouldManage_iff:
  "ShouldManage meta \<longleftrightarrow> lookupM (om_annotations meta) ''lovelycat.io/scope'' = Some ''cluster-scoped''"
  by (auto simp: ShouldManage_def IsClusterScoped_def AnnotationScope_def
      AnnotationClusterScoped_def split: option.splits)

end
