(* ===== verification/Api_Types.thy ===== *)
theory Api_Types
  imports Util
begin

text \<open>
  The custom resources of \<open>api/v1alpha1\<close> (types, status, constants) and the resource names
  derived from them (\<open>controllers/redissentinel/util.go\<close>, \<open>controllers/redisstandalone/util.go\<close>).
\<close>

subsection \<open>Shared parts\<close>

record RedisExporter =
  ex_Enabled :: bool
  ex_Image :: string
  ex_ImagePullPolicy :: string

record RedisStorage =
  st_KeepAfterDeletion :: bool
  st_EmptyDir :: "EmptyDirVolumeSource option"
  st_PersistentVolumeClaim :: "PersistentVolumeClaim option"

record SentinelSettings =
  se_Image :: string
  se_ImagePullPolicy :: string
  se_ImagePullSecrets :: "string list"
  se_Replicas :: int32
  se_Resources :: ResourceRequirements
  se_CustomConfig :: "string list"
  se_Command :: "string list"
  se_Affinity :: "Affinity option"
  se_SecurityContext :: "Opaque option"
  se_ToleRations :: "Opaque list"
  se_NodeSelector :: strmap
  se_Annotations :: strmap

type_synonym ConditionType = string

record Condition =
  c_Type :: ConditionType
  c_Status :: string
  c_LastUpdateTime :: string
  c_LastUpdateAt :: Time
  c_LastTransitionTime :: string
  c_Reason :: string
  c_Message :: string

definition ClusterConditionHealthy :: ConditionType where "ClusterConditionHealthy = ''Healthy''"
definition ClusterConditionCreating :: ConditionType where "ClusterConditionCreating = ''Creating''"
definition ClusterConditionScaling :: ConditionType where "ClusterConditionScaling = ''Scaling''"
definition ClusterConditionScalingDown :: ConditionType where "ClusterConditionScalingDown = ''ScalingDown''"
definition ClusterConditionUpgrading :: ConditionType where "ClusterConditionUpgrading = ''Upgrading''"
definition ClusterConditionUpdating :: ConditionType where "ClusterConditionUpdating = ''Updating''"
definition ClusterConditionFailed :: ConditionType where "ClusterConditionFailed = ''Failed''"

lemmas condition_type_defs =
  ClusterConditionHealthy_def ClusterConditionCreating_def ClusterConditionScaling_def
  ClusterConditionScalingDown_def ClusterConditionUpgrading_def ClusterConditionUpdating_def
  ClusterConditionFailed_def

subsection \<open>RedisSentinel\<close>

record RedisSentinelSpec =
  sn_Size :: int32
  sn_Resources :: ResourceRequirements
  sn_Image :: string
  sn_ImagePullPolicy :: string
  sn_ImagePullSecrets :: "string list"
  sn_Command :: "string list"
  sn_ShutdownConfigMap :: string
  sn_Storage :: RedisStorage
  sn_Password :: string
  sn_Exporter :: RedisExporter
  sn_Affinity :: "Affinity option"
  sn_SecurityContext :: "Opaque option"
  sn_ToleRations :: "Opaque list"
  sn_NodeSelector :: strmap
  sn_Config :: strmap
  sn_Annotations :: strmap
  sn_DisablePersistence :: bool
  sn_Sentinel :: SentinelSettings

record RedisSentinelStatus =
  sns_Conditions :: "Condition list"
  sns_MasterIP :: string
  sns_SentinelIP :: string

record RedisSentinel =
  rs_meta :: ObjectMeta
  rs_spec :: RedisSentinelSpec
  rs_status :: RedisSentinelStatus

abbreviation rs_name :: "RedisSentinel \<Rightarrow> string" where
  "rs_name rc \<equiv> om_name (rs_meta rc)"
abbreviation rs_namespace :: "RedisSentinel \<Rightarrow> string" where
  "rs_namespace rc \<equiv> om_namespace (rs_meta rc)"
abbreviation rs_sentinel :: "RedisSentinel \<Rightarrow> SentinelSettings" where
  "rs_sentinel rc \<equiv> sn_Sentinel (rs_spec rc)"

definition upd_rs_spec :: "(RedisSentinelSpec \<Rightarrow> RedisSentinelSpec) \<Rightarrow> RedisSentinel \<Rightarrow> RedisSentinel" where
  "upd_rs_spec f r = r\<lparr>rs_spec := f (rs_spec r)\<rparr>"

subsection \<open>RedisStandalone\<close>

record RedisStandaloneSpec =
  sa_Size :: int32
  sa_Resources :: ResourceRequirements
  sa_Image :: string
  sa_ImagePullPolicy :: string
  sa_ImagePullSecrets :: "string list"
  sa_Command :: "string list"
  sa_ShutdownConfigMap :: string
  sa_Storage :: RedisStorage
  sa_Password :: string
  sa_Exporter :: RedisExporter
  sa_Affinity :: "Affinity option"
  sa_SecurityContext :: "Opaque option"
  sa_ToleRations :: "Opaque list"
  sa_NodeSelector :: strmap
  sa_Config :: strmap
  sa_Annotations :: strmap
  sa_DisablePersistence :: bool

record RedisStandaloneStatus =
  sas_Conditions :: "Condition list"
  sas_MasterIP :: string
  sas_SentinelIP :: string

record RedisStandalone =
  ra_meta :: ObjectMeta
  ra_spec :: RedisStandaloneSpec
  ra_status :: RedisStandaloneStatus

abbreviation ra_name :: "RedisStandalone \<Rightarrow> string" where
  "ra_name rc \<equiv> om_name (ra_meta rc)"
abbreviation ra_namespace :: "RedisStandalone \<Rightarrow> string" where
  "ra_namespace rc \<equiv> om_namespace (ra_meta rc)"

definition upd_ra_spec :: "(RedisStandaloneSpec \<Rightarrow> RedisStandaloneSpec) \<Rightarrow> RedisStandalone \<Rightarrow> RedisStandalone" where
  "upd_ra_spec f r = r\<lparr>ra_spec := f (ra_spec r)\<rparr>"

subsection \<open>Zero values\<close>

definition zeroResources :: ResourceRequirements where
  "zeroResources = \<lparr>rr_limits = None, rr_requests = None\<rparr>"

definition zeroExporter :: RedisExporter where
  "zeroExporter = \<lparr>ex_Enabled = False, ex_Image = [], ex_ImagePullPolicy = []\<rparr>"

definition zeroStorage :: RedisStorage where
  "zeroStorage = \<lparr>st_KeepAfterDeletion = False, st_EmptyDir = None, st_PersistentVolumeClaim = None\<rparr>"

definition zeroSettings :: SentinelSettings where
  "zeroSettings = \<lparr>se_Image = [], se_ImagePullPolicy = [], se_ImagePullSecrets = [], se_Replicas = 0,
     se_Resources = zeroResources, se_CustomConfig = [], se_Command = [], se_Affinity = None,
     se_SecurityContext = None, se_ToleRations = [], se_NodeSelector = None, se_Annotations = None\<rparr>"

definition zeroSentinelSpec :: RedisSentinelSpec where
  "zeroSentinelSpec = \<lparr>sn_Size = 0, sn_Resources = zeroResources, sn_Image = [],
     sn_ImagePullPolicy = [], sn_ImagePullSecrets = [], sn_Command = [], sn_ShutdownConfigMap = [],
     sn_Storage = zeroStorage, sn_Password = [], sn_Exporter = zeroExporter, sn_Affinity = None,
     sn_SecurityContext = None, sn_ToleRations = [], sn_NodeSelector = None, sn_Config = None,
     sn_Annotations = None, sn_DisablePersistence = False, sn_Sentinel = zeroSettings\<rparr>"

definition zeroSentinelStatus :: RedisSentinelStatus where
  "zeroSentinelStatus = \<lparr>sns_Conditions = [], sns_MasterIP = [], sns_SentinelIP = []\<rparr>"

definition zeroSentinel :: RedisSentinel where
  "zeroSentinel = \<lparr>rs_meta = zeroMeta, rs_spec = zeroSentinelSpec, rs_status = zeroSentinelStatus\<rparr>"

definition zeroStandaloneSpec :: RedisStandaloneSpec where
  "zeroStandaloneSpec = \<lparr>sa_Size = 0, sa_Resources = zeroResources, sa_Image = [],
     sa_ImagePullPolicy = [], sa_ImagePullSecrets = [], sa_Command = [], sa_ShutdownConfigMap = [],
     sa_Storage = zeroStorage, sa_Password = [], sa_Exporter = zeroExporter, sa_Affinity = None,
     sa_SecurityContext = None, sa_ToleRations = [], sa_NodeSelector = None, sa_Config = None,
     sa_Annotations = None, sa_DisablePersistence = False\<rparr>"

definition zeroStandaloneStatus :: RedisStandaloneStatus where
  "zeroStandaloneStatus = \<lparr>sas_Conditions = [], sas_MasterIP = [], sas_SentinelIP = []\<rparr>"

definition zeroStandalone :: RedisStandalone where
  "zeroStandalone = \<lparr>ra_meta = zeroMeta, ra_spec = zeroStandaloneSpec, ra_status = zeroStandaloneStatus\<rparr>"

lemmas zero_defs =
  zeroMeta_def zeroResources_def zeroExporter_def zeroStorage_def zeroSettings_def
  zeroSentinelSpec_def zeroSentinelStatus_def zeroSentinel_def
  zeroStandaloneSpec_def zeroStandaloneStatus_def zeroStandalone_def

text \<open>A sample object of a given name, for examples.\<close>

definition sentinelNamed :: "string \<Rightarrow> string \<Rightarrow> RedisSentinel" where
  "sentinelNamed ns n = zeroSentinel\<lparr>rs_meta := zeroMeta\<lparr>om_namespace := ns, om_name := n\<rparr>\<rparr>"

definition standaloneNamed :: "string \<Rightarrow> string \<Rightarrow> RedisStandalone" where
  "standaloneNamed ns n = zeroStandalone\<lparr>ra_meta := zeroMeta\<lparr>om_namespace := ns, om_name := n\<rparr>\<rparr>"

lemma sample_meta [simp]:
  "rs_meta (sentinelNamed ns n) = zeroMeta\<lparr>om_namespace := ns, om_name := n\<rparr>"
  "ra_meta (standaloneNamed ns n) = zeroMeta\<lparr>om_namespace := ns, om_name := n\<rparr>"
  by (simp_all add: sentinelNamed_def standaloneNamed_def)

subsection \<open>Resource names\<close>

definition SentinelRedisName :: string where "SentinelRedisName = ''-worker''"
definition StandaloneRedisName :: string where "StandaloneRedisName = ''-standalone''"
definition RedisShutdownName :: string where "RedisShutdownName = ''r-s''"

definition sentinel_GetRedisName :: "RedisSentinel \<Rightarrow> string" where
  "sentinel_GetRedisName rc = GenerateName SentinelRedisName (rs_name rc)"

definition sentinel_GetRedisShutdownName :: "RedisSentinel \<Rightarrow> string" where
  "sentinel_GetRedisShutdownName rc = GenerateName RedisShutdownName (rs_name rc)"

definition sentinel_GetRedisShutdownConfigMapName :: "RedisSentinel \<Rightarrow> string" where
  "sentinel_GetRedisShutdownConfigMapName rc =
     (if sn_ShutdownConfigMap (rs_spec rc) \<noteq> [] then sn_ShutdownConfigMap (rs_spec rc)
      else sentinel_GetRedisShutdownName rc)"

definition GetSentinelName :: "RedisSentinel \<Rightarrow> string" where
  "GetSentinelName rc = GenerateName SentinelName (rs_name rc)"

definition GetSentinelReadinessCm :: "RedisSentinel \<Rightarrow> string" where
  "GetSentinelReadinessCm rc = GenerateName ''-sentinel-readiness'' (rs_name rc)"

definition GetSentinelHeadlessSvc :: "RedisSentinel \<Rightarrow> string" where
  "GetSentinelHeadlessSvc rc = GenerateName ''-sentinel-headless'' (rs_name rc)"

definition standalone_GetRedisName :: "RedisStandalone \<Rightarrow> string" where
  "standalone_GetRedisName rc = GenerateName StandaloneRedisName (ra_name rc)"

definition standalone_GetRedisShutdownName :: "RedisStandalone \<Rightarrow> string" where
  "standalone_GetRedisShutdownName rc = GenerateName RedisShutdownName (ra_name rc)"

definition standalone_GetRedisShutdownConfigMapName :: "RedisStandalone \<Rightarrow> string" where
  "standalone_GetRedisShutdownConfigMapName rc =
     (if sa_ShutdownConfigMap (ra_spec rc) \<noteq> [] then sa_ShutdownConfigMap (ra_spec rc)
      else standalone_GetRedisShutdownName rc)"

lemmas resource_name_defs =
  GenerateName_def BaseName_def SentinelName_def SentinelRedisName_def StandaloneRedisName_def
  RedisShutdownName_def sentinel_GetRedisName_def sentinel_GetRedisShutdownName_def
  GetSentinelName_def GetSentinelReadinessCm_def GetSentinelHeadlessSvc_def
  standalone_GetRedisName_def standalone_GetRedisShutdownName_def

text \<open>
  The names of one kind of resource determine the custom resource they belong to: two
  clusters of one namespace never share a Redis workload, a Sentinel workload, a readiness
  config map or a headless service name of the same kind.
\<close>

theorem resource_names_injective:
  "(sentinel_GetRedisName rc = sentinel_GetRedisName rc' \<longleftrightarrow> rs_name rc = rs_name rc') \<and>
   (GetSentinelName rc = GetSentinelName rc' \<longleftrightarrow> rs_name rc = rs_name rc') \<and>
   (GetSentinelReadinessCm rc = GetSentinelReadinessCm rc' \<longleftrightarrow> rs_name rc = rs_name rc') \<and>
   (GetSentinelHeadlessSvc rc = GetSentinelHeadlessSvc rc' \<longleftrightarrow> rs_name rc = rs_name rc') \<and>
   (standalone_GetRedisName ra = standalone_GetRedisName ra' \<longleftrightarrow> ra_name ra = ra_name ra') \<and>
   sentinel_GetRedisName rc \<noteq> standalone_GetRedisName ra \<and>
   sentinel_GetRedisName rc \<noteq> GetSentinelName rc'"
  by (simp add: resource_name_defs)

text \<open>
  Across kinds the naming scheme is not collision free: a Sentinel cluster called
  \<open>readiness-x\<close> names its configuration config map exactly as the cluster \<open>x\<close> names its
  readiness-probe config map, a cluster called \<open>headless-x\<close> names its service exactly as
  \<open>x\<close> names its headless service, and a standalone instance names its default shutdown
  config map exactly as the Sentinel cluster of the same name does.
\<close>

lemma resource_names_collide:
  assumes "rs_name rc = ''readiness-'' @ rs_name rx" and "rs_name rh = ''headless-'' @ rs_name rx"
    and "ra_name ra = rs_name rx"
  shows "GetSentinelName rc = GetSentinelReadinessCm rx \<and>
     GetSentinelName rh = GetSentinelHeadlessSvc rx \<and>
     standalone_GetRedisShutdownName ra = sentinel_GetRedisShutdownName rx"
  using assms by (simp add: resource_name_defs)

end
