(* ===== verification/Api_Validate.thy ===== *)
theory Api_Validate
  imports Api_Types
begin

text \<open>
  Admission of the custom resources: \<open>redissentinel_validate.go\<close>, \<open>redisstandalone_validate.go\<close>,
  \<open>constants.go\<close> and the helpers of \<open>util.go\<close>. \<open>Validate\<close> mutates the object in place, so it
  acts on the object as its state, and an error leaves the defaults set so far. The locale
  \<open>validator\<close> holds what both kinds share: a defaulting function that is applied exactly
  when the object is accepted and that a second run no longer changes.
\<close>

subsection \<open>Constants and configuration helpers\<close>

definition maxNameLength :: nat where "maxNameLength = 48"
definition defaultRedisNumber :: int where "defaultRedisNumber = 3"
definition defaultSentinelNumber :: int where "defaultSentinelNumber = 3"
definition defaultStandaloneRedisNumber :: int where "defaultStandaloneRedisNumber = 1"
definition defaultRedisImage :: string where
  "defaultRedisImage = ''harbor.enmotech.com/cndb-redis/redis:5.0.4-alpine''"
definition defaultRedisExporterImage :: string where
  "defaultRedisExporterImage = ''harbor.enmotech.com/cndb-redis/redis-exporter:1.31.4''"
definition defaultImagePullPolicy :: string where "defaultImagePullPolicy = ''IfNotPresent''"
definition defaultSlavePriority :: string where "defaultSlavePriority = ''1''"

lemmas limit_defs = maxNameLength_def defaultRedisNumber_def defaultSentinelNumber_def
  defaultStandaloneRedisNumber_def

definition assignG :: "string \<Rightarrow> string \<Rightarrow> (strmap, unit) go" where
  "assignG k v = (\<lambda>m. case assignM k v m of
       Ok m' \<Rightarrow> (Ok (), m') | Fail e \<Rightarrow> (Fail e, m) | Panic p \<Rightarrow> (Panic p, m) | Diverge \<Rightarrow> (Diverge, m))"

definition setConfigMapIfNotExist :: "string \<Rightarrow> string \<Rightarrow> (strmap, unit) go" where
  "setConfigMapIfNotExist key value = whenG (\<lambda>config. lookupM config key = None) (assignG key value)"

definition enablePersistence :: "(strmap, unit) go" where
  "enablePersistence =
     seqG (setConfigMapIfNotExist ''appendonly'' ''yes'')
    (seqG (setConfigMapIfNotExist ''auto-aof-rewrite-min-size'' ''536870912'')
    (seqG (setConfigMapIfNotExist ''auto-aof-rewrite-percentage'' ''100'')
    (seqG (setConfigMapIfNotExist ''repl-backlog-size'' ''62914560'')
    (seqG (setConfigMapIfNotExist ''repl-diskless-sync'' ''yes'')
    (seqG (setConfigMapIfNotExist ''aof-load-truncated'' ''yes'')
    (seqG (setConfigMapIfNotExist ''stop-writes-on-bgsave-error'' ''no'')
          (setConfigMapIfNotExist ''save'' ''900 1 300 10'')))))))"

definition disablePersistence :: "(strmap, unit) go" where
  "disablePersistence = seqG (assignG ''appendonly'' ''no'') (assignG ''save'' [])"

definition defaultSentinelResource :: ResourceRequirements where
  "defaultSentinelResource = \<lparr>
     rr_limits = mapLit [(''cpu'', milli ''100m'' 100), (''memory'', mebi ''60Mi'' 60)],
     rr_requests = mapLit [(''cpu'', milli ''20m'' 20), (''memory'', mebi ''16Mi'' 16)]\<rparr>"

subsection \<open>Validate\<close>

definition errNameTooLong :: GoErr where
  "errNameTooLong = ErrorString (''name length can't be higher than '' @ showNat maxNameLength)"

definition upd_sentinel :: "(SentinelSettings \<Rightarrow> SentinelSettings) \<Rightarrow> RedisSentinel \<Rightarrow> RedisSentinel" where
  "upd_sentinel f = upd_rs_spec (sn_Sentinel_update f)"

definition upd_exporter :: "(RedisExporter \<Rightarrow> RedisExporter) \<Rightarrow> RedisSentinel \<Rightarrow> RedisSentinel" where
  "upd_exporter f = upd_rs_spec (sn_Exporter_update f)"

definition onConfig :: "(strmap, 'a) go \<Rightarrow> (RedisSentinel, 'a) go" where
  "onConfig = zoomG (\<lambda>r. sn_Config (rs_spec r)) (\<lambda>c. upd_rs_spec (sn_Config_update (\<lambda>_. c)))"

definition sentinel_Validate :: "(RedisSentinel, bool) go" where
  "sentinel_Validate =
     readG (\<lambda>r. r) (\<lambda>rCopy.
     seqG (whenG (\<lambda>r. length (rs_name r) > maxNameLength) (failG errNameTooLong))
    (seqG (ifG (\<lambda>r. sn_Size (rs_spec r) = 0)
             (modifyG (upd_rs_spec (sn_Size_update (\<lambda>_. of_int defaultRedisNumber))))
             (whenG (\<lambda>r. sint (sn_Size (rs_spec r)) < defaultRedisNumber)
                (failG (ErrorString ''number of redis in spec is less than the minimum''))))
    (seqG (ifG (\<lambda>r. se_Replicas (rs_sentinel r) = 0)
             (modifyG (upd_sentinel (se_Replicas_update (\<lambda>_. of_int defaultSentinelNumber))))
             (whenG (\<lambda>r. sint (se_Replicas (rs_sentinel r)) < defaultSentinelNumber)
                (failG (ErrorString ''number of sentinels in spec is less than the minimum''))))
    (seqG (whenG (\<lambda>r. sn_Image (rs_spec r) = [])
             (modifyG (upd_rs_spec (sn_Image_update (\<lambda>_. defaultRedisImage)))))
    (seqG (whenG (\<lambda>r. se_Image (rs_sentinel r) = [])
             (modifyG (upd_sentinel (se_Image_update (\<lambda>_. defaultRedisImage)))))
    (seqG (whenG (\<lambda>r. ResourceRequirements_Size (se_Resources (rs_sentinel r)) = 0)
             (modifyG (upd_sentinel (se_Resources_update (\<lambda>_. defaultSentinelResource)))))
    (seqG (whenG (\<lambda>r. sn_Config (rs_spec r) = None)
             (modifyG (upd_rs_spec (sn_Config_update (\<lambda>_. Some fmempty)))))
    (seqG (onConfig (assignG ''slave-priority'' defaultSlavePriority))
    (seqG (ifG (\<lambda>r. \<not> sn_DisablePersistence (rs_spec r))
             (onConfig enablePersistence) (onConfig disablePersistence))
    (seqG (whenG (\<lambda>r. ex_Enabled (sn_Exporter (rs_spec r)))
            (seqG (whenG (\<lambda>r. ex_Image (sn_Exporter (rs_spec r)) = [])
                     (modifyG (upd_exporter (ex_Image_update (\<lambda>_. defaultRedisExporterImage)))))
                  (whenG (\<lambda>r. ex_ImagePullPolicy (sn_Exporter (rs_spec r)) = [])
                     (modifyG (upd_exporter (ex_ImagePullPolicy_update (\<lambda>_. defaultImagePullPolicy)))))))
    (readG (\<lambda>r. r) (\<lambda>r. retG (r \<noteq> rCopy)))))))))))))"

definition standalone_onConfig :: "(strmap, 'a) go \<Rightarrow> (RedisStandalone, 'a) go" where
  "standalone_onConfig =
     zoomG (\<lambda>r. sa_Config (ra_spec r)) (\<lambda>c. upd_ra_spec (sa_Config_update (\<lambda>_. c)))"

definition standalone_Validate :: "(RedisStandalone, bool) go" where
  "standalone_Validate =
     readG (\<lambda>r. r) (\<lambda>rCopy.
     seqG (whenG (\<lambda>r. length (ra_name r) > maxNameLength) (failG errNameTooLong))
    (seqG (ifG (\<lambda>r. sa_Size (ra_spec r) = 0)
             (modifyG (upd_ra_spec (sa_Size_update (\<lambda>_. of_int defaultStandaloneRedisNumber))))
             (whenG (\<lambda>r. sint (sa_Size (ra_spec r)) \<noteq> defaultStandaloneRedisNumber)
                (failG (ErrorString ''standalone mode, number of redis in spec must be set 1''))))
    (seqG (whenG (\<lambda>r. sa_Image (ra_spec r) = [])
             (modifyG (upd_ra_spec (sa_Image_update (\<lambda>_. defaultRedisImage)))))
    (seqG (whenG (\<lambda>r. sa_Config (ra_spec r) = None)
             (modifyG (upd_ra_spec (sa_Config_update (\<lambda>_. Some fmempty)))))
    (seqG (whenG (\<lambda>r. ex_Enabled (sa_Exporter (ra_spec r)))
            (seqG (whenG (\<lambda>r. ex_Image (sa_Exporter (ra_spec r)) = [])
                     (modifyG (upd_ra_spec (sa_Exporter_update (ex_Image_update (\<lambda>_. defaultRedisExporterImage))))))
                  (whenG (\<lambda>r. ex_ImagePullPolicy (sa_Exporter (ra_spec r)) = [])
                     (modifyG (upd_ra_spec (sa_Exporter_update
                        (ex_ImagePullPolicy_update (\<lambda>_. defaultImagePullPolicy))))))))
    (seqG (ifG (\<lambda>r. \<not> sa_DisablePersistence (ra_spec r))
             (standalone_onConfig enablePersistence) (standalone_onConfig disablePersistence))
    (readG (\<lambda>r. r) (\<lambda>r. retG (r \<noteq> rCopy)))))))))"

subsection \<open>Closed forms\<close>

text \<open>The defaults as one function of the object, and the error as a function of the input.\<close>

definition persistenceDefaults :: "(string \<times> string) list" where
  "persistenceDefaults =
     [(''appendonly'', ''yes''), (''auto-aof-rewrite-min-size'', ''536870912''),
      (''auto-aof-rewrite-percentage'', ''100''), (''repl-backlog-size'', ''62914560''),
      (''repl-diskless-sync'', ''yes''), (''aof-load-truncated'', ''yes''),
      (''stop-writes-on-bgsave-error'', ''no''), (''save'', ''900 1 300 10'')]"

definition withPersistence :: "bool \<Rightarrow> (string, string) fmap \<Rightarrow> (string, string) fmap" where
  "withPersistence disabled f =
     (if disabled then fmupd ''save'' [] (fmupd ''appendonly'' ''no'' f)
      else fmap_of_list persistenceDefaults ++\<^sub>f f)"

definition exporterDefaults :: "RedisExporter \<Rightarrow> RedisExporter" where
  "exporterDefaults e =
     (if ex_Enabled e then
        e\<lparr>ex_Image := (if ex_Image e = [] then defaultRedisExporterImage else ex_Image e),
          ex_ImagePullPolicy := (if ex_ImagePullPolicy e = [] then defaultImagePullPolicy else ex_ImagePullPolicy e)\<rparr>
      else e)"

definition settingsDefaults :: "SentinelSettings \<Rightarrow> SentinelSettings" where
  "settingsDefaults s = s\<lparr>
     se_Replicas := (if se_Replicas s = 0 then 3 else se_Replicas s),
     se_Image := (if se_Image s = [] then defaultRedisImage else se_Image s),
     se_Resources := (if ResourceRequirements_Size (se_Resources s) = 0 then defaultSentinelResource
                      else se_Resources s)\<rparr>"

definition sentinelDefaults :: "RedisSentinel \<Rightarrow> RedisSentinel" where
  "sentinelDefaults = upd_rs_spec (\<lambda>s. s\<lparr>
     sn_Size := (if sn_Size s = 0 then 3 else sn_Size s),
     sn_Image := (if sn_Image s = [] then defaultRedisImage else sn_Image s),
     sn_Config := Some (withPersistence (sn_DisablePersistence s)
        (fmupd ''slave-priority'' ''1'' (entries (sn_Config s)))),
     sn_Exporter := exporterDefaults (sn_Exporter s),
     sn_Sentinel := settingsDefaults (sn_Sentinel s)\<rparr>)"

definition standaloneDefaults :: "RedisStandalone \<Rightarrow> RedisStandalone" where
  "standaloneDefaults = upd_ra_spec (\<lambda>s. s\<lparr>
     sa_Size := 1,
     sa_Image := (if sa_Image s = [] then defaultRedisImage else sa_Image s),
     sa_Config := Some (withPersistence (sa_DisablePersistence s) (entries (sa_Config s))),
     sa_Exporter := exporterDefaults (sa_Exporter s)\<rparr>)"

definition tooSmall :: "int32 \<Rightarrow> bool" where
  "tooSmall n \<longleftrightarrow> n \<noteq> 0 \<and> sint n < 3"

definition sentinelError :: "RedisSentinel \<Rightarrow> GoErr option" where
  "sentinelError r =
     (if length (rs_name r) > 48 then Some errNameTooLong
      else if tooSmall (sn_Size (rs_spec r))
      then Some (ErrorString ''number of redis in spec is less than the minimum'')
      else if tooSmall (se_Replicas (rs_sentinel r))
      then Some (ErrorString ''number of sentinels in spec is less than the minimum'')
      else None)"

definition standaloneError :: "RedisStandalone \<Rightarrow> GoErr option" where
  "standaloneError r =
     (if length (ra_name r) > 48 then Some errNameTooLong
      else if sa_Size (ra_spec r) \<noteq> 0 \<and> sa_Size (ra_spec r) \<noteq> 1
      then Some (ErrorString ''standalone mode, number of redis in spec must be set 1'')
      else None)"

subsection \<open>Evaluation\<close>

lemma assignG_Some [simp]: "assignG k v (Some f) = (Ok (), Some (fmupd k v f))"
  by (simp add: assignG_def)

lemma setConfigMapIfNotExist_Some:
  "setConfigMapIfNotExist k v (Some f) = (Ok (), Some (fmap_of_list [(k, v)] ++\<^sub>f f))"
proof (cases "fmlookup f k")
  case None
  have "fmupd k v f = fmap_of_list [(k, v)] ++\<^sub>f f"
    by (rule fmap_ext) (use None in \<open>auto simp: fmdom'_notI\<close>)
  then show ?thesis using None by (simp add: setConfigMapIfNotExist_def)
next
  case (Some w)
  have "f = fmap_of_list [(k, v)] ++\<^sub>f f"
    by (rule fmap_ext) (use Some in \<open>auto dest: fmdomI\<close>)
  then show ?thesis using Some by (simp add: setConfigMapIfNotExist_def)
qed

lemma enablePersistence_Some:
  "enablePersistence (Some f) = (Ok (), Some (withPersistence False f))"
proof -
  have "(fmap_of_list [(''save'', ''900 1 300 10'')] ++\<^sub>f
      (fmap_of_list [(''stop-writes-on-bgsave-error'', ''no'')] ++\<^sub>f
      (fmap_of_list [(''aof-load-truncated'', ''yes'')] ++\<^sub>f
      (fmap_of_list [(''repl-diskless-sync'', ''yes'')] ++\<^sub>f
      (fmap_of_list [(''repl-backlog-size'', ''62914560'')] ++\<^sub>f
      (fmap_of_list [(''auto-aof-rewrite-percentage'', ''100'')] ++\<^sub>f
      (fmap_of_list [(''auto-aof-rewrite-min-size'', ''536870912'')] ++\<^sub>f
      (fmap_of_list [(''appendonly'', ''yes'')] ++\<^sub>f f)))))))) =
     fmap_of_list persistenceDefaults ++\<^sub>f f"
    by (rule fmap_ext) (simp add: persistenceDefaults_def)
  then show ?thesis
    by (simp add: enablePersistence_def seqG_run setConfigMapIfNotExist_Some withPersistence_def)
qed

lemma disablePersistence_Some:
  "disablePersistence (Some f) = (Ok (), Some (withPersistence True f))"
  by (simp add: disablePersistence_def seqG_run withPersistence_def)

lemma onConfig_run:
  assumes "sn_Config (rs_spec r) = Some f" and "m (Some f) = (Ok (), Some g)"
  shows "onConfig m r = (Ok (), upd_rs_spec (\<lambda>s. s\<lparr>sn_Config := Some g\<rparr>) r)"
  using assms by (simp add: onConfig_def zoomG_def)

lemma standalone_onConfig_run:
  assumes "sa_Config (ra_spec r) = Some f" and "m (Some f) = (Ok (), Some g)"
  shows "standalone_onConfig m r = (Ok (), upd_ra_spec (\<lambda>s. s\<lparr>sa_Config := Some g\<rparr>) r)"
  using assms by (simp add: standalone_onConfig_def zoomG_def)

text \<open>A step that fills in a value that is absent, as an update of the field it concerns.\<close>

lemma default_step:
  assumes "\<And>f. upd f r = put (f (get r)) r" and "put (get r) r = r"
  shows "whenG (\<lambda>r. P (get r)) (modifyG (upd (\<lambda>_. d))) r
     = (Ok (), upd (\<lambda>x. if P x then d else x) r)"
  using assms by simp

lemma sint_32_numerals [simp]: "sint (3 :: int32) = 3" "sint (1 :: int32) = 1"
  by simp_all

lemma sint_eq_1: "sint (n :: int32) = 1 \<longleftrightarrow> n = 1"
  by (metis sint_32_numerals(2) signed_word_eqI)

lemmas upd_defs = upd_rs_spec_def upd_ra_spec_def upd_sentinel_def upd_exporter_def

lemma sentinel_steps:
  "whenG (\<lambda>r. sn_Image (rs_spec r) = []) (modifyG (upd_rs_spec (sn_Image_update (\<lambda>_. d)))) r
     = (Ok (), upd_rs_spec (sn_Image_update (\<lambda>i. if i = [] then d else i)) r)"
  "whenG (\<lambda>r. se_Image (rs_sentinel r) = []) (modifyG (upd_sentinel (se_Image_update (\<lambda>_. d)))) r
     = (Ok (), upd_sentinel (se_Image_update (\<lambda>i. if i = [] then d else i)) r)"
  "whenG (\<lambda>r. ResourceRequirements_Size (se_Resources (rs_sentinel r)) = 0)
       (modifyG (upd_sentinel (se_Resources_update (\<lambda>_. q)))) r
     = (Ok (), upd_sentinel (se_Resources_update
          (\<lambda>i. if ResourceRequirements_Size i = 0 then q else i)) r)"
  "whenG (\<lambda>r. sn_Config (rs_spec r) = None) (modifyG (upd_rs_spec (sn_Config_update (\<lambda>_. Some fmempty)))) r
     = (Ok (), upd_rs_spec (sn_Config_update (\<lambda>c. Some (entries c))) r)"
  "whenG (\<lambda>r. ex_Enabled (sn_Exporter (rs_spec r)))
     (seqG (whenG (\<lambda>r. ex_Image (sn_Exporter (rs_spec r)) = [])
              (modifyG (upd_exporter (ex_Image_update (\<lambda>_. defaultRedisExporterImage)))))
           (whenG (\<lambda>r. ex_ImagePullPolicy (sn_Exporter (rs_spec r)) = [])
              (modifyG (upd_exporter (ex_ImagePullPolicy_update (\<lambda>_. defaultImagePullPolicy)))))) r
     = (Ok (), upd_exporter exporterDefaults r)"
  by (auto simp: upd_defs seqG_case exporterDefaults_def entries_def split: option.splits)

lemma sentinel_number_steps:
  "\<not> tooSmall (sn_Size (rs_spec r)) \<Longrightarrow>
     ifG (\<lambda>r. sn_Size (rs_spec r) = 0)
       (modifyG (upd_rs_spec (sn_Size_update (\<lambda>_. of_int defaultRedisNumber))))
       (whenG (\<lambda>r. sint (sn_Size (rs_spec r)) < defaultRedisNumber) (failG e)) r
     = (Ok (), upd_rs_spec (sn_Size_update (\<lambda>n. if n = 0 then 3 else n)) r)"
  "\<not> tooSmall (se_Replicas (rs_sentinel r)) \<Longrightarrow>
     ifG (\<lambda>r. se_Replicas (rs_sentinel r) = 0)
       (modifyG (upd_sentinel (se_Replicas_update (\<lambda>_. of_int defaultSentinelNumber))))
       (whenG (\<lambda>r. sint (se_Replicas (rs_sentinel r)) < defaultSentinelNumber) (failG e)) r
     = (Ok (), upd_sentinel (se_Replicas_update (\<lambda>n. if n = 0 then 3 else n)) r)"
  by (auto simp: upd_defs tooSmall_def limit_defs)

lemma upd_rs_spec_sel [simp]:
  "rs_spec (upd_rs_spec f r) = f (rs_spec r)" "rs_meta (upd_rs_spec f r) = rs_meta r"
  "rs_status (upd_rs_spec f r) = rs_status r"
  by (simp_all add: upd_rs_spec_def)

lemma upd_ra_spec_sel [simp]:
  "ra_spec (upd_ra_spec f r) = f (ra_spec r)" "ra_meta (upd_ra_spec f r) = ra_meta r"
  "ra_status (upd_ra_spec f r) = ra_status r"
  by (simp_all add: upd_ra_spec_def)

lemma sentinel_config_steps:
  assumes "sn_Config (rs_spec r) = Some f"
  shows "onConfig (assignG k v) r = (Ok (), upd_rs_spec (sn_Config_update (\<lambda>_. Some (fmupd k v f))) r)"
    and "ifG (\<lambda>r. \<not> sn_DisablePersistence (rs_spec r)) (onConfig enablePersistence) (onConfig disablePersistence) r
     = (Ok (), upd_rs_spec (sn_Config_update (\<lambda>_. Some (withPersistence (sn_DisablePersistence (rs_spec r)) f))) r)"
  using onConfig_run [OF assms, of enablePersistence, OF enablePersistence_Some]
    onConfig_run [OF assms, of disablePersistence, OF disablePersistence_Some]
    onConfig_run [OF assms, of "assignG k v", OF assignG_Some] by auto

lemma sentinel_Validate_ok:
  assumes "sentinelError r = None"
  shows "sentinel_Validate r = (Ok (sentinelDefaults r \<noteq> r), sentinelDefaults r)"
proof -
  have small: "\<not> maxNameLength < length (rs_name r)" "\<not> tooSmall (sn_Size (rs_spec r))"
      "\<not> tooSmall (se_Replicas (rs_sentinel r))"
    using assms by (auto simp: sentinelError_def maxNameLength_def split: if_splits)
  have name: "whenG (\<lambda>r. maxNameLength < length (rs_name r)) (failG errNameTooLong) r = (Ok (), r)"
    using small by simp
  let ?r1 = "upd_sentinel (se_Resources_update (\<lambda>i. if ResourceRequirements_Size i = 0 then defaultSentinelResource else i))
    (upd_sentinel (se_Image_update (\<lambda>i. if i = [] then defaultRedisImage else i))
    (upd_rs_spec (sn_Image_update (\<lambda>i. if i = [] then defaultRedisImage else i))
    (upd_sentinel (se_Replicas_update (\<lambda>n. if n = 0 then 3 else n))
    (upd_rs_spec (sn_Size_update (\<lambda>n. if n = 0 then 3 else n)) r))))"
  let ?r2 = "upd_rs_spec (sn_Config_update (\<lambda>c. Some (entries c))) ?r1"
  let ?r3 = "upd_rs_spec (sn_Config_update (\<lambda>_. Some (fmupd ''slave-priority'' ''1'' (entries (sn_Config (rs_spec r)))))) ?r2"
  let ?r4 = "upd_rs_spec (sn_Config_update (\<lambda>_. Some (withPersistence (sn_DisablePersistence (rs_spec r))
        (fmupd ''slave-priority'' ''1'' (entries (sn_Config (rs_spec r))))))) ?r3"
  have final: "upd_exporter exporterDefaults ?r4 = sentinelDefaults r"
    by (simp add: sentinelDefaults_def settingsDefaults_def upd_defs)
  have size1: "\<not> tooSmall (se_Replicas (rs_sentinel (upd_rs_spec (sn_Size_update (\<lambda>n. if n = 0 then 3 else n)) r)))"
    using small by simp
  have c2: "sn_Config (rs_spec ?r2) = Some (entries (sn_Config (rs_spec r)))"
    and c3: "sn_Config (rs_spec ?r3) = Some (fmupd ''slave-priority'' ''1'' (entries (sn_Config (rs_spec r))))"
    and d3: "sn_DisablePersistence (rs_spec ?r3) = sn_DisablePersistence (rs_spec r)"
    by (simp_all add: upd_sentinel_def)
  show ?thesis
    unfolding sentinel_Validate_def readG_run
    by (simp only: seqG_case name sentinel_number_steps(1) [OF small(2)] sentinel_number_steps(2) [OF size1]
        sentinel_steps sentinel_config_steps(1) [OF c2] sentinel_config_steps(2) [OF c3] d3
        defaultSlavePriority_def final prod.case res.case readG_run retG_run)
qed

lemma sentinel_Validate_error:
  assumes "sentinelError r = Some e"
  shows "fst (sentinel_Validate r) = Fail e"
proof -
  consider (name) "48 < length (rs_name r)" "e = errNameTooLong"
    | (size) "\<not> 48 < length (rs_name r)" "tooSmall (sn_Size (rs_spec r))"
        "e = ErrorString ''number of redis in spec is less than the minimum''"
    | (replicas) "\<not> 48 < length (rs_name r)" "\<not> tooSmall (sn_Size (rs_spec r))"
        "tooSmall (se_Replicas (rs_sentinel r))"
        "e = ErrorString ''number of sentinels in spec is less than the minimum''"
    using assms by (auto simp: sentinelError_def split: if_splits)
  then show ?thesis
  proof cases
    case name
    then show ?thesis unfolding sentinel_Validate_def readG_run
      by (intro seqG_FailI) (simp add: limit_defs)
  next
    case size
    then show ?thesis unfolding sentinel_Validate_def readG_run
      by - (rule seqG_OkI [where P = "\<lambda>x. fst x = Fail e"], simp add: limit_defs,
            intro seqG_FailI, simp add: limit_defs tooSmall_def)
  next
    case replicas
    then show ?thesis unfolding sentinel_Validate_def readG_run
      by - (rule seqG_OkI [where P = "\<lambda>x. fst x = Fail e"], simp add: limit_defs,
          rule seqG_OkI [where P = "\<lambda>x. fst x = Fail e"], rule sentinel_number_steps(1), simp,
          intro seqG_FailI, simp add: limit_defs tooSmall_def)
  qed
qed

lemma standalone_steps:
  "whenG (\<lambda>r. sa_Image (ra_spec r) = []) (modifyG (upd_ra_spec (sa_Image_update (\<lambda>_. d)))) r
     = (Ok (), upd_ra_spec (sa_Image_update (\<lambda>i. if i = [] then d else i)) r)"
  "whenG (\<lambda>r. sa_Config (ra_spec r) = None) (modifyG (upd_ra_spec (sa_Config_update (\<lambda>_. Some fmempty)))) r
     = (Ok (), upd_ra_spec (sa_Config_update (\<lambda>c. Some (entries c))) r)"
  "whenG (\<lambda>r. ex_Enabled (sa_Exporter (ra_spec r)))
     (seqG (whenG (\<lambda>r. ex_Image (sa_Exporter (ra_spec r)) = [])
              (modifyG (upd_ra_spec (sa_Exporter_update (ex_Image_update (\<lambda>_. defaultRedisExporterImage))))))
           (whenG (\<lambda>r. ex_ImagePullPolicy (sa_Exporter (ra_spec r)) = [])
              (modifyG (upd_ra_spec (sa_Exporter_update
                 (ex_ImagePullPolicy_update (\<lambda>_. defaultImagePullPolicy))))))) r
     = (Ok (), upd_ra_spec (sa_Exporter_update exporterDefaults) r)"
  by (auto simp: upd_defs seqG_case exporterDefaults_def entries_def split: option.splits)

lemma standalone_config_step:
  assumes "sa_Config (ra_spec r) = Some f"
  shows "ifG (\<lambda>r. \<not> sa_DisablePersistence (ra_spec r)) (standalone_onConfig enablePersistence)
       (standalone_onConfig disablePersistence) r
     = (Ok (), upd_ra_spec (sa_Config_update (\<lambda>_. Some (withPersistence (sa_DisablePersistence (ra_spec r)) f))) r)"
  using standalone_onConfig_run [OF assms, of enablePersistence, OF enablePersistence_Some]
    standalone_onConfig_run [OF assms, of disablePersistence, OF disablePersistence_Some] by auto

lemma standalone_Validate_ok:
  assumes "standaloneError r = None"
  shows "standalone_Validate r = (Ok (standaloneDefaults r \<noteq> r), standaloneDefaults r)"
proof -
  have small: "\<not> maxNameLength < length (ra_name r)" "sa_Size (ra_spec r) \<noteq> 0 \<Longrightarrow> sa_Size (ra_spec r) = 1"
    using assms by (auto simp: standaloneError_def maxNameLength_def split: if_splits)
  have name: "whenG (\<lambda>r. maxNameLength < length (ra_name r)) (failG errNameTooLong) r = (Ok (), r)"
    using small by simp
  let ?r1 = "upd_ra_spec (sa_Size_update (\<lambda>_. 1)) r"
  have size: "ifG (\<lambda>r. sa_Size (ra_spec r) = 0)
       (modifyG (upd_ra_spec (sa_Size_update (\<lambda>_. of_int defaultStandaloneRedisNumber))))
       (whenG (\<lambda>r. sint (sa_Size (ra_spec r)) \<noteq> defaultStandaloneRedisNumber) (failG e)) r = (Ok (), ?r1)" for e
    using small(2) by (cases "sa_Size (ra_spec r) = 0") (simp_all add: limit_defs upd_defs)
  let ?r2 = "upd_ra_spec (sa_Exporter_update exporterDefaults) (upd_ra_spec (sa_Config_update (\<lambda>c. Some (entries c)))
    (upd_ra_spec (sa_Image_update (\<lambda>i. if i = [] then defaultRedisImage else i)) ?r1))"
  have c2: "sa_Config (ra_spec ?r2) = Some (entries (sa_Config (ra_spec r)))"
    and d2: "sa_DisablePersistence (ra_spec ?r2) = sa_DisablePersistence (ra_spec r)" by simp_all
  have final: "upd_ra_spec (sa_Config_update (\<lambda>_. Some (withPersistence (sa_DisablePersistence (ra_spec r))
      (entries (sa_Config (ra_spec r)))))) ?r2 = standaloneDefaults r"
    by (simp add: standaloneDefaults_def upd_defs)
  show ?thesis
    unfolding standalone_Validate_def readG_run
    by (simp only: seqG_case name size standalone_steps standalone_config_step [OF c2] d2 final
        prod.case res.case readG_run retG_run)
qed

lemma standalone_Validate_error:
  assumes "standaloneError r = Some e"
  shows "fst (standalone_Validate r) = Fail e"
proof (cases "48 < length (ra_name r)")
  case True
  with assms show ?thesis unfolding standalone_Validate_def readG_run
    by (intro seqG_FailI) (simp add: limit_defs standaloneError_def)
next
  case False
  with assms show ?thesis unfolding standalone_Validate_def readG_run
    by - (rule seqG_OkI [where P = "\<lambda>x. fst x = Fail e"], simp add: limit_defs,
        intro seqG_FailI, simp add: limit_defs standaloneError_def sint_eq_1 split: if_splits)
qed

subsection \<open>What both validators promise\<close>

locale validator =
  fixes validate :: "('o, bool) go"
    and err :: "'o \<Rightarrow> GoErr option"
    and defaults :: "'o \<Rightarrow> 'o"
  assumes accepts: "err r = None \<Longrightarrow> validate r = (Ok (defaults r \<noteq> r), defaults r)"
    and rejects: "err r = Some e \<Longrightarrow> fst (validate r) = Fail e"
    and defaults_accepted: "err r = None \<Longrightarrow> err (defaults r) = None"
    and defaults_stable: "defaults (defaults r) = defaults r"
begin

lemma decides: "(\<exists>b r'. validate r = (Ok b, r')) \<longleftrightarrow> err r = None"
  using accepts [of r] rejects [of r] by (cases "err r") auto

lemma outcome:
  "fst (validate r) = (case err r of None \<Rightarrow> Ok (defaults r \<noteq> r) | Some e \<Rightarrow> Fail e)"
  using accepts [of r] rejects [of r] by (cases "err r") auto

lemma second_run:
  assumes "validate r = (Ok b, r')"
  shows "r' = defaults r" and "b \<longleftrightarrow> r' \<noteq> r" and "validate r' = (Ok False, r')"
proof -
  have ok: "err r = None" using assms decides by blast
  show r': "r' = defaults r" and "b \<longleftrightarrow> r' \<noteq> r" using accepts [OF ok] assms by auto
  show "validate r' = (Ok False, r')"
    using accepts [OF defaults_accepted [OF ok]] by (simp add: r' defaults_stable)
qed

end

lemma withPersistence_stable [simp]:
  "withPersistence d (withPersistence d f) = withPersistence d f"
  by (rule fmap_ext) (auto simp: withPersistence_def)

lemma withPersistence_lookup:
  "fmlookup (withPersistence d f) k =
     (if d then (if k = ''save'' then Some [] else if k = ''appendonly'' then Some ''no'' else fmlookup f k)
      else (case fmlookup f k of Some v \<Rightarrow> Some v | None \<Rightarrow> map_of persistenceDefaults k))"
  by (auto simp: withPersistence_def fmlookup_of_list fmdom_notI fmdomI split: option.splits)

lemma slave_priority_stable:
  "fmupd ''slave-priority'' v (withPersistence d (fmupd ''slave-priority'' v f))
     = withPersistence d (fmupd ''slave-priority'' v f)"
  by (rule fmupd_same) (simp add: withPersistence_lookup)

lemma defaults_nonempty [simp]:
  "defaultRedisImage \<noteq> []" "defaultRedisExporterImage \<noteq> []" "defaultImagePullPolicy \<noteq> []"
  "ResourceRequirements_Size defaultSentinelResource \<noteq> 0"
  unfolding ResourceRequirements_Size_0
  by (simp_all add: defaultRedisImage_def defaultRedisExporterImage_def defaultImagePullPolicy_def
      defaultSentinelResource_def)

lemma exporterDefaults_stable: "exporterDefaults (exporterDefaults e) = exporterDefaults e"
  by (simp add: exporterDefaults_def)

lemma settingsDefaults_stable: "settingsDefaults (settingsDefaults e) = settingsDefaults e"
  by (simp add: settingsDefaults_def del: ResourceRequirements_Size_0)

interpretation sv: validator sentinel_Validate sentinelError sentinelDefaults
proof
  fix r :: RedisSentinel
  show "sentinelError r = None \<Longrightarrow> sentinelError (sentinelDefaults r) = None"
    by (auto simp: sentinelError_def sentinelDefaults_def settingsDefaults_def tooSmall_def
        simp del: ResourceRequirements_Size_0 split: if_splits)
  show "sentinelDefaults (sentinelDefaults r) = sentinelDefaults r"
    by (simp add: sentinelDefaults_def upd_rs_spec_def slave_priority_stable
        exporterDefaults_stable settingsDefaults_stable)
qed (simp_all add: sentinel_Validate_ok sentinel_Validate_error)

interpretation av: validator standalone_Validate standaloneError standaloneDefaults
proof
  fix r :: RedisStandalone
  show "standaloneError r = None \<Longrightarrow> standaloneError (standaloneDefaults r) = None"
    by (auto simp: standaloneError_def standaloneDefaults_def split: if_splits)
  show "standaloneDefaults (standaloneDefaults r) = standaloneDefaults r"
    by (simp add: standaloneDefaults_def upd_ra_spec_def exporterDefaults_stable)
qed (simp_all add: standalone_Validate_ok standalone_Validate_error)

subsection \<open>Properties\<close>

lemma sentinel_Validate_OkD:
  assumes "sentinel_Validate r = (Ok b, r')"
  shows "sentinelError r = None" and "r' = sentinelDefaults r"
  using assms sv.decides sv.second_run(1) by blast+

text \<open>
  C37. \<open>Validate\<close> is idempotent: when it accepts an object it reports a change exactly when
  the object changed, and a second run accepts the result and changes nothing. The
  controller therefore writes the defaulted object back at most once.
\<close>

theorem sentinel_Validate_idempotent:
  assumes "sentinel_Validate r = (Ok b, r')"
  shows "(b \<longleftrightarrow> r' \<noteq> r) \<and> sentinel_Validate r' = (Ok False, r')"
  using sv.second_run [OF assms] by simp

theorem sentinel_Validate_idempotent_witness:
  "\<exists>r'. sentinel_Validate (sentinelNamed ''db'' ''x'') = (Ok True, r') \<and> r' \<noteq> sentinelNamed ''db'' ''x''
      \<and> sentinel_Validate r' = (Ok False, r')"
proof -
  let ?r = "sentinelNamed ''db'' ''x''"
  have "sentinelDefaults ?r \<noteq> ?r"
    by (auto dest!: arg_cong [where f = "\<lambda>r. sn_Size (rs_spec r)"]
        simp: sentinelDefaults_def sentinelNamed_def zeroSentinel_def zeroSentinelSpec_def)
  then have "sentinel_Validate ?r = (Ok True, sentinelDefaults ?r)"
    using sentinel_Validate_ok [of ?r]
    by (simp add: sentinelError_def tooSmall_def sentinelNamed_def zero_defs)
  then show ?thesis using sentinel_Validate_idempotent [of ?r True] by blast
qed

text \<open>
  C35. \<open>Validate\<close> accepts exactly the objects whose name has at most 48 bytes and whose
  two replica counts are each zero (not set) or at least three as signed 32-bit numbers;
  it rejects every other object with an error and never panics.
\<close>

theorem sentinel_Validate_accepts_iff:
  "(if length (rs_name r) \<le> 48
       \<and> (sn_Size (rs_spec r) = 0 \<or> 3 \<le> sint (sn_Size (rs_spec r)))
       \<and> (se_Replicas (rs_sentinel r) = 0 \<or> 3 \<le> sint (se_Replicas (rs_sentinel r)))
    then \<exists>b. fst (sentinel_Validate r) = Ok b
    else \<exists>e. fst (sentinel_Validate r) = Fail e)"
  unfolding sv.outcome by (auto simp: sentinelError_def tooSmall_def)

text \<open>
  C36. An accepted object satisfies what the generators and the healer rely on: at least
  three Redis replicas and three sentinels, non-empty images, sentinel resources set, a
  configuration with the slave priority and the persistence mode that the spec asks for, and
  an exporter image and pull policy when the exporter is enabled; metadata, status, password
  and storage are those of the input.
\<close>

theorem sentinel_Validate_establishes:
  assumes "sentinel_Validate r = (Ok b, r')"
  shows "3 \<le> sint (sn_Size (rs_spec r')) \<and> 3 \<le> sint (se_Replicas (rs_sentinel r'))
     \<and> sn_Image (rs_spec r') \<noteq> [] \<and> se_Image (rs_sentinel r') \<noteq> []
     \<and> ResourceRequirements_Size (se_Resources (rs_sentinel r')) \<noteq> 0
     \<and> indexM (sn_Config (rs_spec r')) ''slave-priority'' = ''1''
     \<and> (sn_DisablePersistence (rs_spec r) \<longrightarrow> lookupM (sn_Config (rs_spec r')) ''appendonly'' = Some ''no''
          \<and> lookupM (sn_Config (rs_spec r')) ''save'' = Some [])
     \<and> (\<not> sn_DisablePersistence (rs_spec r) \<longrightarrow> lookupM (sn_Config (rs_spec r')) ''appendonly'' \<noteq> None
          \<and> lookupM (sn_Config (rs_spec r')) ''save'' \<noteq> None)
     \<and> (ex_Enabled (sn_Exporter (rs_spec r)) \<longrightarrow>
          ex_Image (sn_Exporter (rs_spec r')) \<noteq> [] \<and> ex_ImagePullPolicy (sn_Exporter (rs_spec r')) \<noteq> [])
     \<and> rs_meta r' = rs_meta r \<and> rs_status r' = rs_status r
     \<and> sn_Password (rs_spec r') = sn_Password (rs_spec r) \<and> sn_Storage (rs_spec r') = sn_Storage (rs_spec r)"
proof -
  note ok = sentinel_Validate_OkD [OF assms]
  have persistence: "map_of persistenceDefaults ''appendonly'' \<noteq> None" "map_of persistenceDefaults ''save'' \<noteq> None"
    by (simp_all add: persistenceDefaults_def)
  have "0 < ResourceRequirements_Size defaultSentinelResource"
    by (metis gr0I defaults_nonempty(4))
  then show ?thesis
    using ok(1) persistence unfolding ok(2)
    by (auto simp add: sentinelDefaults_def settingsDefaults_def sentinelError_def tooSmall_def indexM_def
        withPersistence_lookup exporterDefaults_def simp del: ResourceRequirements_Size_0
        split: if_splits option.split)
qed

theorem sentinel_Validate_establishes_witness:
  "3 \<le> sint (sn_Size (rs_spec (sentinelDefaults (sentinelNamed ''db'' ''x'')))) \<and>
   indexM (sn_Config (rs_spec (sentinelDefaults (sentinelNamed ''db'' ''x'')))) ''slave-priority'' = ''1''"
  using sentinel_Validate_establishes [OF sentinel_Validate_ok, of "sentinelNamed ''db'' ''x''"]
  by (simp add: sentinelError_def tooSmall_def sentinelNamed_def zero_defs del: ResourceRequirements_Size_0)

text \<open>
  Configuration entries the user wrote survive: a key other than \<open>slave-priority\<close> keeps
  its value, except that \<open>appendonly\<close> and \<open>save\<close> are overwritten when persistence is
  disabled; and every entry of the result comes from the user, from the slave priority or
  from the persistence defaults.
\<close>

lemma sentinel_Validate_keeps_config:
  assumes "sentinel_Validate r = (Ok b, r')"
    and "k \<noteq> ''slave-priority''"
    and "sn_DisablePersistence (rs_spec r) \<Longrightarrow> k \<noteq> ''appendonly'' \<and> k \<noteq> ''save''"
  shows "lookupM (sn_Config (rs_spec r')) k =
     (case lookupM (sn_Config (rs_spec r)) k of
        Some v \<Rightarrow> Some v
      | None \<Rightarrow> if sn_DisablePersistence (rs_spec r) then None else map_of persistenceDefaults k)"
  using assms(2,3) unfolding sentinel_Validate_OkD(2) [OF assms(1)]
  by (auto simp: sentinelDefaults_def withPersistence_lookup lookupM_def split: option.splits)

text \<open>
  C38. The standalone validator accepts exactly the objects whose name has at most 48 bytes
  and whose size is zero (not set) or one; the accepted object has size one, is accepted
  again unchanged, and keeps every configuration entry of the user unless persistence is
  disabled and the entry is one of the two persistence switches.
\<close>

theorem standalone_Validate_behaviour:
  "(if length (ra_name r) \<le> 48 \<and> sa_Size (ra_spec r) \<in> {0, 1}
    then \<exists>r'. standalone_Validate r = (Ok (r' \<noteq> r), r') \<and> standalone_Validate r' = (Ok False, r')
           \<and> sa_Size (ra_spec r') = 1 \<and> sa_Image (ra_spec r') \<noteq> []
           \<and> (\<forall>k v. lookupM (sa_Config (ra_spec r)) k = Some v
                \<and> \<not> (sa_DisablePersistence (ra_spec r) \<and> k \<in> {''appendonly'', ''save''})
                \<longrightarrow> lookupM (sa_Config (ra_spec r')) k = Some v)
    else \<exists>e. fst (standalone_Validate r) = Fail e)"
proof (cases "standaloneError r")
  case None
  have "standalone_Validate r = (Ok (standaloneDefaults r \<noteq> r), standaloneDefaults r)"
    by (rule standalone_Validate_ok [OF None])
  moreover have "lookupM (sa_Config (ra_spec (standaloneDefaults r))) k = Some v"
    if "lookupM (sa_Config (ra_spec r)) k = Some v"
      "\<not> (sa_DisablePersistence (ra_spec r) \<and> k \<in> {''appendonly'', ''save''})" for k v
    using that by (auto simp: standaloneDefaults_def withPersistence_lookup lookupM_def)
  moreover have "sa_Size (ra_spec (standaloneDefaults r)) = 1" "sa_Image (ra_spec (standaloneDefaults r)) \<noteq> []"
    by (simp_all add: standaloneDefaults_def)
  ultimately show ?thesis
    using None av.second_run(3) [of r]
    by (auto simp: standaloneError_def split: if_splits)
next
  case (Some e)
  then show ?thesis using standalone_Validate_error [OF Some] by (auto simp: standaloneError_def split: if_splits)
qed

theorem standalone_Validate_behaviour_witness:
  "\<exists>r'. standalone_Validate (standaloneNamed ''db'' ''x'') = (Ok (r' \<noteq> standaloneNamed ''db'' ''x''), r')
      \<and> standalone_Validate r' = (Ok False, r') \<and> sa_Size (ra_spec r') = 1"
  using standalone_Validate_behaviour [of "standaloneNamed ''db'' ''x''"]
  by (auto simp: standaloneNamed_def zero_defs)

end
