(* ===== verification/Sentinel_Generator.thy ===== *)
theory Sentinel_Generator
  imports Api_Validate
begin

text \<open>
  \<open>controllers/redissentinel/service/generator.go\<close>: the Kubernetes objects derived from a
  RedisSentinel. Each definition builds the object the Go function returns;
  \<open>generateRedisStatefulSet\<close> also sets the owner references of the volume claim inside the
  custom resource, so it returns that resource as well.
\<close>

subsection \<open>Scripts\<close>

text \<open>
  Shell text is written with stand-ins for the characters a string literal cannot hold:
  a backquote for the double quote, a tilde for the single quote, a caret for the tab and a
  percent sign for the backslash.
\<close>

definition sh :: "string \<Rightarrow> string" where
  "sh s = map (\<lambda>c. if c = CHR 0x60 then CHR 0x22 else if c = CHR ''~'' then CHR 0x27
                   else if c = CHR ''^'' then CHR 0x09 else if c = CHR ''%'' then CHR 0x5C else c) s"

definition shutdownScript :: "string \<Rightarrow> string \<Rightarrow> string" where
  "shutdownScript envSentinelHost envSentinelPort = Join
     [''#!/usr/bin/env sh'',
      sh ''master=``'',
      sh ''response_code=``'',
      sh ''while [ `$master` = `` ]; do'',
      sh ''^echo `Asking sentinel who is master...`'',
      sh ''^master=$(redis-cli -h ${'' @ envSentinelHost @ ''} -p ${'' @ envSentinelPort @
        sh ''} --csv SENTINEL get-master-addr-by-name mymaster | tr ~,~ ~ ~ | tr -d ~%`~ |cut -d~ ~ -f1)'',
      sh ''^sleep 1'',
      ''done'',
      sh ''echo `Master is $master, doing redis save...`'',
      ''redis-cli SAVE'',
      ''if [ $master = $(hostname -i) ]; then'',
      sh ''^while [ ! `$response_code` = `OK` ]; do'',
      sh ''  ^^response_code=$(redis-cli -h ${'' @ envSentinelHost @ ''} -p ${'' @ envSentinelPort @
        ''} SENTINEL failover mymaster)'',
      sh ''^^echo `after failover with code $response_code`'',
      sh ''^^sleep 1'',
      sh ''^done'',
      ''fi''] newline"

definition readinessScript :: string where
  "readinessScript = Join
     [''#!/usr/bin/env sh'',
      ''set -eou pipefail'',
      ''redis-cli -h $(hostname) -p 26379 ping'',
      sh ''slaves=$(redis-cli -h $(hostname) -p 26379 info sentinel|grep master0| grep -Eo ~slaves=[0-9]+~ | awk -F= ~{print $2}~)'',
      sh ''status=$(redis-cli -h $(hostname) -p 26379 info sentinel|grep master0| grep -Eo ~status=%w+~ | awk -F= ~{print $2}~)'',
      sh ''if [ `$status` != `ok` ]; then '',
      ''    exit 1'',
      ''fi'',
      ''if [ $slaves -le 1 ]; then'',
      sh ''^exit 1'',
      ''fi'',
      []] newline"

subsection \<open>Metadata and selectors\<close>

definition generateSelectorLabels :: "string \<Rightarrow> string \<Rightarrow> strmap" where
  "generateSelectorLabels component name = mapLit
     [(''app.kubernetes.io/part-of'', AppLabel), (''app.kubernetes.io/component'', component),
      (''app.kubernetes.io/name'', name)]"

definition objectMeta :: "string \<Rightarrow> string \<Rightarrow> strmap \<Rightarrow> OwnerReference list \<Rightarrow> ObjectMeta" where
  "objectMeta name namespace labels ownerRefs = zeroMeta\<lparr>om_name := name, om_namespace := namespace,
     om_labels := labels, om_ownerReferences := ownerRefs\<rparr>"

definition roleLabels :: "strmap \<Rightarrow> string \<Rightarrow> string \<Rightarrow> strmap" where
  "roleLabels labels component name = MergeLabels [labels, generateSelectorLabels component name]"

subsection \<open>Services\<close>

definition generateSentinelService :: "RedisSentinel \<Rightarrow> strmap \<Rightarrow> OwnerReference list \<Rightarrow> Service" where
  "generateSentinelService rc labels0 ownerRefs =
     (let labels = roleLabels labels0 SentinelRoleName (rs_name rc) in
      \<lparr>svc_meta = objectMeta (GetSentinelName rc) (rs_namespace rc) labels ownerRefs,
       svc_type = [], svc_clusterIP = [], svc_selector = labels,
       svc_ports = [\<lparr>sp_name = ''sentinel'', sp_port = 26379, sp_targetPort = FromInt 26379, sp_protocol = ''TCP''\<rparr>]\<rparr>)"

definition generateRedisService :: "RedisSentinel \<Rightarrow> strmap \<Rightarrow> OwnerReference list \<Rightarrow> Service" where
  "generateRedisService rc labels0 ownerRefs =
     (let labels = roleLabels labels0 RedisRoleName (rs_name rc) in
      \<lparr>svc_meta = objectMeta (sentinel_GetRedisName rc) (rs_namespace rc) labels ownerRefs,
       svc_type = ''ClusterIP'', svc_clusterIP = ''None'', svc_selector = labels,
       svc_ports = [\<lparr>sp_name = ''redis'', sp_port = 6379, sp_targetPort = FromInt 6379, sp_protocol = ''TCP''\<rparr>]\<rparr>)"

definition generateRedisMonitorService :: "RedisSentinel \<Rightarrow> strmap \<Rightarrow> OwnerReference list \<Rightarrow> Service" where
  "generateRedisMonitorService rc labels0 ownerRefs =
     (let labels = roleLabels labels0 RedisRoleName (rs_name rc);
          monitorLabels = MergeLabels [labels, mapLit [(UseLabelKey, MonitorLabelValue)]] in
      \<lparr>svc_meta = objectMeta (sentinel_GetRedisName rc @ ''-monitor'') (rs_namespace rc) monitorLabels ownerRefs,
       svc_type = ''ClusterIP'', svc_clusterIP = [], svc_selector = labels,
       svc_ports = [\<lparr>sp_name = ''prometheus'', sp_port = ExporterPort, sp_targetPort = FromInt ExporterPort,
                     sp_protocol = ''TCP''\<rparr>]\<rparr>)"

definition newHeadLessSvcForCR :: "RedisSentinel \<Rightarrow> strmap \<Rightarrow> OwnerReference list \<Rightarrow> Service" where
  "newHeadLessSvcForCR cluster labels0 ownerRefs =
     (let labels = roleLabels labels0 SentinelRoleName (rs_name cluster) in
      \<lparr>svc_meta = objectMeta (GetSentinelHeadlessSvc cluster) (rs_namespace cluster) labels ownerRefs,
       svc_type = [], svc_clusterIP = ''None'', svc_selector = labels,
       svc_ports = [\<lparr>sp_name = ''sentinel'', sp_port = 26379, sp_targetPort = FromInt 0, sp_protocol = []\<rparr>]\<rparr>)"

subsection \<open>Config maps\<close>

definition generateSentinelConfigMap :: "RedisSentinel \<Rightarrow> strmap \<Rightarrow> OwnerReference list \<Rightarrow> ConfigMap" where
  "generateSentinelConfigMap rc labels0 ownerRefs =
     (let labels = roleLabels labels0 SentinelRoleName (rs_name rc);
          content0 = Join [''sentinel monitor mymaster 127.0.0.1 6379 2'',
                           ''sentinel down-after-milliseconds mymaster 1000'',
                           ''sentinel failover-timeout mymaster 3000'',
                           ''sentinel parallel-syncs mymaster 2''] newline;
          content = (if sn_Password (rs_spec rc) \<noteq> []
                     then content0 @ newline @ ''sentinel auth-pass mymaster '' @ sn_Password (rs_spec rc) @ newline
                     else content0) in
      \<lparr>cm_meta = objectMeta (GetSentinelName rc) (rs_namespace rc) labels ownerRefs,
       cm_data = mapLit [(SentinelConfigFileName, content)]\<rparr>)"

definition generateRedisConfigMap :: "RedisSentinel \<Rightarrow> strmap \<Rightarrow> OwnerReference list \<Rightarrow> ConfigMap" where
  "generateRedisConfigMap rc labels0 ownerRefs =
     (let labels = roleLabels labels0 RedisRoleName (rs_name rc);
          content0 = Join [''slaveof 127.0.0.1 6379'', ''tcp-keepalive 60'', ''save 900 1'', ''save 300 10''] newline;
          content = (if sn_Password (rs_spec rc) \<noteq> []
                     then content0 @ newline @ ''requirepass '' @ sn_Password (rs_spec rc) @ newline
                       @ ''masterauth '' @ sn_Password (rs_spec rc) @ newline
                     else content0) in
      \<lparr>cm_meta = objectMeta (sentinel_GetRedisName rc) (rs_namespace rc) labels ownerRefs,
       cm_data = mapLit [(RedisConfigFileName, content)]\<rparr>)"

definition generateRedisShutdownConfigMap :: "RedisSentinel \<Rightarrow> strmap \<Rightarrow> OwnerReference list \<Rightarrow> ConfigMap" where
  "generateRedisShutdownConfigMap rc labels0 ownerRefs =
     (let labels = roleLabels labels0 RedisRoleName (rs_name rc);
          envSentinelHost = ''REDIS_SENTINEL_'' @ ToUpper (rs_name rc) @ ''_SERVICE_HOST'';
          envSentinelPort = ''REDIS_SENTINEL_'' @ ToUpper (rs_name rc) @ ''_SERVICE_PORT_SENTINEL'' in
      \<lparr>cm_meta = objectMeta (sentinel_GetRedisShutdownConfigMapName rc) (rs_namespace rc) labels ownerRefs,
       cm_data = mapLit [(''shutdown.sh'', shutdownScript envSentinelHost envSentinelPort)]\<rparr>)"

definition generateSentinelReadinessProbeConfigMap ::
  "RedisSentinel \<Rightarrow> strmap \<Rightarrow> OwnerReference list \<Rightarrow> ConfigMap" where
  "generateSentinelReadinessProbeConfigMap rc labels0 ownerRefs =
     (let labels = roleLabels labels0 RedisRoleName (rs_name rc) in
      \<lparr>cm_meta = objectMeta (GetSentinelReadinessCm rc) (rs_namespace rc) labels ownerRefs,
       cm_data = mapLit [(''readiness.sh'', readinessScript)]\<rparr>)"

definition generatePodDisruptionBudget ::
  "string \<Rightarrow> string \<Rightarrow> strmap \<Rightarrow> OwnerReference list \<Rightarrow> IntOrString \<Rightarrow> PodDisruptionBudget" where
  "generatePodDisruptionBudget name namespace labels ownerRefs minAvailable =
     \<lparr>pdb_meta = objectMeta name namespace labels ownerRefs,
      pdb_minAvailable = Some minAvailable, pdb_selector = Some labels\<rparr>"

subsection \<open>Parts of the pod templates\<close>

definition pullPolicy :: "string \<Rightarrow> string" where
  "pullPolicy specPolicy = (if specPolicy = [] then ''Always'' else specPolicy)"

definition getAffinity :: "Affinity option \<Rightarrow> strmap \<Rightarrow> Affinity option" where
  "getAffinity affinity labels =
     (if affinity \<noteq> None then affinity
      else Some \<lparr>af_podAntiAffinity = Some [\<lparr>wt_weight = 100, wt_topologyKey = HostnameTopologyKey,
                   wt_labelSelector = Some labels\<rparr>], af_other = Opaque []\<rparr>)"

definition getSecurityContext :: "Opaque option \<Rightarrow> Opaque option" where
  "getSecurityContext secctx = (if secctx \<noteq> None then secctx else None)"

definition getQuorum :: "RedisSentinel \<Rightarrow> int32" where
  "getQuorum rc = word_of_int (sint (se_Replicas (rs_sentinel rc)) sdiv 2) + 1"

definition getRedisDataVolumeName :: "RedisSentinel \<Rightarrow> string" where
  "getRedisDataVolumeName rc =
     (case st_PersistentVolumeClaim (sn_Storage (rs_spec rc)) of
        Some pvc \<Rightarrow> om_name (pvc_meta pvc)
      | None \<Rightarrow> RedisStorageVolumeName)"

definition getRedisVolumeMounts :: "RedisSentinel \<Rightarrow> VolumeMount list" where
  "getRedisVolumeMounts rc =
     [\<lparr>vm_name = RedisShutdownConfigurationVolumeName, vm_mountPath = ''/redis-shutdown''\<rparr>,
      \<lparr>vm_name = getRedisDataVolumeName rc, vm_mountPath = ''/data''\<rparr>]"

definition getRedisDataVolume :: "RedisSentinel \<Rightarrow> Volume option" where
  "getRedisDataVolume rc =
     (if st_PersistentVolumeClaim (sn_Storage (rs_spec rc)) \<noteq> None then None
      else case st_EmptyDir (sn_Storage (rs_spec rc)) of
        Some d \<Rightarrow> Some \<lparr>vol_name = RedisStorageVolumeName, vol_configMap = None, vol_emptyDir = Some d\<rparr>
      | None \<Rightarrow> Some \<lparr>vol_name = RedisStorageVolumeName, vol_configMap = None, vol_emptyDir = Some zeroEmptyDir\<rparr>)"

definition getRedisVolumes :: "RedisSentinel \<Rightarrow> Volume list" where
  "getRedisVolumes rc =
     (let volumes = [\<lparr>vol_name = RedisShutdownConfigurationVolumeName,
                      vol_configMap = Some \<lparr>cv_name = sentinel_GetRedisShutdownConfigMapName rc,
                                            cv_defaultMode = Some 0x1E4\<rparr>,
                      vol_emptyDir = None\<rparr>] in
      case getRedisDataVolume rc of None \<Rightarrow> volumes | Some v \<Rightarrow> volumes @ [v])"

definition getRedisCommand :: "RedisSentinel \<Rightarrow> string list" where
  "getRedisCommand rc =
     (if sn_Command (rs_spec rc) \<noteq> [] then sn_Command (rs_spec rc)
      else [''redis-server'', ''--slaveof 127.0.0.1 6379'', ''--tcp-keepalive 60'', ''--save 900 1'', ''--save 300 10'']
        @ (if sn_Password (rs_spec rc) \<noteq> []
           then [sh ''--requirepass ~'' @ sn_Password (rs_spec rc) @ sh ''~'',
                 sh ''--masterauth ~'' @ sn_Password (rs_spec rc) @ sh ''~'']
           else []))"

definition getSentinelCommand :: "RedisSentinel \<Rightarrow> string list" where
  "getSentinelCommand rc =
     (if se_Command (rs_sentinel rc) \<noteq> [] then se_Command (rs_sentinel rc)
      else [''redis-server'', ''/redis/'' @ SentinelConfigFileName, ''--sentinel''])"

definition zeroProbe :: Probe where
  "zeroProbe = \<lparr>pr_initialDelaySeconds = 0, pr_timeoutSeconds = 0, pr_periodSeconds = 0,
     pr_failureThreshold = 0, pr_exec = []\<rparr>"

definition zeroContainer :: Container where
  "zeroContainer = \<lparr>ct_name = [], ct_image = [], ct_imagePullPolicy = [], ct_env = [], ct_ports = [],
     ct_volumeMounts = [], ct_command = [], ct_readinessProbe = None, ct_livenessProbe = None,
     ct_resources = zeroResources, ct_preStop = None\<rparr>"

definition createRedisExporterContainer :: "RedisSentinel \<Rightarrow> Container" where
  "createRedisExporterContainer rc =
     (let container = zeroContainer\<lparr>
            ct_name := ExporterContainerName,
            ct_image := ex_Image (sn_Exporter (rs_spec rc)),
            ct_imagePullPolicy := pullPolicy (ex_ImagePullPolicy (sn_Exporter (rs_spec rc))),
            ct_env := [\<lparr>ev_name = ''REDIS_ALIAS'', ev_value = [], ev_fieldPath = Some ''metadata.name''\<rparr>],
            ct_ports := [\<lparr>cp_name = ExporterPortName, cp_containerPort = ExporterPort, cp_protocol = ''TCP''\<rparr>],
            ct_resources := exporterResources\<rparr> in
      if sn_Password (rs_spec rc) \<noteq> []
      then container\<lparr>ct_env := ct_env container @
             [\<lparr>ev_name = RedisPasswordEnv, ev_value = sn_Password (rs_spec rc), ev_fieldPath = None\<rparr>]\<rparr>
      else container)"

subsection \<open>Workloads\<close>

definition shellProbe :: "string list \<Rightarrow> Probe" where
  "shellProbe cmd = zeroProbe\<lparr>pr_initialDelaySeconds := GraceTime, pr_timeoutSeconds := 5, pr_exec := cmd\<rparr>"

definition redisContainer :: "RedisSentinel \<Rightarrow> Container" where
  "redisContainer rc =
     (let probeArg = (if sn_Password (rs_spec rc) \<noteq> []
                      then ''redis-cli -h $(hostname)'' @ sh '' -a ~'' @ sn_Password (rs_spec rc) @ sh ''~ ping''
                      else ''redis-cli -h $(hostname)'' @ '' ping'') in
      zeroContainer\<lparr>
        ct_name := ''redis'',
        ct_image := sn_Image (rs_spec rc),
        ct_imagePullPolicy := pullPolicy (sn_ImagePullPolicy (rs_spec rc)),
        ct_ports := [\<lparr>cp_name = ''redis'', cp_containerPort = 6379, cp_protocol = ''TCP''\<rparr>],
        ct_volumeMounts := getRedisVolumeMounts rc,
        ct_command := getRedisCommand rc,
        ct_readinessProbe := Some (shellProbe [''sh'', ''-c'', probeArg]),
        ct_livenessProbe := Some (shellProbe [''sh'', ''-c'', probeArg]),
        ct_resources := sn_Resources (rs_spec rc),
        ct_preStop := Some [''/bin/sh'', ''/redis-shutdown/shutdown.sh'']\<rparr>)"

definition generateRedisStatefulSet ::
  "RedisSentinel \<Rightarrow> strmap \<Rightarrow> OwnerReference list \<Rightarrow> StatefulSet \<times> RedisSentinel" where
  "generateRedisStatefulSet rc labels0 ownerRefs =
     (let name = sentinel_GetRedisName rc;
          labels = roleLabels labels0 RedisRoleName (rs_name rc);
          rc' = (if \<not> st_KeepAfterDeletion (sn_Storage (rs_spec rc))
                 then upd_rs_spec (sn_Storage_update (st_PersistentVolumeClaim_update
                        (map_option (pvc_meta_update (om_ownerReferences_update (\<lambda>_. ownerRefs)))))) rc
                 else rc) in
      (\<lparr>ss_meta = objectMeta name (rs_namespace rc) labels ownerRefs,
        ss_serviceName = name,
        ss_replicas = Some (sn_Size (rs_spec rc)),
        ss_updateStrategy = ''RollingUpdate'',
        ss_selector = Some labels,
        ss_template = \<lparr>pt_labels = labels, pt_annotations = sn_Annotations (rs_spec rc),
          pt_spec = \<lparr>ps_affinity = getAffinity (sn_Affinity (rs_spec rc)) labels,
            ps_tolerations = sn_ToleRations (rs_spec rc),
            ps_nodeSelector = sn_NodeSelector (rs_spec rc),
            ps_securityContext = getSecurityContext (sn_SecurityContext (rs_spec rc)),
            ps_imagePullSecrets = sn_ImagePullSecrets (rs_spec rc),
            ps_initContainers = [],
            ps_containers = redisContainer rc #
              (if ex_Enabled (sn_Exporter (rs_spec rc)) then [createRedisExporterContainer rc] else []),
            ps_volumes = getRedisVolumes rc\<rparr>\<rparr>,
        ss_volumeClaimTemplates =
          (case st_PersistentVolumeClaim (sn_Storage (rs_spec rc')) of None \<Rightarrow> [] | Some pvc \<Rightarrow> [pvc]),
        ss_readyReplicas = 0\<rparr>, rc'))"

definition sentinelInitContainer :: "RedisSentinel \<Rightarrow> Container" where
  "sentinelInitContainer rc = zeroContainer\<lparr>
     ct_name := ''sentinel-config-copy'',
     ct_image := se_Image (rs_sentinel rc),
     ct_imagePullPolicy := pullPolicy (se_ImagePullPolicy (rs_sentinel rc)),
     ct_volumeMounts := [\<lparr>vm_name = ''sentinel-config'', vm_mountPath = ''/redis''\<rparr>,
                         \<lparr>vm_name = ''sentinel-config-writable'', vm_mountPath = ''/redis-writable''\<rparr>],
     ct_command := [''cp'', ''/redis/'' @ SentinelConfigFileName, ''/redis-writable/'' @ SentinelConfigFileName],
     ct_resources := \<lparr>rr_limits = mapLit [(''cpu'', milli ''10m'' 10), (''memory'', mebi ''32Mi'' 32)],
                      rr_requests = mapLit [(''cpu'', milli ''10m'' 10), (''memory'', mebi ''32Mi'' 32)]\<rparr>\<rparr>"

definition sentinelContainer :: "RedisSentinel \<Rightarrow> Container" where
  "sentinelContainer rc = zeroContainer\<lparr>
     ct_name := ''sentinel'',
     ct_image := se_Image (rs_sentinel rc),
     ct_imagePullPolicy := pullPolicy (se_ImagePullPolicy (rs_sentinel rc)),
     ct_ports := [\<lparr>cp_name = ''sentinel'', cp_containerPort = 26379, cp_protocol = ''TCP''\<rparr>],
     ct_volumeMounts := [\<lparr>vm_name = ''readiness-probe'', vm_mountPath = ''/redis-probe''\<rparr>,
                         \<lparr>vm_name = ''sentinel-config-writable'', vm_mountPath = ''/redis''\<rparr>],
     ct_command := getSentinelCommand rc,
     ct_readinessProbe := Some ((shellProbe [''sh'', ''/redis-probe/readiness.sh''])
        \<lparr>pr_periodSeconds := 15, pr_failureThreshold := 5\<rparr>),
     ct_livenessProbe := Some (shellProbe [''sh'', ''-c'', ''redis-cli -h $(hostname) -p 26379 ping'']),
     ct_resources := se_Resources (rs_sentinel rc)\<rparr>"

definition generateSentinelStatefulSet :: "RedisSentinel \<Rightarrow> strmap \<Rightarrow> OwnerReference list \<Rightarrow> StatefulSet" where
  "generateSentinelStatefulSet rc labels0 ownerRefs =
     (let labels = roleLabels labels0 SentinelRoleName (rs_name rc) in
      \<lparr>ss_meta = objectMeta (GetSentinelName rc) (rs_namespace rc) labels ownerRefs,
       ss_serviceName = GetSentinelHeadlessSvc rc,
       ss_replicas = Some (se_Replicas (rs_sentinel rc)),
       ss_updateStrategy = [],
       ss_selector = Some labels,
       ss_template = \<lparr>pt_labels = labels, pt_annotations = se_Annotations (rs_sentinel rc),
         pt_spec = \<lparr>ps_affinity = getAffinity (se_Affinity (rs_sentinel rc)) labels,
           ps_tolerations = se_ToleRations (rs_sentinel rc),
           ps_nodeSelector = se_NodeSelector (rs_sentinel rc),
           ps_securityContext = getSecurityContext (se_SecurityContext (rs_sentinel rc)),
           ps_imagePullSecrets = se_ImagePullSecrets (rs_sentinel rc),
           ps_initContainers = [sentinelInitContainer rc],
           ps_containers = [sentinelContainer rc],
           ps_volumes =
             [\<lparr>vol_name = ''sentinel-config'',
               vol_configMap = Some \<lparr>cv_name = GetSentinelName rc, cv_defaultMode = None\<rparr>, vol_emptyDir = None\<rparr>,
              \<lparr>vol_name = ''readiness-probe'',
               vol_configMap = Some \<lparr>cv_name = GetSentinelReadinessCm rc, cv_defaultMode = None\<rparr>, vol_emptyDir = None\<rparr>,
              \<lparr>vol_name = ''sentinel-config-writable'',
               vol_configMap = None, vol_emptyDir = Some zeroEmptyDir\<rparr>]\<rparr>\<rparr>,
       ss_volumeClaimTemplates = [],
       ss_readyReplicas = 0\<rparr>)"

subsection \<open>Selectors\<close>

text \<open>A label selector of required pairs selects the label sets that contain them.\<close>

definition selects :: "strmap \<Rightarrow> strmap \<Rightarrow> bool" where
  "selects sel ls \<longleftrightarrow> (\<forall>k v. lookupM sel k = Some v \<longrightarrow> lookupM ls k = Some v)"

lemma selects_refl [simp]: "selects ls ls"
  by (simp add: selects_def)

lemma roleLabels_lookup [simp]:
  "lookupM (roleLabels labels component name) ''app.kubernetes.io/component'' = Some component"
  "lookupM (roleLabels labels component name) ''app.kubernetes.io/name'' = Some name"
  "lookupM (roleLabels labels component name) ''app.kubernetes.io/part-of'' = Some ''redis-cluster''"
  by (simp_all add: roleLabels_def generateSelectorLabels_def AppLabel_def)

lemma selects_roleLabelsD:
  assumes "selects (roleLabels labels component name) ls"
  shows "lookupM ls ''app.kubernetes.io/component'' = Some component"
    and "lookupM ls ''app.kubernetes.io/name'' = Some name"
  using assms roleLabels_lookup unfolding selects_def by blast+

lemmas generator_defs = generateSentinelService_def generateRedisService_def generateRedisMonitorService_def
  newHeadLessSvcForCR_def generateRedisStatefulSet_def generateSentinelStatefulSet_def objectMeta_def Let_def

lemma generateRedisStatefulSet_proj [simp]:
  "ss_selector (fst (generateRedisStatefulSet rc labels refs)) = Some (roleLabels labels RedisRoleName (rs_name rc))"
  "pt_labels (ss_template (fst (generateRedisStatefulSet rc labels refs))) = roleLabels labels RedisRoleName (rs_name rc)"
  "ss_replicas (fst (generateRedisStatefulSet rc labels refs)) = Some (sn_Size (rs_spec rc))"
  "om_name (ss_meta (fst (generateRedisStatefulSet rc labels refs))) = sentinel_GetRedisName rc"
  "om_namespace (ss_meta (fst (generateRedisStatefulSet rc labels refs))) = rs_namespace rc"
  "ps_containers (pt_spec (ss_template (fst (generateRedisStatefulSet rc labels refs)))) = redisContainer rc #
     (if ex_Enabled (sn_Exporter (rs_spec rc)) then [createRedisExporterContainer rc] else [])"
  by (simp_all add: generateRedisStatefulSet_def objectMeta_def Let_def)

lemma generateSentinelStatefulSet_proj [simp]:
  "ss_selector (generateSentinelStatefulSet rc labels refs) = Some (roleLabels labels SentinelRoleName (rs_name rc))"
  "pt_labels (ss_template (generateSentinelStatefulSet rc labels refs)) = roleLabels labels SentinelRoleName (rs_name rc)"
  "ss_replicas (generateSentinelStatefulSet rc labels refs) = Some (se_Replicas (rs_sentinel rc))"
  "om_name (ss_meta (generateSentinelStatefulSet rc labels refs)) = GetSentinelName rc"
  "om_namespace (ss_meta (generateSentinelStatefulSet rc labels refs)) = rs_namespace rc"
  "ps_containers (pt_spec (ss_template (generateSentinelStatefulSet rc labels refs))) = [sentinelContainer rc]"
  by (simp_all add: generateSentinelStatefulSet_def objectMeta_def Let_def)



subsection \<open>Wiring\<close>

definition mountsDeclared :: "StatefulSet \<Rightarrow> bool" where
  "mountsDeclared ss \<longleftrightarrow>
     (\<forall>c \<in> set (ps_initContainers (pt_spec (ss_template ss)) @ ps_containers (pt_spec (ss_template ss))).
      \<forall>m \<in> set (ct_volumeMounts c).
        vm_name m \<in> vol_name ` set (ps_volumes (pt_spec (ss_template ss)))
          \<union> (\<lambda>c. om_name (pvc_meta c)) ` set (ss_volumeClaimTemplates ss))"

text \<open>
  C29. The generated objects of one cluster fit together: each workload selects exactly the
  labels its pods carry, the services that front it select the same labels, the workload is
  governed by a headless service of the same namespace, every volume a container mounts is
  declared by the pod or claimed, and the config maps it mounts are those that are generated,
  with the file the init container copies.
\<close>

theorem generated_objects_wired:
  "let ss = fst (generateRedisStatefulSet rc labels refs); sn = generateSentinelStatefulSet rc labels refs;
       cm = generateSentinelConfigMap rc labels refs in
   ss_selector ss = Some (pt_labels (ss_template ss)) \<and> ss_selector sn = Some (pt_labels (ss_template sn)) \<and>
   svc_selector (generateRedisService rc labels refs) = pt_labels (ss_template ss) \<and>
   svc_selector (generateRedisMonitorService rc labels refs) = pt_labels (ss_template ss) \<and>
   svc_selector (generateSentinelService rc labels refs) = pt_labels (ss_template sn) \<and>
   svc_selector (newHeadLessSvcForCR rc labels refs) = pt_labels (ss_template sn) \<and>
   ss_serviceName ss = om_name (svc_meta (generateRedisService rc labels refs)) \<and>
   svc_clusterIP (generateRedisService rc labels refs) = ''None'' \<and>
   ss_serviceName sn = om_name (svc_meta (newHeadLessSvcForCR rc labels refs)) \<and>
   svc_clusterIP (newHeadLessSvcForCR rc labels refs) = ''None'' \<and>
   mountsDeclared ss \<and> mountsDeclared sn \<and>
   (\<exists>v \<in> set (ps_volumes (pt_spec (ss_template sn))).
      vol_configMap v = Some \<lparr>cv_name = om_name (cm_meta cm), cv_defaultMode = None\<rparr>) \<and>
   lookupM (cm_data cm) SentinelConfigFileName \<noteq> None \<and>
   (sn_ShutdownConfigMap (rs_spec rc) = [] \<longrightarrow>
      (\<exists>v \<in> set (ps_volumes (pt_spec (ss_template ss))). \<exists>c. vol_configMap v = Some c
         \<and> cv_name c = om_name (cm_meta (generateRedisShutdownConfigMap rc labels refs))))"
  by (auto simp: generator_defs mountsDeclared_def redisContainer_def zeroContainer_def getRedisVolumeMounts_def
      getRedisVolumes_def getRedisDataVolume_def getRedisDataVolumeName_def createRedisExporterContainer_def
      sentinelInitContainer_def sentinelContainer_def generateSentinelConfigMap_def
      generateRedisShutdownConfigMap_def split: option.splits)

theorem generated_objects_wired_witness:
  "mountsDeclared (fst (generateRedisStatefulSet (sentinelNamed ''db'' ''x'') None []))"
  using generated_objects_wired [of "sentinelNamed ''db'' ''x''" None "[]"] by (simp add: Let_def)

lemma getQuorum_value:
  assumes "0 \<le> sint (se_Replicas (rs_sentinel rc))"
  shows "sint (getQuorum rc) = sint (se_Replicas (rs_sentinel rc)) div 2 + 1"
proof -
  let ?n = "sint (se_Replicas (rs_sentinel rc))"
  have bound: "?n < 2 ^ 31" using sint_lt [of "se_Replicas (rs_sentinel rc)"] by simp
  have "?n sdiv 2 = ?n div 2" using assms by (cases "?n = 0") (simp_all add: signed_divide_int_def)
  then have "getQuorum rc = word_of_int (?n div 2 + 1)" by (simp add: getQuorum_def)
  then show ?thesis using assms bound by (simp only:) (rule sint_int32, auto)
qed

text \<open>
  C31. The quorum handed to Sentinel is a strict majority of the sentinels and no more than all
  of them, for every number of sentinels that passes validation, up to the largest 32-bit
  integer; the addition does not overflow.
\<close>

theorem getQuorum_majority:
  assumes "3 \<le> sint (se_Replicas (rs_sentinel rc))"
  shows "sint (se_Replicas (rs_sentinel rc)) < 2 * sint (getQuorum rc) \<and>
     sint (getQuorum rc) \<le> sint (se_Replicas (rs_sentinel rc)) \<and>
     2 * (sint (getQuorum rc) - 1) \<le> sint (se_Replicas (rs_sentinel rc))"
proof -
  have "n < 2 * (n div 2 + 1) \<and> n div 2 + 1 \<le> n \<and> 2 * (n div 2 + 1 - 1) \<le> n" if "3 \<le> n" for n :: int
    using that by presburger
  with assms show ?thesis using getQuorum_value [of rc] by simp
qed

theorem getQuorum_majority_witness:
  "(3 :: int) < 2 * sint (getQuorum (sentinelDefaults (sentinelNamed ''db'' ''x''))) \<and>
   sint (getQuorum (sentinelDefaults (sentinelNamed ''db'' ''x''))) \<le> 3"
  using getQuorum_majority [of "sentinelDefaults (sentinelNamed ''db'' ''x'')"]
  by (simp add: sentinelDefaults_def settingsDefaults_def sentinelNamed_def zero_defs)

end
