(* ===== verification/Api_Status.thy ===== *)
theory Api_Status
  imports Api_Types
begin

text \<open>
  Conditions of the status subresource: \<open>redissentinel_status.go\<close> and
  \<open>redisstandalone_status.go\<close>. The two files define the same operations on two status types;
  the locale \<open>condition_holder\<close> states what both promise about their list of conditions and
  is interpreted for each. The clock readings an operation makes (\<open>time.Now().Format\<close> and
  \<open>metav1.Now()\<close>) are its arguments \<open>nowString\<close> and \<open>nowAt\<close>.
\<close>

subsection \<open>Conditions\<close>

definition ConditionTrue :: string where "ConditionTrue = ''True''"

definition newClusterCondition ::
  "string \<Rightarrow> Time \<Rightarrow> ConditionType \<Rightarrow> string \<Rightarrow> string \<Rightarrow> string \<Rightarrow> Condition" where
  "newClusterCondition nowString nowAt condType status reason message =
     \<lparr>c_Type = condType, c_Status = status, c_LastUpdateTime = nowString, c_LastUpdateAt = nowAt,
      c_LastTransitionTime = nowString, c_Reason = reason, c_Message = message\<rparr>"

text \<open>The position and the condition found; \<open>None\<close> stands for the result \<open>-1, nil\<close>.\<close>

fun findCondition :: "ConditionType \<Rightarrow> Condition list \<Rightarrow> (nat \<times> Condition) option" where
  "findCondition t [] = None"
| "findCondition t (c # cs) =
     (if t = c_Type c then Some (0, c) else map_option (apfst Suc) (findCondition t cs))"

definition getClusterCondition :: "RedisSentinelStatus \<Rightarrow> ConditionType \<Rightarrow> (nat \<times> Condition) option" where
  "getClusterCondition status t = findCondition t (sns_Conditions status)"

definition setClusterCondition ::
  "string \<Rightarrow> Time \<Rightarrow> Condition \<Rightarrow> RedisSentinelStatus \<Rightarrow> RedisSentinelStatus" where
  "setClusterCondition nowString nowAt c cs =
     (case getClusterCondition cs (c_Type c) of
        Some (pos, cp) \<Rightarrow>
          if c_Status cp = c_Status c \<and> c_Reason cp = c_Reason c \<and> c_Message cp = c_Message c
          then cs\<lparr>sns_Conditions := (sns_Conditions cs)[pos :=
                 cp\<lparr>c_LastUpdateAt := nowAt, c_LastUpdateTime := nowString\<rparr>]\<rparr>
          else cs\<lparr>sns_Conditions := (sns_Conditions cs)[pos := c]\<rparr>
      | None \<Rightarrow> cs\<lparr>sns_Conditions := sns_Conditions cs @ [c]\<rparr>)"

definition ClearCondition :: "ConditionType \<Rightarrow> RedisSentinelStatus \<Rightarrow> RedisSentinelStatus" where
  "ClearCondition t cs =
     (case getClusterCondition cs t of
        None \<Rightarrow> cs
      | Some (pos, _) \<Rightarrow>
          cs\<lparr>sns_Conditions := take pos (sns_Conditions cs) @ drop (pos + 1) (sns_Conditions cs)\<rparr>)"

definition DescConditionsByTime ::
  "((Condition \<Rightarrow> Condition \<Rightarrow> bool) \<Rightarrow> Condition list \<Rightarrow> Condition list)
     \<Rightarrow> RedisSentinelStatus \<Rightarrow> RedisSentinelStatus" where
  "DescConditionsByTime sortSlice cs =
     cs\<lparr>sns_Conditions := sortSlice (\<lambda>a b. c_LastUpdateAt a > c_LastUpdateAt b) (sns_Conditions cs)\<rparr>"

definition getStandaloneCondition :: "RedisStandaloneStatus \<Rightarrow> ConditionType \<Rightarrow> (nat \<times> Condition) option" where
  "getStandaloneCondition status t = findCondition t (sas_Conditions status)"

definition standalone_setClusterCondition ::
  "string \<Rightarrow> Time \<Rightarrow> Condition \<Rightarrow> RedisStandaloneStatus \<Rightarrow> RedisStandaloneStatus" where
  "standalone_setClusterCondition nowString nowAt c cs =
     (case getStandaloneCondition cs (c_Type c) of
        Some (pos, cp) \<Rightarrow>
          if c_Status cp = c_Status c \<and> c_Reason cp = c_Reason c \<and> c_Message cp = c_Message c
          then cs\<lparr>sas_Conditions := (sas_Conditions cs)[pos :=
                 cp\<lparr>c_LastUpdateAt := nowAt, c_LastUpdateTime := nowString\<rparr>]\<rparr>
          else cs\<lparr>sas_Conditions := (sas_Conditions cs)[pos := c]\<rparr>
      | None \<Rightarrow> cs\<lparr>sas_Conditions := sas_Conditions cs @ [c]\<rparr>)"

definition standalone_ClearCondition :: "ConditionType \<Rightarrow> RedisStandaloneStatus \<Rightarrow> RedisStandaloneStatus" where
  "standalone_ClearCondition t cs =
     (case getStandaloneCondition cs t of
        None \<Rightarrow> cs
      | Some (pos, _) \<Rightarrow>
          cs\<lparr>sas_Conditions := take pos (sas_Conditions cs) @ drop (pos + 1) (sas_Conditions cs)\<rparr>)"

definition standalone_DescConditionsByTime ::
  "((Condition \<Rightarrow> Condition \<Rightarrow> bool) \<Rightarrow> Condition list \<Rightarrow> Condition list)
     \<Rightarrow> RedisStandaloneStatus \<Rightarrow> RedisStandaloneStatus" where
  "standalone_DescConditionsByTime sortSlice cs =
     cs\<lparr>sas_Conditions := sortSlice (\<lambda>a b. c_LastUpdateAt a > c_LastUpdateAt b) (sas_Conditions cs)\<rparr>"

subsection \<open>The condition each setter builds\<close>

text \<open>
  \<open>SetXCondition(message)\<close> is \<open>setClusterCondition(newClusterCondition(type, True, reason,
  message))\<close>; the pair of type and reason is what distinguishes the seven setters.
\<close>

datatype ConditionSetter =
    SetScalingUpCondition | SetCreateCondition | SetScalingDownCondition | SetUpgradingCondition
  | SetUpdatingCondition | SetReadyCondition | SetFailedCondition

fun setterTypeReason :: "ConditionSetter \<Rightarrow> ConditionType \<times> string" where
  "setterTypeReason SetScalingUpCondition = (ClusterConditionScaling, ''Scaling up'')"
| "setterTypeReason SetCreateCondition = (ClusterConditionCreating, ''Creating'')"
| "setterTypeReason SetScalingDownCondition = (ClusterConditionScaling, ''Scaling down'')"
| "setterTypeReason SetUpgradingCondition = (ClusterConditionUpgrading, ''Cluster upgrading'')"
| "setterTypeReason SetUpdatingCondition = (ClusterConditionUpdating, ''Cluster updating'')"
| "setterTypeReason SetReadyCondition = (ClusterConditionHealthy, ''Cluster available'')"
| "setterTypeReason SetFailedCondition = (ClusterConditionFailed, ''Cluster failed'')"

definition setterCondition :: "string \<Rightarrow> Time \<Rightarrow> ConditionSetter \<Rightarrow> string \<Rightarrow> Condition" where
  "setterCondition nowString nowAt k message =
     (let (t, r) = setterTypeReason k in newClusterCondition nowString nowAt t ConditionTrue r message)"

subsection \<open>Finding\<close>

lemma findCondition_None [simp]: "findCondition t cs = None \<longleftrightarrow> t \<notin> c_Type ` set cs"
  by (induction cs) auto

lemma findCondition_Some:
  "findCondition t cs = Some (i, c) \<Longrightarrow>
     i < length cs \<and> cs ! i = c \<and> c_Type c = t \<and> t \<notin> c_Type ` set (take i cs)"
proof (induction cs arbitrary: i)
  case (Cons d cs)
  show ?case
  proof (cases "t = c_Type d")
    case True
    with Cons.prems show ?thesis by auto
  next
    case False
    with Cons.prems obtain j where "findCondition t cs = Some (j, c)" "i = Suc j" by auto
    with Cons.IH [of j] False show ?thesis by auto
  qed
qed simp

lemma findCondition_unique:
  assumes "distinct (map c_Type cs)" and "c \<in> set cs"
  shows "\<exists>i. findCondition (c_Type c) cs = Some (i, c)"
  using assms by (induction cs) (auto simp: image_iff)

subsection \<open>What both status types promise\<close>

definition refreshes :: "Condition \<Rightarrow> Condition \<Rightarrow> bool" where
  "refreshes old c \<longleftrightarrow> c_Status old = c_Status c \<and> c_Reason old = c_Reason c \<and> c_Message old = c_Message c"

locale condition_holder =
  fixes conds :: "'st \<Rightarrow> Condition list"
    and setCond :: "string \<Rightarrow> Time \<Rightarrow> Condition \<Rightarrow> 'st \<Rightarrow> 'st"
    and clearCond :: "ConditionType \<Rightarrow> 'st \<Rightarrow> 'st"
    and sortCond :: "((Condition \<Rightarrow> Condition \<Rightarrow> bool) \<Rightarrow> Condition list \<Rightarrow> Condition list) \<Rightarrow> 'st \<Rightarrow> 'st"
  assumes set_new: "findCondition (c_Type c) (conds st) = None \<Longrightarrow>
       conds (setCond s t c st) = conds st @ [c]"
    and set_refresh: "findCondition (c_Type c) (conds st) = Some (i, d) \<Longrightarrow> refreshes d c \<Longrightarrow>
       conds (setCond s t c st) = (conds st)[i := d\<lparr>c_LastUpdateAt := t, c_LastUpdateTime := s\<rparr>]"
    and set_replace: "findCondition (c_Type c) (conds st) = Some (i, d) \<Longrightarrow> \<not> refreshes d c \<Longrightarrow>
       conds (setCond s t c st) = (conds st)[i := c]"
    and clear_absent: "findCondition ct (conds st) = None \<Longrightarrow> conds (clearCond ct st) = conds st"
    and clear_present: "findCondition ct (conds st) = Some (i, d) \<Longrightarrow>
       conds (clearCond ct st) = take i (conds st) @ drop (i + 1) (conds st)"
    and sort_conds: "conds (sortCond srt st) = srt (\<lambda>a b. c_LastUpdateAt a > c_LastUpdateAt b) (conds st)"
begin

definition unique_types :: "'st \<Rightarrow> bool" where
  "unique_types st \<longleftrightarrow> distinct (map c_Type (conds st))"

lemma types_after_set:
  "map c_Type (conds (setCond s t c st)) =
     (if findCondition (c_Type c) (conds st) = None then map c_Type (conds st) @ [c_Type c]
      else map c_Type (conds st))"
proof (cases "findCondition (c_Type c) (conds st)")
  case None
  then show ?thesis using set_new [OF None] by simp
next
  case (Some p)
  obtain i d where p: "findCondition (c_Type c) (conds st) = Some (i, d)"
    using Some by (cases p) auto
  note found = findCondition_Some [OF p]
  have upd: "map c_Type ((conds st)[i := e]) = map c_Type (conds st)" if "c_Type e = c_Type c" for e
    using found that by (metis list_update_id map_update)
  show ?thesis
    using found set_refresh [OF p] set_replace [OF p] p
    by (cases "refreshes d c") (simp_all add: upd)
qed

lemma set_unique: "unique_types st \<Longrightarrow> unique_types (setCond s t c st)"
  by (auto simp: unique_types_def types_after_set)

lemma set_present:
  "\<exists>d \<in> set (conds (setCond s t c st)). c_Type d = c_Type c \<and> refreshes d c \<and>
      (c_LastUpdateAt d = t \<or> d = c)"
proof (cases "findCondition (c_Type c) (conds st)")
  case None
  then show ?thesis using set_new [OF None] by (auto simp: refreshes_def)
next
  case (Some p)
  obtain i d where p: "findCondition (c_Type c) (conds st) = Some (i, d)"
    using Some by (cases p) auto
  show ?thesis
  proof (cases "refreshes d c")
    case True
    then have "d\<lparr>c_LastUpdateAt := t, c_LastUpdateTime := s\<rparr> \<in> set (conds (setCond s t c st))"
      using findCondition_Some [OF p] set_refresh [OF p] by (auto intro: set_update_memI)
    then show ?thesis
      by (rule rev_bexI) (use True findCondition_Some [OF p] in \<open>auto simp: refreshes_def\<close>)
  next
    case False
    then have "c \<in> set (conds (setCond s t c st))"
      using findCondition_Some [OF p] set_replace [OF p] by (auto intro: set_update_memI)
    then show ?thesis by (rule rev_bexI) (auto simp: refreshes_def)
  qed
qed

lemma set_others:
  assumes "unique_types st" and "c_Type d \<noteq> c_Type c"
  shows "d \<in> set (conds (setCond s t c st)) \<longleftrightarrow> d \<in> set (conds st)"
proof (cases "findCondition (c_Type c) (conds st)")
  case None
  then show ?thesis using set_new [OF None] assms by auto
next
  case (Some p)
  obtain i e where p: "findCondition (c_Type c) (conds st) = Some (i, e)"
    using Some by (cases p) auto
  note found = findCondition_Some [OF p]
  have upd: "d \<in> set ((conds st)[i := x]) \<longleftrightarrow> d \<in> set (conds st)" if "c_Type x = c_Type c" for x
    using assms(2) found that
    by (metis in_set_conv_nth length_list_update nth_list_update_eq nth_list_update_neq)
  show ?thesis
    using found set_refresh [OF p] set_replace [OF p]
    by (cases "refreshes e c") (simp_all add: upd)
qed

lemma clear_removes:
  assumes "unique_types st"
  shows "set (conds (clearCond ct st)) = {d \<in> set (conds st). c_Type d \<noteq> ct}"
    and "unique_types (clearCond ct st)"
proof -
  have "set (conds (clearCond ct st)) = {d \<in> set (conds st). c_Type d \<noteq> ct}
      \<and> unique_types (clearCond ct st)"
  proof (cases "findCondition ct (conds st)")
    case None
    then show ?thesis using clear_absent [OF None] assms by (auto simp: unique_types_def)
  next
    case (Some p)
    obtain i d where p: "findCondition ct (conds st) = Some (i, d)"
      using Some by (cases p) auto
    note found = findCondition_Some [OF p]
    have split: "conds st = take i (conds st) @ d # drop (i + 1) (conds st)"
      using found id_take_nth_drop [of i "conds st"] by simp
    have dist: "distinct (map c_Type (take i (conds st) @ d # drop (i + 1) (conds st)))"
      using assms split by (simp add: unique_types_def)
    have "set (conds st) = set (take i (conds st)) \<union> {d} \<union> set (drop (i + 1) (conds st))"
      by (subst split) simp
    then show ?thesis
      using clear_present [OF p] found dist by (auto simp: unique_types_def image_iff)
  qed
  then show "set (conds (clearCond ct st)) = {d \<in> set (conds st). c_Type d \<noteq> ct}"
    and "unique_types (clearCond ct st)" by auto
qed

lemma sort_perm:
  assumes "go_sort srt"
  shows "mset (conds (sortCond srt st)) = mset (conds st)"
    and "sorted_wrt (\<ge>) (map c_LastUpdateAt (conds (sortCond srt st)))"
proof -
  have key: "(c_LastUpdateAt a > c_LastUpdateAt b) = (- c_LastUpdateAt a < - c_LastUpdateAt b)" for a b
    by simp
  note sortD = go_sortD [OF assms, where key = "\<lambda>a. - c_LastUpdateAt a", OF key, of "conds st"]
  show "mset (conds (sortCond srt st)) = mset (conds st)"
    using sortD(1) by (simp add: sort_conds)
  show "sorted_wrt (\<ge>) (map c_LastUpdateAt (conds (sortCond srt st)))"
    using sortD(2) by (simp add: sort_conds sorted_wrt_map)
qed

lemma sort_head:
  assumes "go_sort srt" and "d \<in> set (conds st)"
    and "\<And>e. e \<in> set (conds st) \<Longrightarrow> e \<noteq> d \<Longrightarrow> c_LastUpdateAt e < c_LastUpdateAt d"
  shows "\<exists>cs. conds (sortCond srt st) = d # cs"
proof -
  have set: "set (conds (sortCond srt st)) = set (conds st)"
    using sort_perm(1) [OF assms(1)] by (rule mset_eq_setD)
  with assms(2) obtain e cs where cs: "conds (sortCond srt st) = e # cs"
    by (cases "conds (sortCond srt st)") auto
  have "e = d"
  proof (rule ccontr)
    assume "e \<noteq> d"
    with cs assms(2) set have "d \<in> set cs" by auto
    then have "c_LastUpdateAt d \<le> c_LastUpdateAt e"
      using sort_perm(2) [OF assms(1), of st] cs by auto
    moreover have "e \<in> set (conds st)" using cs set by auto
    ultimately show False using assms(3) [OF _ \<open>e \<noteq> d\<close>] by fastforce
  qed
  with cs show ?thesis by blast
qed

end

interpretation snc: condition_holder sns_Conditions setClusterCondition ClearCondition DescConditionsByTime
  by unfold_locales
     (auto simp: setClusterCondition_def ClearCondition_def DescConditionsByTime_def
        getClusterCondition_def refreshes_def simp del: findCondition_None split: option.splits)

interpretation sac: condition_holder sas_Conditions standalone_setClusterCondition
    standalone_ClearCondition standalone_DescConditionsByTime
  by unfold_locales
     (auto simp: standalone_setClusterCondition_def standalone_ClearCondition_def
        standalone_DescConditionsByTime_def getStandaloneCondition_def refreshes_def
        simp del: findCondition_None split: option.splits)

subsection \<open>Properties\<close>

definition setCondition :: "ConditionSetter \<Rightarrow> string \<Rightarrow> string \<Rightarrow> Time \<Rightarrow> RedisSentinelStatus \<Rightarrow> RedisSentinelStatus" where
  "setCondition k message nowString nowAt = setClusterCondition nowString nowAt (setterCondition nowString nowAt k message)"

definition standalone_setCondition ::
  "ConditionSetter \<Rightarrow> string \<Rightarrow> string \<Rightarrow> Time \<Rightarrow> RedisStandaloneStatus \<Rightarrow> RedisStandaloneStatus" where
  "standalone_setCondition k message nowString nowAt =
     standalone_setClusterCondition nowString nowAt (setterCondition nowString nowAt k message)"

lemma setterCondition_fields [simp]:
  "c_Type (setterCondition ns t k m) = fst (setterTypeReason k)"
  "c_Reason (setterCondition ns t k m) = snd (setterTypeReason k)"
  "c_Message (setterCondition ns t k m) = m"
  "c_Status (setterCondition ns t k m) = ConditionTrue"
  "c_LastUpdateAt (setterCondition ns t k m) = t"
  by (simp_all add: setterCondition_def newClusterCondition_def split: prod.splits)

definition reports :: "ConditionSetter \<Rightarrow> string \<Rightarrow> Time \<Rightarrow> Condition \<Rightarrow> bool" where
  "reports k message nowAt d \<longleftrightarrow> c_Type d = fst (setterTypeReason k) \<and> c_Reason d = snd (setterTypeReason k)
     \<and> c_Message d = message \<and> c_Status d = ConditionTrue \<and> c_LastUpdateAt d = nowAt"

context condition_holder
begin

lemma setter_reports:
  "\<exists>d \<in> set (conds (setCond ns t (setterCondition ns t k m) st)). reports k m t d"
proof -
  obtain d where d: "d \<in> set (conds (setCond ns t (setterCondition ns t k m) st))"
    "c_Type d = fst (setterTypeReason k)" "refreshes d (setterCondition ns t k m)"
    "c_LastUpdateAt d = t"
    using set_present [of ns t "setterCondition ns t k m" st] setterCondition_fields(1,5) by metis
  then have "reports k m t d" by (simp add: refreshes_def reports_def)
  with d(1) show ?thesis by blast
qed

lemma setter_head:
  assumes "go_sort srt" and "unique_types st"
    and "\<And>e. e \<in> set (conds st) \<Longrightarrow> c_LastUpdateAt e < t"
  shows "\<exists>d cs. conds (sortCond srt (setCond ns t (setterCondition ns t k m) st)) = d # cs \<and> reports k m t d"
proof -
  let ?st = "setCond ns t (setterCondition ns t k m) st"
  obtain d where d: "d \<in> set (conds ?st)" "reports k m t d" using setter_reports by blast
  have "c_LastUpdateAt e < c_LastUpdateAt d" if e: "e \<in> set (conds ?st)" "e \<noteq> d" for e
  proof -
    have "inj_on c_Type (set (conds ?st))"
      using set_unique [OF assms(2)] by (simp add: unique_types_def distinct_map)
    then have "c_Type e \<noteq> fst (setterTypeReason k)"
      using e d inj_onD [of c_Type _ e d] unfolding reports_def by metis
    then have "e \<in> set (conds st)" using set_others [OF assms(2)] e(1) by simp
    then show ?thesis using assms(3) d(2) by (simp add: reports_def)
  qed
  then have "\<exists>cs. conds (sortCond srt ?st) = d # cs"
    by (rule sort_head [OF assms(1) d(1)])
  then show ?thesis using d(2) by blast
qed

end

text \<open>
  C39. Setting a condition through any of the seven setters keeps at most one condition per
  type, leaves every condition of another type as it was, and leaves exactly one condition
  of the setter's type, which reports the given message at the given time. Clearing a type
  removes exactly the conditions of that type.
\<close>

theorem setCondition_behaviour:
  assumes "distinct (map c_Type (sns_Conditions st))"
  shows "distinct (map c_Type (sns_Conditions (setCondition k m ns t st))) \<and>
     (\<exists>d \<in> set (sns_Conditions (setCondition k m ns t st)). reports k m t d) \<and>
     (\<forall>d. c_Type d \<noteq> fst (setterTypeReason k) \<longrightarrow>
        (d \<in> set (sns_Conditions (setCondition k m ns t st)) \<longleftrightarrow> d \<in> set (sns_Conditions st))) \<and>
     set (sns_Conditions (ClearCondition ct st)) = {d \<in> set (sns_Conditions st). c_Type d \<noteq> ct}"
  unfolding setCondition_def
  using snc.set_unique [of st] snc.set_others [of st] snc.setter_reports snc.clear_removes(1) [of st] assms
  by (simp add: snc.unique_types_def)

theorem setCondition_behaviour_witness:
  "distinct (map c_Type (sns_Conditions (setCondition SetReadyCondition ''ok'' ''now'' 7 zeroSentinelStatus))) \<and>
   (\<exists>d \<in> set (sns_Conditions (setCondition SetReadyCondition ''ok'' ''now'' 7 zeroSentinelStatus)).
      reports SetReadyCondition ''ok'' 7 d) \<and>
   set (sns_Conditions (ClearCondition ''Healthy'' zeroSentinelStatus)) =
     {d \<in> set (sns_Conditions zeroSentinelStatus). c_Type d \<noteq> ''Healthy''}"
  using setCondition_behaviour [of zeroSentinelStatus SetReadyCondition "''ok''" "''now''" 7 "''Healthy''"]
  by (simp add: zeroSentinelStatus_def)

text \<open>
  The same contract for the standalone status.
\<close>

theorem standalone_setCondition_behaviour:
  assumes "distinct (map c_Type (sas_Conditions st))"
  shows "distinct (map c_Type (sas_Conditions (standalone_setCondition k m ns t st))) \<and>
     (\<exists>d \<in> set (sas_Conditions (standalone_setCondition k m ns t st)). reports k m t d) \<and>
     (\<forall>d. c_Type d \<noteq> fst (setterTypeReason k) \<longrightarrow>
        (d \<in> set (sas_Conditions (standalone_setCondition k m ns t st)) \<longleftrightarrow> d \<in> set (sas_Conditions st))) \<and>
     set (sas_Conditions (standalone_ClearCondition ct st)) = {d \<in> set (sas_Conditions st). c_Type d \<noteq> ct}"
  unfolding standalone_setCondition_def
  using sac.set_unique [of st] sac.set_others [of st] sac.setter_reports sac.clear_removes(1) [of st] assms
  by (simp add: sac.unique_types_def)

theorem standalone_setCondition_behaviour_witness:
  "distinct (map c_Type (sas_Conditions (standalone_setCondition SetFailedCondition ''no'' ''now'' 7 zeroStandaloneStatus))) \<and>
   (\<exists>d \<in> set (sas_Conditions (standalone_setCondition SetFailedCondition ''no'' ''now'' 7 zeroStandaloneStatus)).
      reports SetFailedCondition ''no'' 7 d) \<and>
   set (sas_Conditions (standalone_ClearCondition ''Healthy'' zeroStandaloneStatus)) =
     {d \<in> set (sas_Conditions zeroStandaloneStatus). c_Type d \<noteq> ''Healthy''}"
  using standalone_setCondition_behaviour [of zeroStandaloneStatus SetFailedCondition "''no''" "''now''" 7 "''Healthy''"]
  by (simp add: zeroStandaloneStatus_def)

text \<open>
  After a condition is set at a time later than every condition recorded so far,
  sorting by time makes it the first of the list, for any sorting routine that permutes
  its input into the required order; this is the entry the handlers read as the current
  state of the cluster.
\<close>

lemma newest_condition_first:
  assumes "go_sort srt" and "distinct (map c_Type (sns_Conditions st))"
    and "\<forall>e \<in> set (sns_Conditions st). c_LastUpdateAt e < t"
  shows "\<exists>d cs. sns_Conditions (DescConditionsByTime srt (setCondition k m ns t st)) = d # cs
     \<and> reports k m t d"
  unfolding setCondition_def
  by (rule snc.setter_head) (use assms in \<open>simp_all add: snc.unique_types_def\<close>)

end
