(* ===== verification/World.thy ===== *)
theory World
  imports Api_Status Api_Validate
begin

text \<open>
  What the operator acts on. The code it calls but does not contain (the API server behind
  controller-runtime's client, Redis behind go-redis, the clock, the iteration order of maps
  and the sorting routine) is the record \<open>'e env\<close>: functions over an arbitrary external
  state \<open>'e\<close>, an argument \<open>E\<close> of every definition that uses them. The operator's own state is
  the record \<open>'e world\<close>: the custom resources it holds by pointer (a reconcile allocates one,
  the cache keeps another, and both are mutated in place), the two metadata caches, the
  metrics gauge and the events it recorded. Log output is not modelled.
\<close>

subsection \<open>External code\<close>

record ('o, 'e) KindClient =
  kc_Get :: "string \<Rightarrow> string \<Rightarrow> 'e \<Rightarrow> (GoErr + 'o) \<times> 'e"
  kc_List :: "string \<Rightarrow> (string, string) fmap option \<Rightarrow> 'e \<Rightarrow> (GoErr + 'o list) \<times> 'e"
  kc_Create :: "'o \<Rightarrow> 'e \<Rightarrow> (GoErr + 'o) \<times> 'e"
  kc_Update :: "'o \<Rightarrow> 'e \<Rightarrow> (GoErr + 'o) \<times> 'e"
  kc_StatusUpdate :: "'o \<Rightarrow> 'e \<Rightarrow> (GoErr + 'o) \<times> 'e"
  kc_Delete :: "'o \<Rightarrow> 'e \<Rightarrow> (GoErr + unit) \<times> 'e"

text \<open>
  A successful \<open>Create\<close>, \<open>Update\<close> or \<open>Status().Update\<close> also returns the object with which the
  client overwrites the one it was given. Replies of Redis are the values go-redis decodes.
\<close>

datatype RedisValue = RString string | RInt int | RSlice "RedisValue list" | RNil

record Options =
  Addr :: string
  opt_Password :: string

record Namespace =
  nsp_meta :: ObjectMeta

record 'e env =
  E_services :: "(Service, 'e) KindClient"
  E_configMaps :: "(ConfigMap, 'e) KindClient"
  E_statefulSets :: "(StatefulSet, 'e) KindClient"
  E_pdbs :: "(PodDisruptionBudget, 'e) KindClient"
  E_deployments :: "(Deployment, 'e) KindClient"
  E_pods :: "(Pod, 'e) KindClient"
  E_namespaces :: "(Namespace, 'e) KindClient"
  E_sentinels :: "(RedisSentinel, 'e) KindClient"
  E_standalones :: "(RedisStandalone, 'e) KindClient"
  E_stringCmd :: "Options \<Rightarrow> string list \<Rightarrow> 'e \<Rightarrow> (GoErr + string) \<times> 'e"
  E_statusCmd :: "Options \<Rightarrow> string list \<Rightarrow> 'e \<Rightarrow> (GoErr + string) \<times> 'e"
  E_intCmd :: "Options \<Rightarrow> string list \<Rightarrow> 'e \<Rightarrow> (GoErr + int) \<times> 'e"
  E_boolCmd :: "Options \<Rightarrow> string list \<Rightarrow> 'e \<Rightarrow> (GoErr + bool) \<times> 'e"
  E_sliceCmd :: "Options \<Rightarrow> string list \<Rightarrow> 'e \<Rightarrow> (GoErr + RedisValue list) \<times> 'e"
  E_now :: "'e \<Rightarrow> Time \<times> 'e"
  E_sleep :: "int \<Rightarrow> 'e \<Rightarrow> 'e"
  E_rfc3339 :: "Time \<Rightarrow> string"
  E_range :: "(string, string) fmap \<Rightarrow> 'e \<Rightarrow> (string \<times> string) list \<times> 'e"
  E_sortConditions :: "(Condition \<Rightarrow> Condition \<Rightarrow> bool) \<Rightarrow> Condition list \<Rightarrow> Condition list"
  E_sortPods :: "(Pod \<Rightarrow> Pod \<Rightarrow> bool) \<Rightarrow> Pod list \<Rightarrow> Pod list"

subsection \<open>Cached metadata\<close>

datatype StateType = Create | Update | Check

type_synonym ptr = nat

record Meta =
  m_NameSpace :: string
  m_Name :: string
  m_State :: StateType
  m_Size :: int32
  m_Auth :: AuthConfig
  m_Obj :: ptr
  m_Status :: ConditionType
  m_Message :: string
  m_Config :: strmap

definition zeroMetaEntry :: Meta where
  "zeroMetaEntry = \<lparr>m_NameSpace = [], m_Name = [], m_State = Create, m_Size = 0,
     m_Auth = \<lparr>Password = []\<rparr>, m_Obj = 0, m_Status = [], m_Message = [], m_Config = None\<rparr>"

subsection \<open>The operator's state\<close>

record Event =
  e_object :: "string \<times> string"
  e_type :: string
  e_reason :: string
  e_message :: string

record 'e world =
  w_ext :: 'e
  w_next :: ptr
  w_rs :: "ptr \<Rightarrow> RedisSentinel"
  w_ra :: "ptr \<Rightarrow> RedisStandalone"
  w_metas :: "ptr \<Rightarrow> Meta"
  w_snCache :: "string \<rightharpoonup> ptr"
  w_saCache :: "string \<rightharpoonup> ptr"
  w_metrics :: "(string \<times> string) \<rightharpoonup> int"
  w_events :: "Event list"

type_synonym ('e, 'a) op = "('e world, 'a) go"

definition initWorld :: "'e \<Rightarrow> 'e world" where
  "initWorld e = \<lparr>w_ext = e, w_next = 1, w_rs = (\<lambda>_. zeroSentinel), w_ra = (\<lambda>_. zeroStandalone),
     w_metas = (\<lambda>_. zeroMetaEntry), w_snCache = Map.empty, w_saCache = Map.empty,
     w_metrics = Map.empty, w_events = []\<rparr>"

lemma initWorld_ext [simp]: "w_ext (initWorld e) = e" "(initWorld e)\<lparr>w_ext := e'\<rparr> = initWorld e'"
  by (simp_all add: initWorld_def)

definition extG :: "('e \<Rightarrow> (GoErr + 'a) \<times> 'e) \<Rightarrow> ('e, 'a) op" where
  "extG f = (\<lambda>w. case f (w_ext w) of
       (Inl e, x) \<Rightarrow> (Fail e, w\<lparr>w_ext := x\<rparr>)
     | (Inr a, x) \<Rightarrow> (Ok a, w\<lparr>w_ext := x\<rparr>))"

definition totalG :: "('e \<Rightarrow> 'a \<times> 'e) \<Rightarrow> ('e, 'a) op" where
  "totalG f = (\<lambda>w. case f (w_ext w) of (a, x) \<Rightarrow> (Ok a, w\<lparr>w_ext := x\<rparr>))"

definition nowG :: "'e env \<Rightarrow> ('e, Time) op" where
  "nowG E = totalG (E_now E)"

definition sleepG :: "'e env \<Rightarrow> int \<Rightarrow> ('e, unit) op" where
  "sleepG E d = totalG (\<lambda>x. ((), E_sleep E d x))"

definition rangeG :: "'e env \<Rightarrow> strmap \<Rightarrow> ('e, (string \<times> string) list) op" where
  "rangeG E m = totalG (E_range E (entries m))"

subsection \<open>Pointers\<close>

definition getRs :: "ptr \<Rightarrow> (RedisSentinel \<Rightarrow> ('e, 'a) op) \<Rightarrow> ('e, 'a) op" where
  "getRs p k = readG (\<lambda>w. w_rs w p) k"

definition setRs :: "ptr \<Rightarrow> (RedisSentinel \<Rightarrow> RedisSentinel) \<Rightarrow> ('e, unit) op" where
  "setRs p f = modifyG (\<lambda>w. w\<lparr>w_rs := (w_rs w)(p := f (w_rs w p))\<rparr>)"

definition getRa :: "ptr \<Rightarrow> (RedisStandalone \<Rightarrow> ('e, 'a) op) \<Rightarrow> ('e, 'a) op" where
  "getRa p k = readG (\<lambda>w. w_ra w p) k"

definition setRa :: "ptr \<Rightarrow> (RedisStandalone \<Rightarrow> RedisStandalone) \<Rightarrow> ('e, unit) op" where
  "setRa p f = modifyG (\<lambda>w. w\<lparr>w_ra := (w_ra w)(p := f (w_ra w p))\<rparr>)"

definition getMeta :: "ptr \<Rightarrow> (Meta \<Rightarrow> ('e, 'a) op) \<Rightarrow> ('e, 'a) op" where
  "getMeta m k = readG (\<lambda>w. w_metas w m) k"

definition setMeta :: "ptr \<Rightarrow> (Meta \<Rightarrow> Meta) \<Rightarrow> ('e, unit) op" where
  "setMeta m f = modifyG (\<lambda>w. w\<lparr>w_metas := (w_metas w)(m := f (w_metas w m))\<rparr>)"

definition allocRs :: "RedisSentinel \<Rightarrow> ('e, ptr) op" where
  "allocRs o1 = (\<lambda>w. (Ok (w_next w), w\<lparr>w_next := w_next w + 1, w_rs := (w_rs w)(w_next w := o1)\<rparr>))"

definition allocRa :: "RedisStandalone \<Rightarrow> ('e, ptr) op" where
  "allocRa o1 = (\<lambda>w. (Ok (w_next w), w\<lparr>w_next := w_next w + 1, w_ra := (w_ra w)(w_next w := o1)\<rparr>))"

definition allocMeta :: "Meta \<Rightarrow> ('e, ptr) op" where
  "allocMeta m = (\<lambda>w. (Ok (w_next w), w\<lparr>w_next := w_next w + 1, w_metas := (w_metas w)(w_next w := m)\<rparr>))"

text \<open>A method of the object behind a pointer.\<close>

definition onRs :: "ptr \<Rightarrow> (RedisSentinel, 'a) go \<Rightarrow> ('e, 'a) op" where
  "onRs p m = zoomG (\<lambda>w. w_rs w p) (\<lambda>o1 w. w\<lparr>w_rs := (w_rs w)(p := o1)\<rparr>) m"

definition onRa :: "ptr \<Rightarrow> (RedisStandalone, 'a) go \<Rightarrow> ('e, 'a) op" where
  "onRa p m = zoomG (\<lambda>w. w_ra w p) (\<lambda>o1 w. w\<lparr>w_ra := (w_ra w)(p := o1)\<rparr>) m"

lemmas ptr_defs = getRs_def setRs_def getRa_def setRa_def getMeta_def setMeta_def
  allocRs_def allocRa_def allocMeta_def

subsection \<open>Frames\<close>

lemma extG_Ok_iff:
  "extG f w = (Ok a, w') \<longleftrightarrow> (\<exists>x. f (w_ext w) = (Inr a, x) \<and> w' = w\<lparr>w_ext := x\<rparr>)"
  by (auto simp: extG_def split: prod.splits sum.splits)

lemma extG_Fail_iff:
  "extG f w = (Fail e, w') \<longleftrightarrow> (\<exists>x. f (w_ext w) = (Inl e, x) \<and> w' = w\<lparr>w_ext := x\<rparr>)"
  by (auto simp: extG_def split: prod.splits sum.splits)

lemma extG_cases:
  obtains (ok) a x where "f (w_ext w) = (Inr a, x)" "extG f w = (Ok a, w\<lparr>w_ext := x\<rparr>)"
  | (fail) e x where "f (w_ext w) = (Inl e, x)" "extG f w = (Fail e, w\<lparr>w_ext := x\<rparr>)"
  by (cases "f (w_ext w)"; cases "fst (f (w_ext w))") (auto simp: extG_def)

text \<open>External calls change nothing but the external state.\<close>

definition extOnly :: "'e world \<Rightarrow> 'e world \<Rightarrow> bool" where
  "extOnly w w' \<longleftrightarrow> w' = w\<lparr>w_ext := w_ext w'\<rparr>"

lemma extOnly_order [go_keeps, simp]: "reflp extOnly" "transp extOnly"
  by (auto simp: extOnly_def reflp_def transp_def) (metis world.surjective world.update_convs(1))

lemma extOnly_ext [go_keeps]: "keeps extOnly (extG f)" "keeps extOnly (totalG g)"
  by (auto simp: keeps_def extOnly_def extG_def totalG_def split: prod.splits sum.splits)

end
