(* ===== verification/K8s_Client.thy ===== *)
theory K8s_Client
  imports World
begin

text \<open>
  Package \<open>pkg/client/k8s\<close>: the typed wrappers around controller-runtime's client, event
  recording, and the updates of the custom resources; and \<open>pkg/metrics\<close>. The wrappers of the
  six kinds of objects are the same code on different types, so \<open>getObj\<close>, \<open>createObj\<close>,
  \<open>updateObj\<close> and \<open>deleteObj\<close> hold what they share. The locale \<open>object_client\<close> states the
  contract of \<open>CreateIfNotExists\<close> and \<open>CreateOrUpdate\<close>; \<open>api_laws\<close> is what the API server is
  documented to do, a hypothesis of the theorems that need it.
\<close>

subsection \<open>Shared wrappers\<close>

definition getObj :: "('o, 'e) KindClient \<Rightarrow> string \<Rightarrow> string \<Rightarrow> ('e, 'o) op" where
  "getObj kc ns n = extG (kc_Get kc ns n)"

definition createObj :: "('o, 'e) KindClient \<Rightarrow> string \<Rightarrow> 'o \<Rightarrow> ('e, unit) op" where
  "createObj kc ns o1 = bindG (extG (kc_Create kc o1)) (\<lambda>_. skipG)"

definition updateObj :: "('o, 'e) KindClient \<Rightarrow> string \<Rightarrow> 'o \<Rightarrow> ('e, unit) op" where
  "updateObj kc ns o1 = bindG (extG (kc_Update kc o1)) (\<lambda>_. skipG)"

definition deleteObj :: "('o, 'e) KindClient \<Rightarrow> string \<Rightarrow> string \<Rightarrow> ('e, unit) op" where
  "deleteObj kc ns n = bindG (extG (kc_Get kc ns n)) (\<lambda>o1. extG (kc_Delete kc o1))"

subsection \<open>Services, config maps, workloads, pods\<close>

definition GetService :: "'e env \<Rightarrow> string \<Rightarrow> string \<Rightarrow> ('e, Service) op" where
  "GetService E = getObj (E_services E)"

definition CreateService :: "'e env \<Rightarrow> string \<Rightarrow> Service \<Rightarrow> ('e, unit) op" where
  "CreateService E = createObj (E_services E)"

definition UpdateService :: "'e env \<Rightarrow> string \<Rightarrow> Service \<Rightarrow> ('e, unit) op" where
  "UpdateService E = updateObj (E_services E)"

definition CreateIfNotExistsService :: "'e env \<Rightarrow> string \<Rightarrow> Service \<Rightarrow> ('e, unit) op" where
  "CreateIfNotExistsService E ns o1 =
     tryG (GetService E ns (om_name (svc_meta o1)))
       (\<lambda>err. if IsNotFound err then CreateService E ns o1 else failG err)
       (\<lambda>_. skipG)"

definition CreateOrUpdateService :: "'e env \<Rightarrow> string \<Rightarrow> Service \<Rightarrow> ('e, unit) op" where
  "CreateOrUpdateService E ns o1 =
     tryG (GetService E ns (om_name (svc_meta o1)))
       (\<lambda>err. if IsNotFound err then CreateService E ns o1 else failG err)
       (\<lambda>stored. UpdateService E ns
          (svc_meta_update (om_resourceVersion_update (\<lambda>_. om_resourceVersion (svc_meta stored))) o1))"

definition DeleteService :: "'e env \<Rightarrow> string \<Rightarrow> string \<Rightarrow> ('e, unit) op" where
  "DeleteService E = deleteObj (E_services E)"

definition ListServices :: "'e env \<Rightarrow> string \<Rightarrow> ('e, Service list) op" where
  "ListServices E ns = extG (kc_List (E_services E) ns None)"

definition GetConfigMap :: "'e env \<Rightarrow> string \<Rightarrow> string \<Rightarrow> ('e, ConfigMap) op" where
  "GetConfigMap E = getObj (E_configMaps E)"

definition CreateConfigMap :: "'e env \<Rightarrow> string \<Rightarrow> ConfigMap \<Rightarrow> ('e, unit) op" where
  "CreateConfigMap E = createObj (E_configMaps E)"

definition UpdateConfigMap :: "'e env \<Rightarrow> string \<Rightarrow> ConfigMap \<Rightarrow> ('e, unit) op" where
  "UpdateConfigMap E = updateObj (E_configMaps E)"

definition CreateIfNotExistsConfigMap :: "'e env \<Rightarrow> string \<Rightarrow> ConfigMap \<Rightarrow> ('e, unit) op" where
  "CreateIfNotExistsConfigMap E ns o1 =
     tryG (GetConfigMap E ns (om_name (cm_meta o1)))
       (\<lambda>err. if IsNotFound err then CreateConfigMap E ns o1 else failG err)
       (\<lambda>_. skipG)"

definition CreateOrUpdateConfigMap :: "'e env \<Rightarrow> string \<Rightarrow> ConfigMap \<Rightarrow> ('e, unit) op" where
  "CreateOrUpdateConfigMap E ns o1 =
     tryG (GetConfigMap E ns (om_name (cm_meta o1)))
       (\<lambda>err. if IsNotFound err then CreateConfigMap E ns o1 else failG err)
       (\<lambda>stored. UpdateConfigMap E ns
          (cm_meta_update (om_resourceVersion_update (\<lambda>_. om_resourceVersion (cm_meta stored))) o1))"

definition DeleteConfigMap :: "'e env \<Rightarrow> string \<Rightarrow> string \<Rightarrow> ('e, unit) op" where
  "DeleteConfigMap E = deleteObj (E_configMaps E)"

definition ListConfigMaps :: "'e env \<Rightarrow> string \<Rightarrow> ('e, ConfigMap list) op" where
  "ListConfigMaps E ns = extG (kc_List (E_configMaps E) ns None)"

definition GetStatefulSet :: "'e env \<Rightarrow> string \<Rightarrow> string \<Rightarrow> ('e, StatefulSet) op" where
  "GetStatefulSet E = getObj (E_statefulSets E)"

definition CreateStatefulSet :: "'e env \<Rightarrow> string \<Rightarrow> StatefulSet \<Rightarrow> ('e, unit) op" where
  "CreateStatefulSet E = createObj (E_statefulSets E)"

definition UpdateStatefulSet :: "'e env \<Rightarrow> string \<Rightarrow> StatefulSet \<Rightarrow> ('e, unit) op" where
  "UpdateStatefulSet E = updateObj (E_statefulSets E)"

definition CreateIfNotExistsStatefulSet :: "'e env \<Rightarrow> string \<Rightarrow> StatefulSet \<Rightarrow> ('e, unit) op" where
  "CreateIfNotExistsStatefulSet E ns o1 =
     tryG (GetStatefulSet E ns (om_name (ss_meta o1)))
       (\<lambda>err. if IsNotFound err then CreateStatefulSet E ns o1 else failG err)
       (\<lambda>_. skipG)"

definition CreateOrUpdateStatefulSet :: "'e env \<Rightarrow> string \<Rightarrow> StatefulSet \<Rightarrow> ('e, unit) op" where
  "CreateOrUpdateStatefulSet E ns o1 =
     tryG (GetStatefulSet E ns (om_name (ss_meta o1)))
       (\<lambda>err. if IsNotFound err then CreateStatefulSet E ns o1 else failG err)
       (\<lambda>stored. UpdateStatefulSet E ns
          (ss_meta_update (om_resourceVersion_update (\<lambda>_. om_resourceVersion (ss_meta stored))) o1))"

definition DeleteStatefulSet :: "'e env \<Rightarrow> string \<Rightarrow> string \<Rightarrow> ('e, unit) op" where
  "DeleteStatefulSet E = deleteObj (E_statefulSets E)"

definition ListStatefulSets :: "'e env \<Rightarrow> string \<Rightarrow> ('e, StatefulSet list) op" where
  "ListStatefulSets E ns = extG (kc_List (E_statefulSets E) ns None)"

definition GetPodDisruptionBudget :: "'e env \<Rightarrow> string \<Rightarrow> string \<Rightarrow> ('e, PodDisruptionBudget) op" where
  "GetPodDisruptionBudget E = getObj (E_pdbs E)"

definition CreatePodDisruptionBudget :: "'e env \<Rightarrow> string \<Rightarrow> PodDisruptionBudget \<Rightarrow> ('e, unit) op" where
  "CreatePodDisruptionBudget E = createObj (E_pdbs E)"

definition UpdatePodDisruptionBudget :: "'e env \<Rightarrow> string \<Rightarrow> PodDisruptionBudget \<Rightarrow> ('e, unit) op" where
  "UpdatePodDisruptionBudget E = updateObj (E_pdbs E)"

definition CreateIfNotExistsPodDisruptionBudget :: "'e env \<Rightarrow> string \<Rightarrow> PodDisruptionBudget \<Rightarrow> ('e, unit) op" where
  "CreateIfNotExistsPodDisruptionBudget E ns o1 =
     tryG (GetPodDisruptionBudget E ns (om_name (pdb_meta o1)))
       (\<lambda>err. if IsNotFound err then CreatePodDisruptionBudget E ns o1 else failG err)
       (\<lambda>_. skipG)"

definition CreateOrUpdatePodDisruptionBudget :: "'e env \<Rightarrow> string \<Rightarrow> PodDisruptionBudget \<Rightarrow> ('e, unit) op" where
  "CreateOrUpdatePodDisruptionBudget E ns o1 =
     tryG (GetPodDisruptionBudget E ns (om_name (pdb_meta o1)))
       (\<lambda>err. if IsNotFound err then CreatePodDisruptionBudget E ns o1 else failG err)
       (\<lambda>stored. UpdatePodDisruptionBudget E ns
          (pdb_meta_update (om_resourceVersion_update (\<lambda>_. om_resourceVersion (pdb_meta stored))) o1))"

definition DeletePodDisruptionBudget :: "'e env \<Rightarrow> string \<Rightarrow> string \<Rightarrow> ('e, unit) op" where
  "DeletePodDisruptionBudget E = deleteObj (E_pdbs E)"

definition GetDeployment :: "'e env \<Rightarrow> string \<Rightarrow> string \<Rightarrow> ('e, Deployment) op" where
  "GetDeployment E = getObj (E_deployments E)"

definition CreateDeployment :: "'e env \<Rightarrow> string \<Rightarrow> Deployment \<Rightarrow> ('e, unit) op" where
  "CreateDeployment E = createObj (E_deployments E)"

definition UpdateDeployment :: "'e env \<Rightarrow> string \<Rightarrow> Deployment \<Rightarrow> ('e, unit) op" where
  "UpdateDeployment E = updateObj (E_deployments E)"

definition CreateOrUpdateDeployment :: "'e env \<Rightarrow> string \<Rightarrow> Deployment \<Rightarrow> ('e, unit) op" where
  "CreateOrUpdateDeployment E ns o1 =
     tryG (GetDeployment E ns (om_name (dp_meta o1)))
       (\<lambda>err. if IsNotFound err then CreateDeployment E ns o1 else failG err)
       (\<lambda>stored. UpdateDeployment E ns
          (dp_meta_update (om_resourceVersion_update (\<lambda>_. om_resourceVersion (dp_meta stored))) o1))"

definition DeleteDeployment :: "'e env \<Rightarrow> string \<Rightarrow> string \<Rightarrow> ('e, unit) op" where
  "DeleteDeployment E = deleteObj (E_deployments E)"

definition ListDeployments :: "'e env \<Rightarrow> string \<Rightarrow> ('e, Deployment list) op" where
  "ListDeployments E ns = extG (kc_List (E_deployments E) ns None)"

definition GetPod :: "'e env \<Rightarrow> string \<Rightarrow> string \<Rightarrow> ('e, Pod) op" where
  "GetPod E = getObj (E_pods E)"

definition CreatePod :: "'e env \<Rightarrow> string \<Rightarrow> Pod \<Rightarrow> ('e, unit) op" where
  "CreatePod E = createObj (E_pods E)"

definition UpdatePod :: "'e env \<Rightarrow> string \<Rightarrow> Pod \<Rightarrow> ('e, unit) op" where
  "UpdatePod E = updateObj (E_pods E)"

definition CreateOrUpdatePod :: "'e env \<Rightarrow> string \<Rightarrow> Pod \<Rightarrow> ('e, unit) op" where
  "CreateOrUpdatePod E ns o1 =
     tryG (GetPod E ns (om_name (pod_meta o1)))
       (\<lambda>err. if IsNotFound err then CreatePod E ns o1 else failG err)
       (\<lambda>stored. UpdatePod E ns
          (pod_meta_update (om_resourceVersion_update (\<lambda>_. om_resourceVersion (pod_meta stored))) o1))"

definition DeletePod :: "'e env \<Rightarrow> string \<Rightarrow> string \<Rightarrow> ('e, unit) op" where
  "DeletePod E = deleteObj (E_pods E)"

definition ListPods :: "'e env \<Rightarrow> string \<Rightarrow> ('e, Pod list) op" where
  "ListPods E ns = extG (kc_List (E_pods E) ns None)"

text \<open>\<open>GetStatefulSetPods\<close> and \<open>GetDeploymentPods\<close> dereference the selector of the workload.\<close>

definition GetStatefulSetPods :: "'e env \<Rightarrow> string \<Rightarrow> string \<Rightarrow> ('e, Pod list) op" where
  "GetStatefulSetPods E ns n =
     bindG (GetStatefulSet E ns n) (\<lambda>ss.
     bindG (derefG (ss_selector ss)) (\<lambda>sel.
     extG (kc_List (E_pods E) ns (Some (entries sel)))))"

definition GetDeploymentPods :: "'e env \<Rightarrow> string \<Rightarrow> string \<Rightarrow> ('e, Pod list) op" where
  "GetDeploymentPods E ns n =
     bindG (GetDeployment E ns n) (\<lambda>d.
     bindG (derefG (dp_selector d)) (\<lambda>sel.
     extG (kc_List (E_pods E) ns (Some (entries sel)))))"

definition GetNameSpace :: "'e env \<Rightarrow> string \<Rightarrow> ('e, Namespace) op" where
  "GetNameSpace E n = getObj (E_namespaces E) n n"

subsection \<open>Custom resources\<close>

text \<open>The client overwrites the object behind the pointer with the server's reply.\<close>

definition UpdateSentinelSpec :: "'e env \<Rightarrow> string \<Rightarrow> ptr \<Rightarrow> ('e, unit) op" where
  "UpdateSentinelSpec E ns p =
     getRs p (\<lambda>rc. bindG (extG (kc_Update (E_sentinels E) rc)) (\<lambda>rc'. setRs p (\<lambda>_. rc')))"

definition UpdateSentinelStatus :: "'e env \<Rightarrow> string \<Rightarrow> ptr \<Rightarrow> ('e, unit) op" where
  "UpdateSentinelStatus E ns p =
     seqG (setRs p (rs_status_update (DescConditionsByTime (E_sortConditions E))))
          (getRs p (\<lambda>rc. bindG (extG (kc_StatusUpdate (E_sentinels E) rc)) (\<lambda>rc'. setRs p (\<lambda>_. rc'))))"

definition UpdateStandaloneSpec :: "'e env \<Rightarrow> string \<Rightarrow> ptr \<Rightarrow> ('e, unit) op" where
  "UpdateStandaloneSpec E ns p =
     getRa p (\<lambda>rc. bindG (extG (kc_Update (E_standalones E) rc)) (\<lambda>rc'. setRa p (\<lambda>_. rc')))"

definition UpdateStandaloneStatus :: "'e env \<Rightarrow> string \<Rightarrow> ptr \<Rightarrow> ('e, unit) op" where
  "UpdateStandaloneStatus E ns p =
     seqG (setRa p (ra_status_update (standalone_DescConditionsByTime (E_sortConditions E))))
          (getRa p (\<lambda>rc. bindG (extG (kc_StatusUpdate (E_standalones E) rc)) (\<lambda>rc'. setRa p (\<lambda>_. rc'))))"

text \<open>
  \<open>redis_standalone.go\<close> has a second client type with the same two methods; the controllers use
  those of \<open>ClusterOption\<close>.
\<close>

definition StandaloneOption_UpdateStandaloneSpec :: "'e env \<Rightarrow> string \<Rightarrow> ptr \<Rightarrow> ('e, unit) op" where
  "StandaloneOption_UpdateStandaloneSpec E ns p =
     getRa p (\<lambda>rc. bindG (extG (kc_Update (E_standalones E) rc)) (\<lambda>rc'. setRa p (\<lambda>_. rc')))"

definition StandaloneOption_UpdateStandaloneStatus :: "'e env \<Rightarrow> string \<Rightarrow> ptr \<Rightarrow> ('e, unit) op" where
  "StandaloneOption_UpdateStandaloneStatus E ns p =
     seqG (setRa p (ra_status_update (standalone_DescConditionsByTime (E_sortConditions E))))
          (getRa p (\<lambda>rc. bindG (extG (kc_StatusUpdate (E_standalones E) rc)) (\<lambda>rc'. setRa p (\<lambda>_. rc'))))"

text \<open>The seven \<open>SetXCondition\<close> methods, with the clock readings they make in order.\<close>

definition SetConditionG :: "'e env \<Rightarrow> ptr \<Rightarrow> ConditionSetter \<Rightarrow> string \<Rightarrow> ('e, unit) op" where
  "SetConditionG E p k msg =
     bindG (nowG E) (\<lambda>n1. bindG (nowG E) (\<lambda>n2.
     let c = setterCondition (E_rfc3339 E n1) n2 k msg in
     getRs p (\<lambda>rc.
       case getClusterCondition (rs_status rc) (c_Type c) of
         Some (i, d) \<Rightarrow>
           if refreshes d c
           then bindG (nowG E) (\<lambda>n3. bindG (nowG E) (\<lambda>n4.
                  setRs p (rs_status_update (setClusterCondition (E_rfc3339 E n3) n4 c))))
           else setRs p (rs_status_update (setClusterCondition (E_rfc3339 E n1) n2 c))
       | None \<Rightarrow> setRs p (rs_status_update (setClusterCondition (E_rfc3339 E n1) n2 c)))))"

definition standalone_SetConditionG :: "'e env \<Rightarrow> ptr \<Rightarrow> ConditionSetter \<Rightarrow> string \<Rightarrow> ('e, unit) op" where
  "standalone_SetConditionG E p k msg =
     bindG (nowG E) (\<lambda>n1. bindG (nowG E) (\<lambda>n2.
     let c = setterCondition (E_rfc3339 E n1) n2 k msg in
     getRa p (\<lambda>rc.
       case getStandaloneCondition (ra_status rc) (c_Type c) of
         Some (i, d) \<Rightarrow>
           if refreshes d c
           then bindG (nowG E) (\<lambda>n3. bindG (nowG E) (\<lambda>n4.
                  setRa p (ra_status_update (standalone_setClusterCondition (E_rfc3339 E n3) n4 c))))
           else setRa p (ra_status_update (standalone_setClusterCondition (E_rfc3339 E n1) n2 c))
       | None \<Rightarrow> setRa p (ra_status_update (standalone_setClusterCondition (E_rfc3339 E n1) n2 c)))))"

subsection \<open>Events and metrics\<close>

definition recordEvent :: "ObjectMeta \<Rightarrow> string \<Rightarrow> string \<Rightarrow> string \<Rightarrow> ('e, unit) op" where
  "recordEvent m typ reason message = modifyG (\<lambda>w. w\<lparr>w_events := w_events w @
     [\<lparr>e_object = (om_namespace m, om_name m), e_type = typ, e_reason = reason, e_message = message\<rparr>]\<rparr>)"

definition NewSlaveAdd :: "ObjectMeta \<Rightarrow> string \<Rightarrow> ('e, unit) op" where
  "NewSlaveAdd m message = recordEvent m ''Normal'' ClusterConditionScaling message"

definition SlaveRemove :: "ObjectMeta \<Rightarrow> string \<Rightarrow> ('e, unit) op" where
  "SlaveRemove m message = recordEvent m ''Normal'' ClusterConditionScalingDown message"

definition CreateCluster :: "ObjectMeta \<Rightarrow> ('e, unit) op" where
  "CreateCluster m = recordEvent m ''Normal'' ClusterConditionCreating ''Bootstrap redis cluster''"

definition EventUpdateStatus :: "ObjectMeta \<Rightarrow> string \<Rightarrow> ('e, unit) op" where
  "EventUpdateStatus m message = recordEvent m ''Normal'' ClusterConditionUpdating message"

definition UpgradedCluster :: "ObjectMeta \<Rightarrow> string \<Rightarrow> ('e, unit) op" where
  "UpgradedCluster m message = recordEvent m ''Normal'' ClusterConditionUpgrading message"

definition EnsureCluster :: "ObjectMeta \<Rightarrow> ('e, unit) op" where
  "EnsureCluster m = recordEvent m ''Normal'' ''Ensure'' ''Makes sure of redis cluster ready''"

definition CheckCluster :: "ObjectMeta \<Rightarrow> ('e, unit) op" where
  "CheckCluster m = recordEvent m ''Normal'' ''CheckAndHeal'' ''Check and heal the redis cluster problems''"

definition FailedCluster :: "ObjectMeta \<Rightarrow> string \<Rightarrow> ('e, unit) op" where
  "FailedCluster m message = recordEvent m ''Warning'' ClusterConditionFailed message"

definition HealthCluster :: "ObjectMeta \<Rightarrow> ('e, unit) op" where
  "HealthCluster m = recordEvent m ''Normal'' ClusterConditionHealthy ''Redis cluster is healthy''"

lemmas event_defs = NewSlaveAdd_def SlaveRemove_def CreateCluster_def EventUpdateStatus_def
  UpgradedCluster_def EnsureCluster_def CheckCluster_def FailedCluster_def HealthCluster_def

definition SetClusterOK :: "string \<Rightarrow> string \<Rightarrow> ('e, unit) op" where
  "SetClusterOK ns n = modifyG (\<lambda>w. w\<lparr>w_metrics := (w_metrics w)((ns, n) \<mapsto> 1)\<rparr>)"

definition SetClusterError :: "string \<Rightarrow> string \<Rightarrow> ('e, unit) op" where
  "SetClusterError ns n = modifyG (\<lambda>w. w\<lparr>w_metrics := (w_metrics w)((ns, n) \<mapsto> 0)\<rparr>)"

definition DeleteCluster :: "string \<Rightarrow> string \<Rightarrow> ('e, unit) op" where
  "DeleteCluster ns n = modifyG (\<lambda>w. w\<lparr>w_metrics := (w_metrics w)((ns, n) := None)\<rparr>)"

end
