(* ===== verification/Memory_Api.thy ===== *)
theory Memory_Api
  imports K8s_Client "HOL-Library.List_Lexorder" "HOL-Library.Char_ord"
begin

text \<open>
  The documented behaviour of the external code as named hypotheses, and one concrete
  external world that satisfies them: an API server that stores objects by namespace and name,
  Redis servers that remember whose replica they are, and a clock that advances by one unit
  per reading and by the requested amount per sleep. The theorems use only the hypotheses;
  the concrete world shows that they can hold and lets the definitions run on examples.
\<close>

subsection \<open>Hypotheses on the API server\<close>

text \<open>
  \<open>api_laws kc meta store\<close>: the server keeps the objects \<open>store\<close> of one kind. A get returns
  the stored object, reports \<open>NotFound\<close> only if there is none, and changes nothing; a create
  that succeeds found no object and stores one under the object's namespace and name; an
  update that succeeds found one and replaces it.
\<close>

definition metaKey :: "ObjectMeta \<Rightarrow> string \<times> string" where
  "metaKey m = (om_namespace m, om_name m)"

definition api_laws ::
  "('o, 'e) KindClient \<Rightarrow> ('o \<Rightarrow> ObjectMeta) \<Rightarrow> ('e \<Rightarrow> string \<times> string \<Rightarrow> 'o option) \<Rightarrow> bool" where
  "api_laws kc meta store \<longleftrightarrow>
     (\<forall>ns n x r y. kc_Get kc ns n x = (r, y) \<longrightarrow> store y = store x
        \<and> (\<forall>o1. r = Inr o1 \<longrightarrow> store x (ns, n) = Some o1)
        \<and> (\<forall>e. r = Inl e \<and> IsNotFound e \<longrightarrow> store x (ns, n) = None)) \<and>
     (\<forall>o1 o2 x y. kc_Create kc o1 x = (Inr o2, y) \<longrightarrow>
        store x (metaKey (meta o1)) = None \<and> store y = (store x)(metaKey (meta o1) \<mapsto> o2)) \<and>
     (\<forall>o1 o2 x y. kc_Update kc o1 x = (Inr o2, y) \<longrightarrow>
        store x (metaKey (meta o1)) \<noteq> None \<and> store y = (store x)(metaKey (meta o1) \<mapsto> o2))"

lemma api_lawsD:
  assumes "api_laws kc meta store"
  shows "kc_Get kc ns n x = (r, y) \<Longrightarrow> store y = store x"
    and "kc_Get kc ns n x = (Inr o1, y) \<Longrightarrow> store x (ns, n) = Some o1"
    and "kc_Get kc ns n x = (Inl e, y) \<Longrightarrow> IsNotFound e \<Longrightarrow> store x (ns, n) = None"
    and "kc_Create kc o1 x = (Inr o2, y) \<Longrightarrow>
       store x (metaKey (meta o1)) = None \<and> store y = (store x)(metaKey (meta o1) \<mapsto> o2)"
    and "kc_Update kc o1 x = (Inr o2, y) \<Longrightarrow>
       store x (metaKey (meta o1)) \<noteq> None \<and> store y = (store x)(metaKey (meta o1) \<mapsto> o2)"
  using assms unfolding api_laws_def by blast+

subsection \<open>A concrete external world\<close>

record memApi =
  ma_services :: "string \<times> string \<Rightarrow> Service option"
  ma_configMaps :: "string \<times> string \<Rightarrow> ConfigMap option"
  ma_statefulSets :: "string \<times> string \<Rightarrow> StatefulSet option"
  ma_pdbs :: "string \<times> string \<Rightarrow> PodDisruptionBudget option"
  ma_deployments :: "string \<times> string \<Rightarrow> Deployment option"
  ma_namespaces :: "string \<times> string \<Rightarrow> Namespace option"
  ma_sentinels :: "string \<times> string \<Rightarrow> RedisSentinel option"
  ma_standalones :: "string \<times> string \<Rightarrow> RedisStandalone option"
  ma_pods :: "Pod list"
  ma_masters :: "(string \<times> string) list"
  ma_configs :: "string \<Rightarrow> (string \<times> string) list"
  ma_clock :: Time

definition emptyMem :: memApi where
  "emptyMem = \<lparr>ma_services = \<lambda>_. None, ma_configMaps = \<lambda>_. None, ma_statefulSets = \<lambda>_. None,
     ma_pdbs = \<lambda>_. None, ma_deployments = \<lambda>_. None, ma_namespaces = \<lambda>_. None,
     ma_sentinels = \<lambda>_. None, ma_standalones = \<lambda>_. None, ma_pods = [], ma_masters = [], ma_configs = \<lambda>_. [], ma_clock = 0\<rparr>"

definition memKind ::
  "('o \<Rightarrow> ObjectMeta) \<Rightarrow> ('e \<Rightarrow> string \<times> string \<Rightarrow> 'o option)
     \<Rightarrow> ((string \<times> string \<Rightarrow> 'o option) \<Rightarrow> 'e \<Rightarrow> 'e) \<Rightarrow> ('o, 'e) KindClient" where
  "memKind meta get put = \<lparr>
     kc_Get = (\<lambda>ns n x. (case get x (ns, n) of
        None \<Rightarrow> Inl (StatusError NotFound (n @ '' not found'')) | Some o1 \<Rightarrow> Inr o1, x)),
     kc_List = (\<lambda>ns sel x. (Inr [], x)),
     kc_Create = (\<lambda>o1 x. case get x (metaKey (meta o1)) of
        None \<Rightarrow> (Inr o1, put ((get x)(metaKey (meta o1) \<mapsto> o1)) x)
      | Some o2 \<Rightarrow> (Inl (StatusError AlreadyExists (om_name (meta o1) @ '' already exists'')), x)),
     kc_Update = (\<lambda>o1 x. case get x (metaKey (meta o1)) of
        None \<Rightarrow> (Inl (StatusError NotFound (om_name (meta o1) @ '' not found'')), x)
      | Some o2 \<Rightarrow> (Inr o1, put ((get x)(metaKey (meta o1) \<mapsto> o1)) x)),
     kc_StatusUpdate = (\<lambda>o1 x. case get x (metaKey (meta o1)) of
        None \<Rightarrow> (Inl (StatusError NotFound (om_name (meta o1) @ '' not found'')), x)
      | Some o2 \<Rightarrow> (Inr o1, put ((get x)(metaKey (meta o1) \<mapsto> o1)) x)),
     kc_Delete = (\<lambda>o1 x. (Inr (), put ((get x)(metaKey (meta o1) := None)) x))\<rparr>"

text \<open>The status subresource keeps the spec that is stored.\<close>

definition memStatus ::
  "('o \<Rightarrow> ObjectMeta) \<Rightarrow> ('o \<Rightarrow> 'o \<Rightarrow> 'o) \<Rightarrow> ('e \<Rightarrow> string \<times> string \<Rightarrow> 'o option)
     \<Rightarrow> ((string \<times> string \<Rightarrow> 'o option) \<Rightarrow> 'e \<Rightarrow> 'e) \<Rightarrow> ('o, 'e) KindClient" where
  "memStatus meta keepSpec get put = (memKind meta get put)\<lparr>
     kc_StatusUpdate := (\<lambda>o1 x. case get x (metaKey (meta o1)) of
        None \<Rightarrow> (Inl (StatusError NotFound (om_name (meta o1) @ '' not found'')), x)
      | Some o2 \<Rightarrow> (Inr (keepSpec o1 o2), put ((get x)(metaKey (meta o1) \<mapsto> keepSpec o1 o2)) x))\<rparr>"

definition labelsMatch :: "(string, string) fmap option \<Rightarrow> strmap \<Rightarrow> bool" where
  "labelsMatch sel ls = (case sel of None \<Rightarrow> True | Some s \<Rightarrow> s \<subseteq>\<^sub>f entries ls)"

lemma labelsMatch_refl [simp]: "labelsMatch (Some (entries ls)) ls"
  by (simp add: labelsMatch_def fmsubset.rep_eq)

lemma labelsMatch_lookup:
  "labelsMatch (Some (entries sel)) ls \<Longrightarrow> lookupM sel k = Some v \<Longrightarrow> lookupM ls k = Some v"
proof -
  assume "labelsMatch (Some (entries sel)) ls" and v: "lookupM sel k = Some v"
  then have "fmlookup (entries sel) \<subseteq>\<^sub>m fmlookup (entries ls)" by (simp add: labelsMatch_def fmsubset.rep_eq)
  moreover have "fmlookup (entries sel) k = Some v" using v by (simp add: lookupM_def)
  ultimately show "lookupM ls k = Some v" by (auto simp: lookupM_def map_le_def dom_def)
qed

definition memPods :: "(Pod, memApi) KindClient" where
  "memPods = \<lparr>
     kc_Get = (\<lambda>ns n x. (case List.find (\<lambda>p. metaKey (pod_meta p) = (ns, n)) (ma_pods x) of
        None \<Rightarrow> Inl (StatusError NotFound (n @ '' not found'')) | Some p \<Rightarrow> Inr p, x)),
     kc_List = (\<lambda>ns sel x. (Inr (filter (\<lambda>p. om_namespace (pod_meta p) = ns
        \<and> labelsMatch sel (om_labels (pod_meta p))) (ma_pods x)), x)),
     kc_Create = (\<lambda>p x. (Inr p, x\<lparr>ma_pods := ma_pods x @ [p]\<rparr>)),
     kc_Update = (\<lambda>p x. (Inr p, x)),
     kc_StatusUpdate = (\<lambda>p x. (Inr p, x)),
     kc_Delete = (\<lambda>p x. (Inr (), x\<lparr>ma_pods := removeAll p (ma_pods x)\<rparr>))\<rparr>"

text \<open>A Redis server is a master unless its address is listed with the host it replicates.\<close>

definition goodHost :: "string \<Rightarrow> bool" where
  "goodHost m \<longleftrightarrow> m \<noteq> [] \<and> list_all isHostChar m \<and> \<not> sublist ''role:master'' (''role:slave master_host:'' @ m)"

definition memInfo :: "string \<Rightarrow> memApi \<Rightarrow> string" where
  "memInfo addr x = (case map_of (ma_masters x) addr of
      None \<Rightarrow> ''role:master''
    | Some m \<Rightarrow> if goodHost m then ''role:slave master_host:'' @ m else ''role:master'')"

definition memStatusCmd :: "Options \<Rightarrow> string list \<Rightarrow> memApi \<Rightarrow> (GoErr + string) \<times> memApi" where
  "memStatusCmd opt args x =
     (if args = [''slaveof'', ''NO'', ''ONE'']
      then (Inr ''OK'', x\<lparr>ma_masters := filter (\<lambda>(a, m). a \<noteq> Addr opt) (ma_masters x)\<rparr>)
      else if length args = 3 \<and> hd args = ''slaveof''
      then (if goodHost (args ! 1)
            then (Inr ''OK'', x\<lparr>ma_masters := (Addr opt, args ! 1) # ma_masters x\<rparr>)
            else (Inl (ErrorString ''ERR Invalid master host''), x))
      else (Inr ''OK'', x))"

definition memEnv :: "memApi env" where
  "memEnv = \<lparr>
     E_services = memKind svc_meta ma_services (\<lambda>s. ma_services_update (\<lambda>_. s)),
     E_configMaps = memKind cm_meta ma_configMaps (\<lambda>s. ma_configMaps_update (\<lambda>_. s)),
     E_statefulSets = memKind ss_meta ma_statefulSets (\<lambda>s. ma_statefulSets_update (\<lambda>_. s)),
     E_pdbs = memKind pdb_meta ma_pdbs (\<lambda>s. ma_pdbs_update (\<lambda>_. s)),
     E_deployments = memKind dp_meta ma_deployments (\<lambda>s. ma_deployments_update (\<lambda>_. s)),
     E_pods = memPods,
     E_namespaces = memKind nsp_meta ma_namespaces (\<lambda>s. ma_namespaces_update (\<lambda>_. s)),
     E_sentinels = memStatus rs_meta (\<lambda>a b. a\<lparr>rs_spec := rs_spec b\<rparr>) ma_sentinels (\<lambda>s. ma_sentinels_update (\<lambda>_. s)),
     E_standalones = memStatus ra_meta (\<lambda>a b. a\<lparr>ra_spec := ra_spec b\<rparr>) ma_standalones (\<lambda>s. ma_standalones_update (\<lambda>_. s)),
     E_stringCmd = (\<lambda>opt args x. (Inr (memInfo (Addr opt) x), x)),
     E_statusCmd = memStatusCmd,
     E_intCmd = (\<lambda>opt args x. (Inr 1, x)),
     E_boolCmd = (\<lambda>opt args x. (Inr True, x)),
     E_sliceCmd = (\<lambda>opt args x. (Inr [], x)),
     E_now = (\<lambda>x. (ma_clock x, x\<lparr>ma_clock := ma_clock x + 1\<rparr>)),
     E_sleep = (\<lambda>d x. x\<lparr>ma_clock := ma_clock x + d\<rparr>),
     E_rfc3339 = FormatInt,
     E_range = (\<lambda>m x. (map (\<lambda>k. (k, the (fmlookup m k))) (sorted_list_of_set (fset (fmdom m))), x)),
     E_sortConditions = insertionSort,
     E_sortPods = insertionSort\<rparr>"

lemma memStatus_sel [simp]:
  "kc_Get (memStatus meta c get put) = kc_Get (memKind meta get put)"
  "kc_Update (memStatus meta c get put) = kc_Update (memKind meta get put)"
  by (simp_all add: memStatus_def)

lemma api_laws_memKind:
  assumes "\<And>s x. get (put s x) = s"
  shows "api_laws (memKind meta get put) meta get"
  unfolding api_laws_def memKind_def using assms by (auto split: option.splits)

text \<open>Every \<open>range\<close> visits each entry of the map once.\<close>

definition range_laws :: "'e env \<Rightarrow> bool" where
  "range_laws E \<longleftrightarrow> (\<forall>m x. distinct (map fst (fst (E_range E m x)))
     \<and> map_of (fst (E_range E m x)) = fmlookup m)"

lemma memEnv_range_run:
  "E_range memEnv m x = (map (\<lambda>k. (k, the (fmlookup m k))) (sorted_list_of_set (fset (fmdom m))), x)"
  by (simp only: memEnv_def env.select_convs)

lemma memEnv_range: "range_laws memEnv"
proof -
  have lookup: "map_of (map (\<lambda>k. (k, the (fmlookup m k))) ks) = fmlookup m"
    if "set ks = fset (fmdom m)" for m :: "(string, string) fmap" and ks
  proof (rule ext)
    fix k
    show "map_of (map (\<lambda>k. (k, the (fmlookup m k))) ks) k = fmlookup m k"
      using that by (cases "fmlookup m k") (auto simp: map_of_map_restrict restrict_map_def fmdomI dest: fmdomI)
  qed
  show ?thesis unfolding range_laws_def memEnv_range_run fst_conv
    by (intro allI conjI) (simp add: comp_def, rule lookup, simp)
qed

lemma memEnv_laws:
  "api_laws (E_services memEnv) svc_meta ma_services"
  "api_laws (E_configMaps memEnv) cm_meta ma_configMaps"
  "api_laws (E_statefulSets memEnv) ss_meta ma_statefulSets"
  "api_laws (E_pdbs memEnv) pdb_meta ma_pdbs"
  unfolding memEnv_def by (simp_all add: api_laws_memKind)

subsection \<open>What the typed wrappers promise\<close>

locale object_client =
  fixes kc :: "('o, 'e) KindClient"
    and meta :: "'o \<Rightarrow> ObjectMeta"
    and get :: "string \<Rightarrow> string \<Rightarrow> ('e, 'o) op"
    and create :: "string \<Rightarrow> 'o \<Rightarrow> ('e, unit) op"
    and ensure :: "string \<Rightarrow> 'o \<Rightarrow> ('e, unit) op"
  assumes get_ext: "get ns n = extG (kc_Get kc ns n)"
    and create_ext: "create ns o1 w = (case kc_Create kc o1 (w_ext w) of
        (Inl e, x) \<Rightarrow> (Fail e, w\<lparr>w_ext := x\<rparr>) | (Inr o2, x) \<Rightarrow> (Ok (), w\<lparr>w_ext := x\<rparr>))"
    and ensure_present: "get ns (om_name (meta o1)) w = (Ok o2, w') \<Longrightarrow> ensure ns o1 w = (Ok (), w')"
    and ensure_absent: "get ns (om_name (meta o1)) w = (Fail e, w') \<Longrightarrow> IsNotFound e \<Longrightarrow>
        ensure ns o1 w = create ns o1 w'"
    and ensure_error: "get ns (om_name (meta o1)) w = (Fail e, w') \<Longrightarrow> \<not> IsNotFound e \<Longrightarrow>
        ensure ns o1 w = (Fail e, w')"
begin

lemma ensure_returns:
  obtains (ok) w' where "ensure ns o1 w = (Ok (), w')" "extOnly w w'"
  | (fail) e w' where "ensure ns o1 w = (Fail e, w')" "extOnly w w'"
proof -
  have create: "\<exists>r w''. create ns o1 w' = (r, w'') \<and> extOnly w' w'' \<and> (r = Ok () \<or> (\<exists>e. r = Fail e))" for w'
    by (auto simp: create_ext extOnly_def split: prod.splits sum.splits)
  have trans: "extOnly (w\<lparr>w_ext := x\<rparr>) w'' \<Longrightarrow> extOnly w w''" for x w''
    by (auto simp: extOnly_def)
  show ?thesis
  proof (cases rule: extG_cases [of "kc_Get kc ns (om_name (meta o1))" w])
    case (ok a x)
    then have "ensure ns o1 w = (Ok (), w\<lparr>w_ext := x\<rparr>)" by (intro ensure_present) (simp add: get_ext)
    then show ?thesis using that(1) by (auto simp: extOnly_def)
  next
    case (fail e x)
    then have get: "get ns (om_name (meta o1)) w = (Fail e, w\<lparr>w_ext := x\<rparr>)" by (simp add: get_ext)
    show ?thesis
    proof (cases "IsNotFound e")
      case True
      then show ?thesis
        using ensure_absent [OF get] create [of "w\<lparr>w_ext := x\<rparr>"] that trans by (metis (no_types))
    next
      case False
      then show ?thesis using ensure_error [OF get] that(2) by (auto simp: extOnly_def)
    qed
  qed
qed

lemma ensure_stores:
  assumes laws: "api_laws kc meta store" and ns: "om_namespace (meta o1) = ns"
    and run: "ensure ns o1 w = (Ok (), w')"
  shows "\<exists>o2. store (w_ext w') = (store (w_ext w))(metaKey (meta o1) \<mapsto> o2)
     \<and> (\<forall>o3. store (w_ext w) (metaKey (meta o1)) = Some o3 \<longrightarrow> o2 = o3)"
proof (cases rule: extG_cases [of "kc_Get kc ns (om_name (meta o1))" w])
  case (ok o2 x)
  then have "w' = w\<lparr>w_ext := x\<rparr>" using ensure_present [of ns o1 w] run by (simp add: get_ext)
  moreover have "store x = store (w_ext w)" "store (w_ext w) (metaKey (meta o1)) = Some o2"
    using api_lawsD(1,2) [OF laws] ok(1) ns by (auto simp: metaKey_def)
  ultimately show ?thesis by (intro exI [of _ o2]) auto
next
  case (fail e x)
  then have get: "get ns (om_name (meta o1)) w = (Fail e, w\<lparr>w_ext := x\<rparr>)" by (simp add: get_ext)
  have nf: "IsNotFound e" using ensure_error [OF get] run by auto
  have same: "store x = store (w_ext w)" by (rule api_lawsD(1) [OF laws fail(1)])
  obtain o2 where "kc_Create kc o1 x = (Inr o2, w_ext w')"
    using ensure_absent [OF get nf] run by (auto simp: create_ext split: prod.splits sum.splits)
  from api_lawsD(4) [OF laws this] same show ?thesis by auto
qed

end

lemmas wrapper_defs = getObj_def createObj_def updateObj_def deleteObj_def
  GetService_def CreateService_def UpdateService_def CreateIfNotExistsService_def
  GetConfigMap_def CreateConfigMap_def UpdateConfigMap_def CreateIfNotExistsConfigMap_def
  GetStatefulSet_def CreateStatefulSet_def UpdateStatefulSet_def CreateIfNotExistsStatefulSet_def
  GetPodDisruptionBudget_def CreatePodDisruptionBudget_def UpdatePodDisruptionBudget_def
  CreateIfNotExistsPodDisruptionBudget_def

lemma createObj_run:
  "createObj kc ns o1 w = (case kc_Create kc o1 (w_ext w) of
     (Inl e, x) \<Rightarrow> (Fail e, w\<lparr>w_ext := x\<rparr>) | (Inr o2, x) \<Rightarrow> (Ok (), w\<lparr>w_ext := x\<rparr>))"
  by (simp add: createObj_def bindG_def tryG_def extG_def split: prod.splits sum.splits)

interpretation svc: object_client "E_services E" svc_meta "GetService E" "CreateService E"
    "CreateIfNotExistsService E" for E
  by unfold_locales (simp_all add: GetService_def getObj_def CreateService_def createObj_run
      CreateIfNotExistsService_def tryG_run)

interpretation cmap: object_client "E_configMaps E" cm_meta "GetConfigMap E" "CreateConfigMap E"
    "CreateIfNotExistsConfigMap E" for E
  by unfold_locales (simp_all add: GetConfigMap_def getObj_def CreateConfigMap_def createObj_run
      CreateIfNotExistsConfigMap_def tryG_run)

interpretation sset: object_client "E_statefulSets E" ss_meta "GetStatefulSet E" "CreateStatefulSet E"
    "CreateIfNotExistsStatefulSet E" for E
  by unfold_locales (simp_all add: GetStatefulSet_def getObj_def CreateStatefulSet_def createObj_run
      CreateIfNotExistsStatefulSet_def tryG_run)

interpretation pdb: object_client "E_pdbs E" pdb_meta "GetPodDisruptionBudget E"
    "CreatePodDisruptionBudget E" "CreateIfNotExistsPodDisruptionBudget E" for E
  by unfold_locales (simp_all add: GetPodDisruptionBudget_def getObj_def CreatePodDisruptionBudget_def
      createObj_run CreateIfNotExistsPodDisruptionBudget_def tryG_run)

subsection \<open>Frames of the wrappers\<close>

lemma keeps_extOnly_comb [go_keeps]:
  "keeps extOnly m \<Longrightarrow> (\<And>a. keeps extOnly (k a)) \<Longrightarrow> keeps extOnly (bindG m k)"
  "keeps extOnly m \<Longrightarrow> (\<And>e. keeps extOnly (h e)) \<Longrightarrow> (\<And>a. keeps extOnly (k a)) \<Longrightarrow>
     keeps extOnly (tryG m h k)"
  "keeps extOnly m \<Longrightarrow> keeps extOnly n \<Longrightarrow> keeps extOnly (seqG m n)"
  "keeps extOnly (retG a)" "keeps extOnly (failG e)" "keeps extOnly (derefG q)" "keeps extOnly (indexG xs i)"
  by (intro keeps_bindG keeps_tryG keeps_seqG keeps_leaf extOnly_order | assumption)+

lemma wrappers_extOnly [go_keeps]:
  "keeps extOnly (GetService E ns n)" "keeps extOnly (CreateService E ns o1)"
  "keeps extOnly (CreateIfNotExistsService E ns o1)" "keeps extOnly (DeleteService E ns n)"
  "keeps extOnly (GetConfigMap E ns n)" "keeps extOnly (CreateIfNotExistsConfigMap E ns o2)"
  "keeps extOnly (GetStatefulSet E ns n)" "keeps extOnly (CreateStatefulSet E ns o3)"
  "keeps extOnly (UpdateStatefulSet E ns o3)" "keeps extOnly (CreateIfNotExistsPodDisruptionBudget E ns o4)"
  "keeps extOnly (GetStatefulSetPods E ns n)" "keeps extOnly (nowG E)" "keeps extOnly (sleepG E d)"
  "keeps extOnly (rangeG E m)"
  unfolding wrapper_defs DeleteService_def GetStatefulSetPods_def nowG_def sleepG_def rangeG_def
  by (intro keeps_extOnly_comb keeps_if extOnly_ext)+

text \<open>
  \<open>CreateIfNotExistsService\<close> against an API server that keeps its documented promises:
  when it returns without error a service of the requested name exists, one that existed
  before is left as it was, and no other service is touched; it never panics, and apart
  from the API server nothing changes.
\<close>

lemma CreateIfNotExistsService_contract:
  assumes "api_laws (E_services E) svc_meta store" and "om_namespace (svc_meta s) = ns"
  shows "\<exists>r w'. CreateIfNotExistsService E ns s w = (r, w') \<and> w' = w\<lparr>w_ext := w_ext w'\<rparr> \<and>
     (case r of
        Ok _ \<Rightarrow> \<exists>s'. store (w_ext w') = (store (w_ext w))((ns, om_name (svc_meta s)) \<mapsto> s')
                  \<and> (\<forall>s0. store (w_ext w) (ns, om_name (svc_meta s)) = Some s0 \<longrightarrow> s' = s0)
      | Fail e \<Rightarrow> True | Panic p \<Rightarrow> False | Diverge \<Rightarrow> False)"
proof (cases rule: svc.ensure_returns [of E ns s w])
  case (ok w')
  then show ?thesis
    using svc.ensure_stores [OF assms ok(1)] assms(2) by (auto simp: extOnly_def metaKey_def)
next
  case (fail e w')
  then show ?thesis by (auto simp: extOnly_def)
qed

end
