(* ===== verification/Redis_Client.thy ===== *)
theory Redis_Client
  imports Memory_Api
begin

text \<open>
  Package \<open>pkg/client/redis\<close>: the commands the operator sends to Redis and Sentinel and the
  parsing of their replies. A command is the list of its words on a connection given by
  address and password; go-redis, which sends it, is part of the environment \<open>E\<close>. A failed
  type assertion or index on a reply panics, as in Go.
\<close>

subsection \<open>Constants and replies\<close>

definition redisRoleMaster :: string where "redisRoleMaster = ''role:master''"
definition redisPort :: string where "redisPort = ''6379''"
definition sentinelPort :: string where "sentinelPort = ''26379''"
definition masterName :: string where "masterName = ''mymaster''"
definition defaultDownAfterMilliseconds :: string where "defaultDownAfterMilliseconds = ''5000''"
definition defaultFailovertimeout :: string where "defaultFailovertimeout = ''3000''"
definition defaultParallelSyncs :: string where "defaultParallelSyncs = ''2''"

definition sentinelNumberRE :: "string \<Rightarrow> string option" where
  "sentinelNumberRE = FindSubmatch ''sentinels='' isDigit"

definition sentinelStatusRE :: "string \<Rightarrow> string option" where
  "sentinelStatusRE = FindSubmatch ''status='' isLower"

definition redisMasterHostRE :: "string \<Rightarrow> string option" where
  "redisMasterHostRE = FindSubmatch ''master_host:'' isHostChar"

definition asString :: "RedisValue \<Rightarrow> ('s, string) go" where
  "asString v = (case v of RString s \<Rightarrow> retG s | _ \<Rightarrow> panicG ''interface conversion: not a string'')"

definition asSlice :: "RedisValue \<Rightarrow> ('s, RedisValue list) go" where
  "asSlice v = (case v of RSlice vs \<Rightarrow> retG vs | _ \<Rightarrow> panicG ''interface conversion: not a slice'')"

text \<open>The loop of \<open>slaveInfoFieldByName\<close>, two elements at a time.\<close>

fun slaveInfoLoop :: "string \<Rightarrow> RedisValue list \<Rightarrow> ('s, string) go" where
  "slaveInfoLoop name (k # v # rest) =
     bindG (asString k) (\<lambda>stringValue.
       if stringValue = name then asString v else slaveInfoLoop name rest)"
| "slaveInfoLoop name xs = retG []"

definition slaveInfoFieldByName :: "string \<Rightarrow> RedisValue \<Rightarrow> ('s, string) go" where
  "slaveInfoFieldByName name blob = bindG (asSlice blob) (slaveInfoLoop name)"

definition isSentinelReady :: "string \<Rightarrow> GoErr option" where
  "isSentinelReady info =
     (case sentinelStatusRE info of
        None \<Rightarrow> Some (ErrorString ''sentinel not ready'')
      | Some st \<Rightarrow> if st \<noteq> ''ok'' then Some (ErrorString ''sentinel not ready'') else None)"

definition guardG :: "GoErr option \<Rightarrow> ('s, unit) go" where
  "guardG e = (case e of None \<Rightarrow> skipG | Some err \<Rightarrow> failG err)"

definition resultG :: "GoErr + 'a \<Rightarrow> ('s, 'a) go" where
  "resultG r = (case r of Inl e \<Rightarrow> failG e | Inr a \<Rightarrow> retG a)"

definition getConfigParameters :: "string \<Rightarrow> GoErr + string \<times> string" where
  "getConfigParameters config =
     (let s = Split (CHR '' '') config in
      if length s < 2 then Inl (ErrorString (''configuration '' @ [CHR 0x27] @ config @ [CHR 0x27] @ '' malformed''))
      else Inr (s ! 0, Join (drop 1 s) '' ''))"

definition setOptions :: "string \<Rightarrow> string \<Rightarrow> AuthConfig \<Rightarrow> Options" where
  "setOptions ip port auth =
     (let passwd = (if port = sentinelPort then [] else Password auth) in
      \<lparr>Addr = JoinHostPort ip port, opt_Password = passwd\<rparr>)"

subsection \<open>Queries\<close>

definition GetNumberSentinelsInMemory :: "'e env \<Rightarrow> string \<Rightarrow> AuthConfig \<Rightarrow> ('e, int32) op" where
  "GetNumberSentinelsInMemory E ip auth =
     bindG (extG (E_stringCmd E (setOptions ip sentinelPort auth) [''info'', ''sentinel''])) (\<lambda>info.
     seqG (guardG (isSentinelReady info))
       (case sentinelNumberRE info of
          None \<Rightarrow> failG (ErrorString ''seninel regex not found'')
        | Some m \<Rightarrow> bindG (resultG (Atoi m)) (\<lambda>n. retG (word_of_int n))))"

definition countSlave :: "RedisValue \<Rightarrow> int \<Rightarrow> ('e, int) op" where
  "countSlave blob nSlaves =
     bindG (slaveInfoFieldByName ''slave-priority'' blob) (\<lambda>slavePriority.
       retG (if slavePriority = ''0'' then nSlaves - 1 else nSlaves))"

definition GetNumberSentinelSlavesInMemory :: "'e env \<Rightarrow> string \<Rightarrow> AuthConfig \<Rightarrow> ('e, int32) op" where
  "GetNumberSentinelSlavesInMemory E ip auth =
     bindG (extG (E_stringCmd E (setOptions ip sentinelPort auth) [''info'', ''sentinel''])) (\<lambda>info.
     seqG (guardG (isSentinelReady info))
    (bindG (extG (E_sliceCmd E (setOptions ip sentinelPort auth) [''sentinel'', ''slaves'', masterName])) (\<lambda>blobs.
     bindG (foldG countSlave blobs (int (length blobs))) (\<lambda>nSlaves.
     retG (word_of_int nSlaves)))))"

definition GetSlaveMasterIP :: "'e env \<Rightarrow> string \<Rightarrow> AuthConfig \<Rightarrow> ('e, string) op" where
  "GetSlaveMasterIP E ip auth =
     bindG (extG (E_stringCmd E (setOptions ip redisPort auth) [''info'', ''replication''])) (\<lambda>info.
       retG (case redisMasterHostRE info of None \<Rightarrow> [] | Some m \<Rightarrow> m))"

definition IsMaster :: "'e env \<Rightarrow> string \<Rightarrow> AuthConfig \<Rightarrow> ('e, bool) op" where
  "IsMaster E ip auth =
     bindG (extG (E_stringCmd E (setOptions ip redisPort auth) [''info'', ''replication''])) (\<lambda>info.
       retG (Contains info redisRoleMaster))"

definition GetSentinelMonitor :: "'e env \<Rightarrow> string \<Rightarrow> AuthConfig \<Rightarrow> ('e, string) op" where
  "GetSentinelMonitor E ip auth =
     bindG (extG (E_sliceCmd E (setOptions ip sentinelPort auth) [''SENTINEL'', ''master'', masterName])) (\<lambda>res.
     bindG (indexG res 3) asString)"

fun configPairs :: "RedisValue list \<Rightarrow> (string, string) fmap \<Rightarrow> ('s, (string, string) fmap) go" where
  "configPairs [] valMap = retG valMap"
| "configPairs [k] valMap = bindG (asString k) (\<lambda>_. panicG ''index out of range'')"
| "configPairs (k # v # rest) valMap =
     bindG (asString k) (\<lambda>ks. bindG (asString v) (\<lambda>vs. configPairs rest (fmupd ks vs valMap)))"

definition GetAllRedisConfig :: "'e env \<Rightarrow> Options \<Rightarrow> ('e, (string, string) fmap) op" where
  "GetAllRedisConfig E rClient =
     bindG (extG (E_sliceCmd E rClient [''config'', ''get'', ''*''])) (\<lambda>val. configPairs val fmempty)"

subsection \<open>Commands\<close>

definition ResetSentinel :: "'e env \<Rightarrow> string \<Rightarrow> AuthConfig \<Rightarrow> ('e, unit) op" where
  "ResetSentinel E ip auth =
     bindG (extG (E_intCmd E (setOptions ip sentinelPort auth) [''SENTINEL'', ''reset'', ''*''])) (\<lambda>_. skipG)"

definition sentinelSet :: "'e env \<Rightarrow> Options \<Rightarrow> string \<Rightarrow> string \<Rightarrow> string \<Rightarrow> ('e, unit) op" where
  "sentinelSet E opt verb parameter value =
     bindG (extG (E_statusCmd E opt [''SENTINEL'', verb, masterName, parameter, value])) (\<lambda>_. skipG)"

definition MonitorRedis :: "'e env \<Rightarrow> string \<Rightarrow> string \<Rightarrow> string \<Rightarrow> AuthConfig \<Rightarrow> ('e, unit) op" where
  "MonitorRedis E ip monitor quorum auth =
     (let opt = setOptions ip sentinelPort auth in
      seqG (tryG (extG (E_boolCmd E opt [''SENTINEL'', ''REMOVE'', masterName])) (\<lambda>_. skipG) (\<lambda>_. skipG))
     (seqG (extG (E_boolCmd E opt [''SENTINEL'', ''MONITOR'', masterName, monitor, redisPort, quorum]))
     (seqG (if Password auth \<noteq> [] then sentinelSet E opt ''SET'' ''auth-pass'' (Password auth) else skipG)
     (seqG (sentinelSet E opt ''SET'' ''down-after-milliseconds'' defaultDownAfterMilliseconds)
     (seqG (sentinelSet E opt ''SET'' ''failover-timeout'' defaultFailovertimeout)
           (sentinelSet E opt ''SET'' ''parallel-syncs'' defaultParallelSyncs))))))"

definition MakeMaster :: "'e env \<Rightarrow> string \<Rightarrow> AuthConfig \<Rightarrow> ('e, unit) op" where
  "MakeMaster E ip auth =
     bindG (extG (E_statusCmd E (setOptions ip redisPort auth) [''slaveof'', ''NO'', ''ONE''])) (\<lambda>_. skipG)"

definition MakeSlaveOf :: "'e env \<Rightarrow> string \<Rightarrow> string \<Rightarrow> AuthConfig \<Rightarrow> ('e, unit) op" where
  "MakeSlaveOf E ip masterIP auth =
     bindG (extG (E_statusCmd E (setOptions ip redisPort auth) [''slaveof'', masterIP, redisPort])) (\<lambda>_. skipG)"

definition applySentinelConfig :: "'e env \<Rightarrow> string \<Rightarrow> string \<Rightarrow> Options \<Rightarrow> ('e, unit) op" where
  "applySentinelConfig E parameter value rClient = sentinelSet E rClient ''set'' parameter value"

definition applyRedisConfig :: "'e env \<Rightarrow> string \<Rightarrow> string \<Rightarrow> Options \<Rightarrow> ('e, unit) op" where
  "applyRedisConfig E parameter value rClient =
     bindG (extG (E_statusCmd E rClient [''config'', ''set'', parameter, value])) (\<lambda>_. skipG)"

definition SetCustomSentinelConfig :: "'e env \<Rightarrow> string \<Rightarrow> string list \<Rightarrow> AuthConfig \<Rightarrow> ('e, unit) op" where
  "SetCustomSentinelConfig E ip configs auth =
     forG (\<lambda>config. bindG (resultG (getConfigParameters config)) (\<lambda>(param, value).
             applySentinelConfig E param value (setOptions ip sentinelPort auth))) configs"

definition SetCustomRedisConfig :: "'e env \<Rightarrow> string \<Rightarrow> strmap \<Rightarrow> AuthConfig \<Rightarrow> ('e, unit) op" where
  "SetCustomRedisConfig E ip configs auth =
     bindG (rangeG E configs) (\<lambda>kvs.
       forG (\<lambda>(param, value). applyRedisConfig E param value (setOptions ip redisPort auth)) kvs)"

subsection \<open>Parsing\<close>

lemma Split_head:
  assumes "sep \<notin> set w"
  shows "Split sep (w @ sep # rest) = w # Split sep rest"
  using assms by (induction w) auto

lemma Split_single: "sep \<notin> set s \<Longrightarrow> Split sep s = [s]"
  by (induction s) auto

lemma Split_length: "length (Split sep s) < 2 \<longleftrightarrow> sep \<notin> set s"
proof
  assume "sep \<notin> set s"
  then show "length (Split sep s) < 2" by (simp add: Split_single)
next
  assume short: "length (Split sep s) < 2"
  show "sep \<notin> set s"
  proof
    assume "sep \<in> set s"
    then obtain w rest where "s = w @ sep # rest" "sep \<notin> set w" by (auto dest: split_list_first)
    with short show False by (simp add: Split_head)
  qed
qed

text \<open>
  C34. A sentinel configuration line is split at its first space: printing a parameter without
  spaces, a space and any value, and reading the line back returns the two; a line is
  rejected exactly when it contains no space.
\<close>

theorem getConfigParameters_roundtrip:
  "(if CHR '' '' \<in> set config
    then \<exists>p v. config = p @ '' '' @ v \<and> CHR '' '' \<notin> set p \<and> getConfigParameters config = Inr (p, v)
    else \<exists>e. getConfigParameters config = Inl e)"
proof (cases "CHR '' '' \<in> set config")
  case True
  then obtain p v where c: "config = p @ CHR '' '' # v" "CHR '' '' \<notin> set p"
    by (auto dest: split_list_first)
  then have "getConfigParameters config = Inr (p, v)"
    using Join_Split [of "CHR '' ''" v] by (simp add: getConfigParameters_def Split_head)
  with c True show ?thesis by auto
next
  case False
  then show ?thesis using Split_length [of "CHR '' ''" config] by (simp add: getConfigParameters_def Let_def)
qed

lemma FindSubmatch_first:
  assumes "pre \<noteq> []" and "\<forall>i < length before. \<not> prefix pre (drop i (before @ pre @ h @ after))"
    and "h \<noteq> []" and "list_all cls h" and "after = [] \<or> \<not> cls (hd after)"
  shows "FindSubmatch pre cls (before @ pre @ h @ after) = Some h"
  using assms(2)
proof (induction before)
  case Nil
  have "takeWhile cls (h @ after) = h"
  proof -
    have "takeWhile cls after = []" using assms(5) by (cases after) auto
    then show ?thesis using assms(4) by (simp add: takeWhile_append2 list_all_iff)
  qed
  moreover obtain c cs where "pre = c # cs" using assms(1) by (cases pre) auto
  ultimately show ?case using assms(3) by simp
next
  case (Cons b before)
  have "\<not> prefix pre (b # before @ pre @ h @ after)" using Cons.prems [rule_format, of 0] by simp
  moreover have "\<forall>i < length before. \<not> prefix pre (drop i (before @ pre @ h @ after))"
    using Cons.prems by (metis Suc_less_eq append_Cons drop_Suc_Cons length_Cons)
  ultimately show ?case using Cons.IH by (simp del: append_assoc)
qed

lemma FindSubmatch_absent: "\<not> sublist pre s \<Longrightarrow> FindSubmatch pre cls s = None"
  by (metis FindSubmatch_sound not_None_eq sublist_order.order.trans sublist_append_rightI)

text \<open>Replies that list fields and values, as Redis sends them.\<close>

definition fieldReply :: "(string \<times> string) list \<Rightarrow> RedisValue list" where
  "fieldReply kvs = concat (map (\<lambda>(k, v). [RString k, RString v]) kvs)"

lemma asString_RString [simp]: "asString (RString s) = retG s" "asSlice (RSlice vs) = retG vs"
  by (simp_all add: asString_def asSlice_def)

lemma bind_ret [simp]: "bindG (retG a) k = k a"
  by (simp add: fun_eq_iff bindG_run)

lemma slaveInfoLoop_reply:
  "slaveInfoLoop name (fieldReply kvs) = retG (case map_of kvs name of None \<Rightarrow> [] | Some v \<Rightarrow> v)"
  by (induction kvs) (auto simp: fieldReply_def split: prod.splits)

lemma configPairs_reply:
  "configPairs (fieldReply kvs) m = retG (foldl (\<lambda>m (k, v). fmupd k v m) m kvs)"
  by (induction kvs arbitrary: m) (auto simp: fieldReply_def split: prod.splits)

lemma foldl_fmupd_lookup:
  "fmlookup (foldl (\<lambda>m (k, v). fmupd k v m) m kvs) k =
     (case map_of (rev kvs) k of Some v \<Rightarrow> Some v | None \<Rightarrow> fmlookup m k)"
proof (induction kvs arbitrary: m)
  case (Cons kv kvs)
  then show ?case by (cases kv) (auto simp: map_add_def split: option.splits)
qed simp

lemma countSlave_reply:
  "countSlave (RSlice (fieldReply kvs)) n = retG (if map_of kvs ''slave-priority'' = Some ''0'' then n - 1 else n)"
  by (auto simp: countSlave_def slaveInfoFieldByName_def slaveInfoLoop_reply simp del: retG_run split: option.splits)

lemma countSlaves_reply:
  "foldG countSlave (map (\<lambda>kvs. RSlice (fieldReply kvs)) blobs) n =
     retG (n - int (length (filter (\<lambda>kvs. map_of kvs ''slave-priority'' = Some ''0'') blobs)))"
  by (induction blobs arbitrary: n) (simp_all add: countSlave_reply algebra_simps del: retG_run)

text \<open>
  C32. A sentinel that reports itself ready is asked for the replicas it knows, and the
  number returned is the number of replicas whose \<open>slave-priority\<close> is not zero, as a 32-bit
  integer.
\<close>

theorem GetNumberSentinelSlavesInMemory_counts:
  assumes "opt = setOptions ip sentinelPort auth"
    and "E_stringCmd E opt [''info'', ''sentinel''] (w_ext w) = (Inr info, x)"
    and "isSentinelReady info = None"
    and "E_sliceCmd E opt [''sentinel'', ''slaves'', ''mymaster''] x =
           (Inr (map (\<lambda>kvs. RSlice (fieldReply kvs)) blobs), y)"
  shows "GetNumberSentinelSlavesInMemory E ip auth w =
     (Ok (word_of_nat (length (filter (\<lambda>kvs. map_of kvs ''slave-priority'' \<noteq> Some ''0'') blobs))),
      w\<lparr>w_ext := y\<rparr>)"
proof -
  have count: "int (length blobs) - int (length (filter (\<lambda>kvs. map_of kvs ''slave-priority'' = Some ''0'') blobs))
      = int (length (filter (\<lambda>kvs. map_of kvs ''slave-priority'' \<noteq> Some ''0'') blobs))"
    using sum_length_filter_compl [of "\<lambda>kvs. map_of kvs ''slave-priority'' = Some ''0''" blobs] by simp
  show ?thesis
    using assms
    by (simp add: GetNumberSentinelSlavesInMemory_def bindG_run seqG_run extG_def guardG_def masterName_def
        countSlaves_reply count of_int_of_nat_eq)
qed

text \<open>An environment whose Sentinel reports two replicas, one of them with priority zero.\<close>

definition twoSlavesEnv :: "memApi env" where
  "twoSlavesEnv = memEnv\<lparr>
     E_stringCmd := (\<lambda>opt args x. (Inr ''status=ok'', x)),
     E_sliceCmd := (\<lambda>opt args x. (Inr (map (\<lambda>kvs. RSlice (fieldReply kvs))
        [[(''slave-priority'', ''0'')], [(''name'', ''b''), (''slave-priority'', ''1'')]]), x))\<rparr>"

theorem GetNumberSentinelSlavesInMemory_counts_witness:
  "GetNumberSentinelSlavesInMemory twoSlavesEnv ''10.0.0.1'' \<lparr>Password = []\<rparr> (initWorld emptyMem) =
     (Ok 1, initWorld emptyMem)"
proof -
  have "isSentinelReady ''status=ok'' = None"
    by (simp add: isSentinelReady_def sentinelStatusRE_def isLower_def)
  then show ?thesis
    using GetNumberSentinelSlavesInMemory_counts [of _ "''10.0.0.1''" "\<lparr>Password = []\<rparr>" twoSlavesEnv
        "initWorld emptyMem" "''status=ok''" emptyMem
        "[[(''slave-priority'', ''0'')], [(''name'', ''b''), (''slave-priority'', ''1'')]]" emptyMem]
    by (simp add: twoSlavesEnv_def initWorld_def)
qed

text \<open>
  C33. The configuration read from Redis maps each parameter of the reply to its value (the
  last one when a parameter is repeated) and has no other parameter; a reply with a
  parameter and no value makes the operator panic.
\<close>

theorem GetAllRedisConfig_reads:
  assumes "E_sliceCmd E opt [''config'', ''get'', ''*''] (w_ext w) = (Inr (fieldReply kvs @ rest), x)"
    and "rest = [] \<or> (\<exists>k. rest = [RString k])"
  shows "(if rest = []
     then \<exists>m. GetAllRedisConfig E opt w = (Ok m, w\<lparr>w_ext := x\<rparr>) \<and> (\<forall>k. fmlookup m k = map_of (rev kvs) k)
     else GetAllRedisConfig E opt w = (Panic ''index out of range'', w\<lparr>w_ext := x\<rparr>))"
proof (cases "rest = []")
  case True
  have "fmlookup (foldl (\<lambda>m (k, v). fmupd k v m) fmempty kvs) k = map_of (rev kvs) k" for k
    by (simp add: foldl_fmupd_lookup split: option.split)
  then show ?thesis
    using assms(1) True by (simp add: GetAllRedisConfig_def bindG_run extG_def configPairs_reply)
next
  case False
  have odd: "configPairs (fieldReply kvs @ [RString k]) m = panicG ''index out of range''" for k m
    by (induction kvs arbitrary: m) (auto simp: fieldReply_def simp del: panicG_run split: prod.splits)
  show ?thesis
    using False assms by (auto simp: GetAllRedisConfig_def bindG_run extG_def odd)
qed

theorem GetAllRedisConfig_reads_witness:
  "\<exists>m. GetAllRedisConfig (memEnv\<lparr>E_sliceCmd := (\<lambda>opt args x. (Inr (fieldReply [(''save'', ''60 1'')]), x))\<rparr>)
         \<lparr>Addr = [], opt_Password = []\<rparr> (initWorld emptyMem) = (Ok m, initWorld emptyMem)
     \<and> fmlookup m ''save'' = Some ''60 1''"
  using GetAllRedisConfig_reads [of
      "memEnv\<lparr>E_sliceCmd := (\<lambda>opt args x. (Inr (fieldReply [(''save'', ''60 1'')]), x))\<rparr>"
      "\<lparr>Addr = [], opt_Password = []\<rparr>" "initWorld emptyMem" "[(''save'', ''60 1'')]" "[]" emptyMem]
  by (auto simp: initWorld_def)

subsection \<open>Hypotheses on Redis\<close>

text \<open>
  \<open>roleReply info h\<close> says that \<open>info\<close> is the text with which a server reports its
  replication state: a master reports its role and names no master host; a replica of \<open>h\<close>
  does not report the role of a master and names \<open>h\<close> as its master host, once.
\<close>

definition roleReply :: "string \<Rightarrow> string \<Rightarrow> bool" where
  "roleReply info h \<longleftrightarrow>
     (if h = [] then sublist ''role:master'' info \<and> \<not> sublist ''master_host:'' info
      else \<not> sublist ''role:master'' info \<and> list_all isHostChar h \<and>
        (\<exists>before after. info = before @ ''master_host:'' @ h @ after
           \<and> (\<forall>i < length before. \<not> prefix ''master_host:'' (drop i info))
           \<and> (after = [] \<or> \<not> isHostChar (hd after))))"

text \<open>
  \<open>redis_laws E role\<close>: \<open>role x a\<close> is the host that the server at address \<open>a\<close> replicates, empty
  for a master. A successful \<open>SLAVEOF\<close> changes the role of the server it is sent to and of no
  other; \<open>INFO replication\<close> reports the role and changes none.
\<close>

definition redis_laws :: "'e env \<Rightarrow> ('e \<Rightarrow> string \<Rightarrow> string) \<Rightarrow> bool" where
  "redis_laws E role \<longleftrightarrow>
     (\<forall>opt x r y. E_statusCmd E opt [''slaveof'', ''NO'', ''ONE''] x = (Inr r, y) \<longrightarrow>
        role y = (role x)(Addr opt := [])) \<and>
     (\<forall>opt h p x r y. h \<noteq> ''NO'' \<and> E_statusCmd E opt [''slaveof'', h, p] x = (Inr r, y) \<longrightarrow>
        role y = (role x)(Addr opt := h)) \<and>
     (\<forall>opt x r y. E_stringCmd E opt [''info'', ''replication''] x = (r, y) \<longrightarrow> role y = role x \<and>
        (\<forall>info. r = Inr info \<longrightarrow> roleReply info (role x (Addr opt))))"

abbreviation redisAddr :: "string \<Rightarrow> string" where
  "redisAddr ip \<equiv> JoinHostPort ip redisPort"

lemma setOptions_Addr [simp]: "Addr (setOptions ip port auth) = JoinHostPort ip port"
  by (simp add: setOptions_def Let_def)

lemma roleReply_master: "roleReply info h \<Longrightarrow> Contains info redisRoleMaster \<longleftrightarrow> h = []"
  by (auto simp: roleReply_def redisRoleMaster_def split: if_splits)

lemma roleReply_host:
  "roleReply info h \<Longrightarrow> (case redisMasterHostRE info of None \<Rightarrow> [] | Some m \<Rightarrow> m) = h"
proof (cases "h = []")
  case True
  moreover assume "roleReply info h"
  ultimately show ?thesis by (simp add: roleReply_def redisMasterHostRE_def FindSubmatch_absent)
next
  case False
  assume "roleReply info h"
  with False obtain before after where r: "info = before @ ''master_host:'' @ h @ after"
    "\<forall>i < length before. \<not> prefix ''master_host:'' (drop i info)"
    "list_all isHostChar h" "after = [] \<or> \<not> isHostChar (hd after)"
    unfolding roleReply_def if_not_P [OF False] by blast
  have "FindSubmatch ''master_host:'' isHostChar (before @ ''master_host:'' @ h @ after) = Some h"
    by (rule FindSubmatch_first) (use r False in \<open>simp_all del: append_Cons append_Nil\<close>)
  then show ?thesis unfolding redisMasterHostRE_def r(1) by simp
qed

lemma redis_laws_info:
  assumes "redis_laws E role" and "E_stringCmd E opt [''info'', ''replication''] x = (Inr info, y)"
  shows "role y = role x" and "roleReply info (role x (Addr opt))"
  using assms(1) [unfolded redis_laws_def, THEN conjunct2, THEN conjunct2, rule_format, OF assms(2)]
  by simp_all

lemma MakeMaster_Ok:
  assumes "redis_laws E role" and "MakeMaster E ip auth w = (Ok u, w')"
  shows "role (w_ext w') = (role (w_ext w))(redisAddr ip := [])"
  using assms by (auto simp: redis_laws_def MakeMaster_def bindG_Ok_iff extG_Ok_iff)

lemma MakeSlaveOf_Ok:
  assumes "redis_laws E role" and "MakeSlaveOf E ip m auth w = (Ok u, w')" and "m \<noteq> ''NO''"
  shows "role (w_ext w') = (role (w_ext w))(redisAddr ip := m)"
  using assms by (auto simp: redis_laws_def MakeSlaveOf_def bindG_Ok_iff extG_Ok_iff)

lemma IsMaster_Ok:
  assumes "redis_laws E role" and "IsMaster E ip auth w = (Ok b, w')"
  shows "role (w_ext w') = role (w_ext w)" and "b \<longleftrightarrow> role (w_ext w) (redisAddr ip) = []"
proof -
  obtain info where info: "E_stringCmd E (setOptions ip redisPort auth) [''info'', ''replication''] (w_ext w)
      = (Inr info, w_ext w')" "b = Contains info redisRoleMaster"
    using assms(2) by (auto simp: IsMaster_def bindG_Ok_iff extG_Ok_iff)
  show "role (w_ext w') = role (w_ext w)" "b \<longleftrightarrow> role (w_ext w) (redisAddr ip) = []"
    using redis_laws_info [OF assms(1) info(1)] info(2) by (auto dest: roleReply_master)
qed

lemma GetSlaveMasterIP_Ok:
  assumes "redis_laws E role" and "GetSlaveMasterIP E ip auth w = (Ok m, w')"
  shows "role (w_ext w') = role (w_ext w)" and "m = role (w_ext w) (redisAddr ip)"
proof -
  obtain info where info: "E_stringCmd E (setOptions ip redisPort auth) [''info'', ''replication''] (w_ext w)
      = (Inr info, w_ext w')" "m = (case redisMasterHostRE info of None \<Rightarrow> [] | Some h \<Rightarrow> h)"
    using assms(2) by (auto simp: GetSlaveMasterIP_def bindG_Ok_iff extG_Ok_iff)
  show "role (w_ext w') = role (w_ext w)" "m = role (w_ext w) (redisAddr ip)"
    using redis_laws_info [OF assms(1) info(1)] info(2) by (auto dest: roleReply_host)
qed

lemma redis_client_extOnly [go_keeps]:
  "keeps extOnly (MakeMaster E ip auth)" "keeps extOnly (MakeSlaveOf E ip m auth)"
  "keeps extOnly (IsMaster E ip auth)" "keeps extOnly (GetSlaveMasterIP E ip auth)"
  "keeps extOnly (ResetSentinel E ip auth)"
  unfolding MakeMaster_def MakeSlaveOf_def IsMaster_def GetSlaveMasterIP_def ResetSentinel_def
  by (intro keeps_extOnly_comb extOnly_ext)+

text \<open>The concrete world obeys these laws.\<close>

definition memRole :: "memApi \<Rightarrow> string \<Rightarrow> string" where
  "memRole x a = (case map_of (ma_masters x) a of None \<Rightarrow> [] | Some m \<Rightarrow> if goodHost m then m else [])"

lemma memEnv_cmds:
  "E_statusCmd memEnv = memStatusCmd" "E_stringCmd memEnv opt args x = (Inr (memInfo (Addr opt) x), x)"
  by (simp_all only: memEnv_def env.select_convs)

lemma memInfo_role: "roleReply (memInfo a x) (memRole x a)"
proof -
  have "roleReply ''role:master'' []" by (simp add: roleReply_def sublist_Cons_right)
  moreover have "roleReply (''role:slave master_host:'' @ m) m" if m: "goodHost m" for m
  proof -
    have "\<not> prefix ''master_host:'' (drop i (''role:slave '' @ ''master_host:'' @ m))" if "i < 11" for i
    proof -
      have "i = 0 \<or> i = 1 \<or> i = 2 \<or> i = 3 \<or> i = 4 \<or> i = 5 \<or> i = 6 \<or> i = 7 \<or> i = 8 \<or> i = 9 \<or> i = 10"
        using that by presburger
      then show ?thesis by (elim disjE) simp_all
    qed
    then have "\<exists>before after. ''role:slave master_host:'' @ m = before @ ''master_host:'' @ m @ after
        \<and> (\<forall>i < length before. \<not> prefix ''master_host:'' (drop i (''role:slave master_host:'' @ m)))
        \<and> (after = [] \<or> \<not> isHostChar (hd after))"
      by (intro exI [of _ "''role:slave ''"] exI [of _ "[]"]) simp
    then show ?thesis using m by (simp add: roleReply_def goodHost_def)
  qed
  ultimately show ?thesis by (auto simp: memInfo_def memRole_def split: option.split)
qed

lemma map_of_filter_other: "map_of (filter (\<lambda>(a, m). a \<noteq> b) xs) = (map_of xs)(b := None)"
  by (induction xs) auto

lemma memEnv_redis: "redis_laws memEnv memRole"
proof -
  have no: "memRole y = (memRole x)(Addr opt := [])"
    if "memStatusCmd opt [''slaveof'', ''NO'', ''ONE''] x = (Inr r, y)" for opt x r y
    using that by (auto simp: memStatusCmd_def memRole_def map_of_filter_other fun_eq_iff)
  have slave: "memRole y = (memRole x)(Addr opt := h)"
    if "h \<noteq> ''NO''" "memStatusCmd opt [''slaveof'', h, p] x = (Inr r, y)" for opt h p x r y
    using that by (auto simp: memStatusCmd_def memRole_def fun_eq_iff split: if_splits)
  show ?thesis
    unfolding redis_laws_def memEnv_cmds
    by (intro conjI allI impI) (auto intro: no slave simp: memInfo_role)
qed

end
