(* ===== verification/Meta_Cache.thy ===== *)
theory Meta_Cache
  imports Redis_Client
begin

text \<open>
  The metadata caches of the two controllers (\<open>controllers/redissentinel/cache\<close> and
  \<open>controllers/redisstandalone/cache\<close>): the last object seen per namespace and name, the
  classification of the next one as create, update or check, and the password that an update
  may not change. The two packages hold the same code on two types; the locale \<open>meta_cache\<close>
  states what each promises, and what follows for a sequence of observed objects is proved
  there once.
\<close>

definition getNamespacedName :: "string \<Rightarrow> string \<Rightarrow> string" where
  "getNamespacedName nameSpace name = nameSpace @ ''/'' @ name"

subsection \<open>RedisSentinel\<close>

definition newCluster :: "RedisSentinel \<Rightarrow> ptr \<Rightarrow> Meta" where
  "newCluster rc p = \<lparr>m_NameSpace = om_namespace (rs_meta rc), m_Name = om_name (rs_meta rc), m_State = Create,
     m_Size = sn_Size (rs_spec rc), m_Auth = \<lparr>Password = sn_Password (rs_spec rc)\<rparr>, m_Obj = p,
     m_Status = ClusterConditionCreating, m_Message = ''Bootstrap redis cluster'', m_Config = sn_Config (rs_spec rc)\<rparr>"

definition sentinel_isImagesChanged :: "RedisSentinel \<Rightarrow> RedisSentinel \<Rightarrow> bool" where
  "sentinel_isImagesChanged old new \<longleftrightarrow> sn_Image (rs_spec old) = sn_Image (rs_spec new)"

definition sentinel_isScalingDown :: "RedisSentinel \<Rightarrow> RedisSentinel \<Rightarrow> bool" where
  "sentinel_isScalingDown old new \<longleftrightarrow> sint (sn_Size (rs_spec old)) > sint (sn_Size (rs_spec new))"

definition sentinel_isScalingUp :: "RedisSentinel \<Rightarrow> RedisSentinel \<Rightarrow> bool" where
  "sentinel_isScalingUp old new \<longleftrightarrow> sint (sn_Size (rs_spec old)) < sint (sn_Size (rs_spec new))"

definition sentinel_isResourcesChange :: "RedisSentinel \<Rightarrow> RedisSentinel \<Rightarrow> bool" where
  "sentinel_isResourcesChange old new \<longleftrightarrow>
     Quantity_Size (Memory (rr_limits (sn_Resources (rs_spec old))))
       \<noteq> Quantity_Size (Memory (rr_limits (sn_Resources (rs_spec new)))) \<or>
     Quantity_Size (Cpu (rr_limits (sn_Resources (rs_spec old))))
       \<noteq> Quantity_Size (Cpu (rr_limits (sn_Resources (rs_spec new))))"

text \<open>The assignments of \<open>Update\<close> to the cached entry when the generation changed.\<close>

definition sentinel_changedMeta :: "Meta \<Rightarrow> RedisSentinel \<Rightarrow> RedisSentinel \<Rightarrow> ptr \<Rightarrow> Meta" where
  "sentinel_changedMeta meta old new p =
     (let m1 = meta\<lparr>m_State := Update, m_Size := sn_Size (rs_spec old),
                 m_Auth := \<lparr>Password = sn_Password (rs_spec old)\<rparr>, m_Obj := p,
                 m_Status := ClusterConditionUpdating, m_Message := ''Updating redis config''\<rparr>;
          m2 = (if sentinel_isImagesChanged old new
                then m1\<lparr>m_Status := ClusterConditionUpgrading,
                        m_Message := ''Upgrading to '' @ sn_Image (rs_spec new)\<rparr> else m1);
          m3 = (if sentinel_isScalingDown old new
                then m2\<lparr>m_Status := ClusterConditionScalingDown,
                        m_Message := ''Scaling down form: '' @ FormatInt (sint (m_Size m2)) @ '' to: ''
                          @ FormatInt (sint (sn_Size (rs_spec new)))\<rparr> else m2);
          m4 = (if sentinel_isScalingUp old new
                then m3\<lparr>m_Status := ClusterConditionScaling,
                        m_Message := ''Scaling up form: '' @ FormatInt (sint (m_Size m3)) @ '' to: ''
                          @ FormatInt (sint (sn_Size (rs_spec new)))\<rparr> else m3)
      in if sentinel_isResourcesChange old new then m4\<lparr>m_Message := ''Updating compute resources''\<rparr> else m4)"

definition sentinel_Update :: "ptr \<Rightarrow> ptr \<Rightarrow> ('e, unit) op" where
  "sentinel_Update m p =
     getMeta m (\<lambda>meta. getRs (m_Obj meta) (\<lambda>old. getRs p (\<lambda>new.
       if om_generation (rs_meta old) = om_generation (rs_meta new)
       then setMeta m (m_State_update (\<lambda>_. if rs_status old = zeroSentinelStatus then Create else Check))
       else seqG (setRs p (upd_rs_spec (sn_Password_update (\<lambda>_. sn_Password (rs_spec old)))))
                 (setMeta m (\<lambda>meta. sentinel_changedMeta meta old new p)))))"

definition sentinel_Add :: "ptr \<Rightarrow> ('e, unit) op" where
  "sentinel_Add p =
     getRs p (\<lambda>rc. bindG (allocMeta (newCluster rc p)) (\<lambda>m.
       modifyG (\<lambda>w. w\<lparr>w_snCache := (w_snCache w)(getNamespacedName (om_namespace (rs_meta rc)) (om_name (rs_meta rc)) \<mapsto> m)\<rparr>)))"

definition sentinel_Get :: "ptr \<Rightarrow> ('e, ptr) op" where
  "sentinel_Get p =
     getRs p (\<lambda>rc. readG (\<lambda>w. w_snCache w (getNamespacedName (om_namespace (rs_meta rc)) (om_name (rs_meta rc))))
       (\<lambda>v. case v of None \<Rightarrow> panicG ''interface conversion: interface is nil'' | Some m \<Rightarrow> retG m))"

definition sentinel_Cache :: "ptr \<Rightarrow> ('e, ptr) op" where
  "sentinel_Cache p =
     getRs p (\<lambda>rc. readG (\<lambda>w. w_snCache w (getNamespacedName (om_namespace (rs_meta rc)) (om_name (rs_meta rc))))
       (\<lambda>v. seqG (case v of None \<Rightarrow> sentinel_Add p | Some m \<Rightarrow> sentinel_Update m p) (sentinel_Get p)))"

definition sentinel_Del :: "ObjectMeta \<Rightarrow> ('e, unit) op" where
  "sentinel_Del m = modifyG (\<lambda>w. w\<lparr>w_snCache := (w_snCache w)(getNamespacedName (om_namespace m) (om_name m) := None)\<rparr>)"

subsection \<open>RedisStandalone\<close>

definition newStandalone :: "RedisStandalone \<Rightarrow> ptr \<Rightarrow> Meta" where
  "newStandalone rc p = \<lparr>m_NameSpace = om_namespace (ra_meta rc), m_Name = om_name (ra_meta rc), m_State = Create,
     m_Size = sa_Size (ra_spec rc), m_Auth = \<lparr>Password = sa_Password (ra_spec rc)\<rparr>, m_Obj = p,
     m_Status = ClusterConditionCreating, m_Message = ''Bootstrap redis standalone cluster'', m_Config = sa_Config (ra_spec rc)\<rparr>"

definition standalone_isImagesChanged :: "RedisStandalone \<Rightarrow> RedisStandalone \<Rightarrow> bool" where
  "standalone_isImagesChanged old new \<longleftrightarrow> sa_Image (ra_spec old) = sa_Image (ra_spec new)"

definition standalone_isScalingDown :: "RedisStandalone \<Rightarrow> RedisStandalone \<Rightarrow> bool" where
  "standalone_isScalingDown old new \<longleftrightarrow> sint (sa_Size (ra_spec old)) > sint (sa_Size (ra_spec new))"

definition standalone_isScalingUp :: "RedisStandalone \<Rightarrow> RedisStandalone \<Rightarrow> bool" where
  "standalone_isScalingUp old new \<longleftrightarrow> sint (sa_Size (ra_spec old)) < sint (sa_Size (ra_spec new))"

definition standalone_isResourcesChange :: "RedisStandalone \<Rightarrow> RedisStandalone \<Rightarrow> bool" where
  "standalone_isResourcesChange old new \<longleftrightarrow>
     Quantity_Size (Memory (rr_limits (sa_Resources (ra_spec old))))
       \<noteq> Quantity_Size (Memory (rr_limits (sa_Resources (ra_spec new)))) \<or>
     Quantity_Size (Cpu (rr_limits (sa_Resources (ra_spec old))))
       \<noteq> Quantity_Size (Cpu (rr_limits (sa_Resources (ra_spec new))))"

text \<open>The assignments of \<open>Update\<close> to the cached entry when the generation changed.\<close>

definition standalone_changedMeta :: "Meta \<Rightarrow> RedisStandalone \<Rightarrow> RedisStandalone \<Rightarrow> ptr \<Rightarrow> Meta" where
  "standalone_changedMeta meta old new p =
     (let m1 = meta\<lparr>m_State := Update, m_Size := sa_Size (ra_spec old),
                 m_Auth := \<lparr>Password = sa_Password (ra_spec old)\<rparr>, m_Obj := p,
                 m_Status := ClusterConditionUpdating, m_Message := ''Updating redis config''\<rparr>;
          m2 = (if standalone_isImagesChanged old new
                then m1\<lparr>m_Status := ClusterConditionUpgrading,
                        m_Message := ''Upgrading to '' @ sa_Image (ra_spec new)\<rparr> else m1);
          m3 = (if standalone_isScalingDown old new
                then m2\<lparr>m_Status := ClusterConditionScalingDown,
                        m_Message := ''Scaling down form: '' @ FormatInt (sint (m_Size m2)) @ '' to: ''
                          @ FormatInt (sint (sa_Size (ra_spec new)))\<rparr> else m2);
          m4 = (if standalone_isScalingUp old new
                then m3\<lparr>m_Status := ClusterConditionScaling,
                        m_Message := ''Scaling up form: '' @ FormatInt (sint (m_Size m3)) @ '' to: ''
                          @ FormatInt (sint (sa_Size (ra_spec new)))\<rparr> else m3)
      in if standalone_isResourcesChange old new then m4\<lparr>m_Message := ''Updating compute resources''\<rparr> else m4)"

definition standalone_Update :: "ptr \<Rightarrow> ptr \<Rightarrow> ('e, unit) op" where
  "standalone_Update m p =
     getMeta m (\<lambda>meta. getRa (m_Obj meta) (\<lambda>old. getRa p (\<lambda>new.
       if om_generation (ra_meta old) = om_generation (ra_meta new)
       then setMeta m (m_State_update (\<lambda>_. if ra_status old = zeroStandaloneStatus then Create else Check))
       else seqG (setRa p (upd_ra_spec (sa_Password_update (\<lambda>_. sa_Password (ra_spec old)))))
                 (setMeta m (\<lambda>meta. standalone_changedMeta meta old new p)))))"

definition standalone_Add :: "ptr \<Rightarrow> ('e, unit) op" where
  "standalone_Add p =
     getRa p (\<lambda>rc. bindG (allocMeta (newStandalone rc p)) (\<lambda>m.
       modifyG (\<lambda>w. w\<lparr>w_saCache := (w_saCache w)(getNamespacedName (om_namespace (ra_meta rc)) (om_name (ra_meta rc)) \<mapsto> m)\<rparr>)))"

definition standalone_Get :: "ptr \<Rightarrow> ('e, ptr) op" where
  "standalone_Get p =
     getRa p (\<lambda>rc. readG (\<lambda>w. w_saCache w (getNamespacedName (om_namespace (ra_meta rc)) (om_name (ra_meta rc))))
       (\<lambda>v. case v of None \<Rightarrow> panicG ''interface conversion: interface is nil'' | Some m \<Rightarrow> retG m))"

definition standalone_Cache :: "ptr \<Rightarrow> ('e, ptr) op" where
  "standalone_Cache p =
     getRa p (\<lambda>rc. readG (\<lambda>w. w_saCache w (getNamespacedName (om_namespace (ra_meta rc)) (om_name (ra_meta rc))))
       (\<lambda>v. seqG (case v of None \<Rightarrow> standalone_Add p | Some m \<Rightarrow> standalone_Update m p) (standalone_Get p)))"

definition standalone_Del :: "ObjectMeta \<Rightarrow> ('e, unit) op" where
  "standalone_Del m = modifyG (\<lambda>w. w\<lparr>w_saCache := (w_saCache w)(getNamespacedName (om_namespace m) (om_name m) := None)\<rparr>)"

subsection \<open>What a metadata cache promises\<close>

text \<open>
  \<open>entry w k\<close> is the metadata cached for key \<open>k\<close>. A first object is stored with its own
  password; an object of the generation already seen changes neither the cached object nor
  the password; an object of another generation replaces the cached one and receives the
  password of the object it replaces.
\<close>

locale meta_cache =
  fixes obj :: "'e world \<Rightarrow> ptr \<Rightarrow> 'o"
    and entry :: "'e world \<Rightarrow> string \<Rightarrow> Meta option"
    and key :: "'o \<Rightarrow> string"
    and gen :: "'o \<Rightarrow> int"
    and pass :: "'o \<Rightarrow> string"
    and withPass :: "string \<Rightarrow> 'o \<Rightarrow> 'o"
    and alloc :: "'o \<Rightarrow> ('e, ptr) op"
    and cache :: "ptr \<Rightarrow> ('e, ptr) op"
  assumes alloc_run: "\<exists>w'. alloc o1 w = (Ok (w_next w), w') \<and> w_next w' = w_next w + 1
        \<and> obj w' = (obj w)(w_next w := o1) \<and> entry w' = entry w"
    and cache_first: "entry w (key (obj w p)) = None \<Longrightarrow>
        \<exists>m w' e. cache p w = (Ok m, w') \<and> obj w' = obj w \<and> w_next w \<le> w_next w'
          \<and> entry w' (key (obj w p)) = Some e \<and> m_Obj e = p \<and> Password (m_Auth e) = pass (obj w p)"
    and cache_same: "entry w (key (obj w p)) = Some e \<Longrightarrow> gen (obj w (m_Obj e)) = gen (obj w p) \<Longrightarrow>
        \<exists>m w' e'. cache p w = (Ok m, w') \<and> obj w' = obj w \<and> w_next w \<le> w_next w'
          \<and> entry w' (key (obj w p)) = Some e' \<and> m_Obj e' = m_Obj e \<and> m_Auth e' = m_Auth e"
    and cache_changed: "entry w (key (obj w p)) = Some e \<Longrightarrow> gen (obj w (m_Obj e)) \<noteq> gen (obj w p) \<Longrightarrow>
        \<exists>m w' e'. cache p w = (Ok m, w') \<and> obj w' = (obj w)(p := withPass (pass (obj w (m_Obj e))) (obj w p))
          \<and> w_next w \<le> w_next w' \<and> entry w' (key (obj w p)) = Some e' \<and> m_Obj e' = p
          \<and> Password (m_Auth e') = pass (obj w (m_Obj e))"
    and pass_withPass: "pass (withPass s o1) = s"
begin

definition observe :: "'o \<Rightarrow> ('e, unit) op" where
  "observe o1 = bindG (alloc o1) (\<lambda>p. bindG (cache p) (\<lambda>_. skipG))"

definition holds :: "string \<Rightarrow> string \<Rightarrow> 'e world \<Rightarrow> bool" where
  "holds k s w \<longleftrightarrow> (\<exists>e. entry w k = Some e \<and> m_Obj e < w_next w \<and> Password (m_Auth e) = s
      \<and> pass (obj w (m_Obj e)) = s)"

lemma observe_first:
  assumes "entry w (key o1) = None"
  shows "\<exists>w'. observe o1 w = (Ok (), w') \<and> holds (key o1) (pass o1) w'"
proof -
  obtain w1 where w1: "alloc o1 w = (Ok (w_next w), w1)" "w_next w1 = w_next w + 1"
    "obj w1 = (obj w)(w_next w := o1)" "entry w1 = entry w" using alloc_run by blast
  then have "entry w1 (key (obj w1 (w_next w))) = None" using assms by simp
  from cache_first [OF this] w1 show ?thesis
    by (fastforce simp: observe_def bindG_run holds_def)
qed

lemma observe_next:
  assumes "holds (key o1) s w"
  shows "\<exists>w'. observe o1 w = (Ok (), w') \<and> holds (key o1) s w'"
proof -
  obtain e where e: "entry w (key o1) = Some e" "m_Obj e < w_next w" "Password (m_Auth e) = s"
    "pass (obj w (m_Obj e)) = s" using assms by (auto simp: holds_def)
  obtain w1 where w1: "alloc o1 w = (Ok (w_next w), w1)" "w_next w1 = w_next w + 1"
    "obj w1 = (obj w)(w_next w := o1)" "entry w1 = entry w" using alloc_run by blast
  have ent: "entry w1 (key (obj w1 (w_next w))) = Some e" and old: "obj w1 (m_Obj e) = obj w (m_Obj e)"
    using w1 e by simp_all
  show ?thesis
  proof (cases "gen (obj w1 (m_Obj e)) = gen (obj w1 (w_next w))")
    case True
    from cache_same [OF ent True] e w1 show ?thesis
      by (fastforce simp: observe_def bindG_run holds_def)
  next
    case False
    from cache_changed [OF ent False] e w1 old show ?thesis
      by (fastforce simp: observe_def bindG_run holds_def pass_withPass)
  qed
qed

lemma observe_all:
  assumes "holds k s w" and "\<forall>o1 \<in> set os. key o1 = k"
  shows "\<exists>w'. forG observe os w = (Ok (), w') \<and> holds k s w'"
  using assms
proof (induction os arbitrary: w)
  case (Cons o1 os)
  then obtain w1 where w1: "observe o1 w = (Ok (), w1)" "holds k s w1" using observe_next by fastforce
  with Cons.IH [of w1] Cons.prems show ?case by (auto simp: seqG_run)
qed auto

end

definition sentinelEntry :: "'e world \<Rightarrow> string \<Rightarrow> Meta option" where
  "sentinelEntry w k = map_option (w_metas w) (w_snCache w k)"

definition standaloneEntry :: "'e world \<Rightarrow> string \<Rightarrow> Meta option" where
  "standaloneEntry w k = map_option (w_metas w) (w_saCache w k)"

definition sentinelKey :: "RedisSentinel \<Rightarrow> string" where
  "sentinelKey rc = getNamespacedName (rs_namespace rc) (rs_name rc)"

definition standaloneKey :: "RedisStandalone \<Rightarrow> string" where
  "standaloneKey rc = getNamespacedName (ra_namespace rc) (ra_name rc)"

lemmas sentinel_cache_defs = sentinel_Cache_def sentinel_Add_def sentinel_Get_def sentinel_Update_def
  ptr_defs sentinelEntry_def sentinelKey_def
lemmas standalone_cache_defs = standalone_Cache_def standalone_Add_def standalone_Get_def
  standalone_Update_def ptr_defs standaloneEntry_def standaloneKey_def

lemma sentinel_changedMeta_fields [simp]:
  "m_Obj (sentinel_changedMeta meta old new p) = p"
  "m_Auth (sentinel_changedMeta meta old new p) = \<lparr>Password = sn_Password (rs_spec old)\<rparr>"
  "m_State (sentinel_changedMeta meta old new p) = Update"
  "m_Size (sentinel_changedMeta meta old new p) = sn_Size (rs_spec old)"
  by (simp_all add: sentinel_changedMeta_def Let_def)

lemma standalone_changedMeta_fields [simp]:
  "m_Obj (standalone_changedMeta meta old new p) = p"
  "m_Auth (standalone_changedMeta meta old new p) = \<lparr>Password = sa_Password (ra_spec old)\<rparr>"
  "m_State (standalone_changedMeta meta old new p) = Update"
  "m_Size (standalone_changedMeta meta old new p) = sa_Size (ra_spec old)"
  by (simp_all add: standalone_changedMeta_def Let_def)

interpretation snm: meta_cache w_rs sentinelEntry sentinelKey "\<lambda>rc. om_generation (rs_meta rc)"
    "\<lambda>rc. sn_Password (rs_spec rc)" "\<lambda>s. upd_rs_spec (sn_Password_update (\<lambda>_. s))" allocRs sentinel_Cache
proof
qed (auto simp: sentinel_cache_defs seqG_case bindG_run newCluster_def upd_rs_spec_def fun_eq_iff
      split: option.splits)

interpretation sam: meta_cache w_ra standaloneEntry standaloneKey "\<lambda>rc. om_generation (ra_meta rc)"
    "\<lambda>rc. sa_Password (ra_spec rc)" "\<lambda>s. upd_ra_spec (sa_Password_update (\<lambda>_. s))" allocRa standalone_Cache
proof
qed (auto simp: standalone_cache_defs seqG_case bindG_run newStandalone_def upd_ra_spec_def fun_eq_iff
      split: option.splits)

subsection \<open>Properties\<close>

text \<open>
  Caching an observed object always succeeds and returns the cached entry. A first object
  is stored in state create. One of the generation already seen only resets the state, to create while the
  cached object has no status and to check afterwards. Any other object replaces the cached
  one in state update, and its password is overwritten by that of the object it replaces.
\<close>

theorem sentinel_Cache_behaviour:
  "\<exists>m w'. sentinel_Cache p w = (Ok m, w') \<and> w_snCache w' (sentinelKey (w_rs w p)) = Some m \<and>
     (case sentinelEntry w (sentinelKey (w_rs w p)) of
        None \<Rightarrow> w_metas w' m = newCluster (w_rs w p) p \<and> w_rs w' = w_rs w
      | Some e \<Rightarrow>
          (let old = w_rs w (m_Obj e); new = w_rs w p in
           if om_generation (rs_meta old) = om_generation (rs_meta new)
           then w_metas w' m = e\<lparr>m_State := if rs_status old = zeroSentinelStatus then Create else Check\<rparr>
                \<and> w_rs w' = w_rs w
           else w_metas w' m = sentinel_changedMeta e old new p \<and> m_State (w_metas w' m) = Update
                \<and> w_rs w' = (w_rs w)(p := upd_rs_spec (sn_Password_update (\<lambda>_. sn_Password (rs_spec old))) new)))"
  by (auto simp: sentinel_cache_defs seqG_case bindG_run fun_eq_iff Let_def upd_rs_spec_def split: option.splits)

text \<open>
  C27. How an update is classified. A change of the size is reported as scaling up or down.
  Without one, the image comparison is inverted: an update that keeps the image is
  announced as an upgrade to the image already running, and one that changes the image as a
  mere configuration update.
\<close>

theorem sentinel_update_classification:
  "m_Status (sentinel_changedMeta meta old new p) =
     (if sint (sn_Size (rs_spec new)) < sint (sn_Size (rs_spec old)) then ClusterConditionScalingDown
      else if sint (sn_Size (rs_spec old)) < sint (sn_Size (rs_spec new)) then ClusterConditionScaling
      else if sn_Image (rs_spec old) \<noteq> sn_Image (rs_spec new) then ClusterConditionUpdating
      else ClusterConditionUpgrading)"
  by (simp add: sentinel_changedMeta_def sentinel_isImagesChanged_def sentinel_isScalingDown_def
      sentinel_isScalingUp_def Let_def)

text \<open>
  The test for changed resources compares the lengths of the quantities' texts: limits
  whose texts have equal lengths count as unchanged, whatever their values.
\<close>

lemma sentinel_isResourcesChange_by_length:
  assumes "length (q_string (Memory (rr_limits (sn_Resources (rs_spec old)))))
         = length (q_string (Memory (rr_limits (sn_Resources (rs_spec new)))))"
    and "length (q_string (Cpu (rr_limits (sn_Resources (rs_spec old)))))
         = length (q_string (Cpu (rr_limits (sn_Resources (rs_spec new)))))"
  shows "\<not> sentinel_isResourcesChange old new"
  using assms by (simp add: sentinel_isResourcesChange_def Quantity_Size_def)

text \<open>
  C26. The cache alone never changes a password: after a first object of a key, whatever
  objects of that key are observed next, in whatever number and with whatever passwords, the
  cached authentication and the cached object keep the password of the first.
\<close>

theorem sentinel_password_fixed:
  assumes "sentinelEntry w (sentinelKey rc) = None" and "\<forall>o1 \<in> set os. sentinelKey o1 = sentinelKey rc"
  shows "\<exists>w' e. forG (\<lambda>o1. bindG (allocRs o1) (\<lambda>p. bindG (sentinel_Cache p) (\<lambda>_. skipG))) (rc # os) w = (Ok (), w')
     \<and> sentinelEntry w' (sentinelKey rc) = Some e \<and> Password (m_Auth e) = sn_Password (rs_spec rc)
     \<and> sn_Password (rs_spec (w_rs w' (m_Obj e))) = sn_Password (rs_spec rc)"
proof -
  obtain w1 where w1: "snm.observe rc w = (Ok (), w1)" "snm.holds (sentinelKey rc) (sn_Password (rs_spec rc)) w1"
    using snm.observe_first [OF assms(1)] by blast
  obtain w2 where w2: "forG snm.observe os w1 = (Ok (), w2)" "snm.holds (sentinelKey rc) (sn_Password (rs_spec rc)) w2"
    using snm.observe_all [OF w1(2) assms(2)] by blast
  have obs: "snm.observe = (\<lambda>o1. bindG (allocRs o1) (\<lambda>p. bindG (sentinel_Cache p) (\<lambda>_. skipG)))"
    by (rule ext) (simp only: snm.observe_def)
  have "forG snm.observe (rc # os) w = (Ok (), w2)" using w1 w2 by (simp add: seqG_run)
  then have "forG (\<lambda>o1. bindG (allocRs o1) (\<lambda>p. bindG (sentinel_Cache p) (\<lambda>_. skipG))) (rc # os) w
      = (Ok (), w2)" unfolding obs .
  then show ?thesis using w2(2) unfolding snm.holds_def by blast
qed

definition withPassword :: "string \<Rightarrow> int \<Rightarrow> RedisSentinel" where
  "withPassword s g = upd_rs_spec (sn_Password_update (\<lambda>_. s))
     (sentinelNamed ''db'' ''x''\<lparr>rs_meta := zeroMeta\<lparr>om_namespace := ''db'', om_name := ''x'', om_generation := g\<rparr>\<rparr>)"

theorem sentinel_password_fixed_witness:
  "\<exists>w' e. forG (\<lambda>o1. bindG (allocRs o1) (\<lambda>p. bindG (sentinel_Cache p) (\<lambda>_. skipG)))
        [withPassword ''first'' 1, withPassword ''second'' 2] (initWorld emptyMem) = (Ok (), w')
     \<and> sentinelEntry w' ''db/x'' = Some e \<and> Password (m_Auth e) = ''first''"
  using sentinel_password_fixed [of "initWorld emptyMem" "withPassword ''first'' 1" "[withPassword ''second'' 2]"]
  by (auto simp: sentinelEntry_def initWorld_def sentinelKey_def withPassword_def getNamespacedName_def)

end
