(* ===== verification/Api_Server.thy ===== *)
theory Api_Server
  imports Memory_Api
begin

text \<open>
  The API server as a whole: the stores of services, config maps and workloads are separate, so
  that a call about one kind leaves the objects of the others alone. On top of it,
  \<open>ensuresG S C T m\<close> is the judgement that a successful run of \<open>m\<close> leaves the services \<open>S\<close>, the
  config maps \<open>C\<close> and the workloads \<open>T\<close> stored, has replaced no service and no config map that
  was stored before, and has removed no workload. It composes along sequences, which is how
  the \<open>Ensure\<close> functions of the handlers are built.
\<close>

definition kind_keeps :: "('o, 'e) KindClient \<Rightarrow> ('e \<Rightarrow> 'v) \<Rightarrow> bool" where
  "kind_keeps kc v \<longleftrightarrow>
     (\<forall>ns n x. v (snd (kc_Get kc ns n x)) = v x) \<and> (\<forall>o1 x. v (snd (kc_Create kc o1 x)) = v x) \<and>
     (\<forall>o1 x. v (snd (kc_Update kc o1 x)) = v x)"

definition api_server ::
  "'e env \<Rightarrow> ('e \<Rightarrow> string \<times> string \<Rightarrow> Service option) \<Rightarrow> ('e \<Rightarrow> string \<times> string \<Rightarrow> ConfigMap option)
     \<Rightarrow> ('e \<Rightarrow> string \<times> string \<Rightarrow> StatefulSet option) \<Rightarrow> bool" where
  "api_server E svcs cms sts \<longleftrightarrow>
     api_laws (E_services E) svc_meta svcs \<and> api_laws (E_configMaps E) cm_meta cms \<and>
     api_laws (E_statefulSets E) ss_meta sts \<and>
     kind_keeps (E_services E) (\<lambda>x. (cms x, sts x)) \<and> kind_keeps (E_configMaps E) (\<lambda>x. (svcs x, sts x)) \<and>
     kind_keeps (E_statefulSets E) (\<lambda>x. (svcs x, cms x)) \<and> kind_keeps (E_pdbs E) (\<lambda>x. (svcs x, cms x, sts x))"

lemma kind_keeps_ops:
  assumes "kind_keeps kc v"
  shows "keeps (same (\<lambda>w. v (w_ext w))) (extG (kc_Get kc ns n))"
    "keeps (same (\<lambda>w. v (w_ext w))) (extG (kc_Create kc o1))" "keeps (same (\<lambda>w. v (w_ext w))) (extG (kc_Update kc o1))"
proof -
  have ext: "keeps (same (\<lambda>w. v (w_ext w))) (extG f)" if "\<And>x. v (snd (f x)) = v x" for f :: "'b \<Rightarrow> (GoErr + 'd) \<times> 'b"
    using that by (auto simp: keeps_def same_def extG_def split: prod.split sum.split) (metis snd_conv)+
  show "keeps (same (\<lambda>w. v (w_ext w))) (extG (kc_Get kc ns n))"
    "keeps (same (\<lambda>w. v (w_ext w))) (extG (kc_Create kc o1))" "keeps (same (\<lambda>w. v (w_ext w))) (extG (kc_Update kc o1))"
    using assms unfolding kind_keeps_def by (simp_all add: ext)
qed

lemmas keeps_ensure = keeps_bindG keeps_tryG keeps_seqG keeps_if keeps_leaf same_order

lemma wrappers_keep:
  "kind_keeps (E_services E) v \<Longrightarrow> keeps (same (\<lambda>w. v (w_ext w))) (CreateIfNotExistsService E ns s)"
  "kind_keeps (E_configMaps E) v \<Longrightarrow> keeps (same (\<lambda>w. v (w_ext w))) (CreateIfNotExistsConfigMap E ns c)"
  "kind_keeps (E_configMaps E) v \<Longrightarrow> keeps (same (\<lambda>w. v (w_ext w))) (GetConfigMap E ns n)"
  "kind_keeps (E_pdbs E) v \<Longrightarrow> keeps (same (\<lambda>w. v (w_ext w))) (CreateIfNotExistsPodDisruptionBudget E ns b)"
  unfolding wrapper_defs by (intro keeps_ensure kind_keeps_ops; assumption)+

subsection \<open>Objects that a successful run leaves behind\<close>

record 'e stores =
  st_services :: "'e \<Rightarrow> string \<times> string \<Rightarrow> Service option"
  st_configMaps :: "'e \<Rightarrow> string \<times> string \<Rightarrow> ConfigMap option"
  st_statefulSets :: "'e \<Rightarrow> string \<times> string \<Rightarrow> StatefulSet option"

abbreviation serves :: "'e env \<Rightarrow> 'e stores \<Rightarrow> bool" where
  "serves E db \<equiv> api_server E (st_services db) (st_configMaps db) (st_statefulSets db)"

definition grown ::
  "'e stores \<Rightarrow> (string \<times> string) set \<Rightarrow> (string \<times> string) set \<Rightarrow> (string \<times> string) set \<Rightarrow> 'e \<Rightarrow> 'e \<Rightarrow> bool" where
  "grown db S C T x y \<longleftrightarrow> st_services db x \<subseteq>\<^sub>m st_services db y \<and> st_configMaps db x \<subseteq>\<^sub>m st_configMaps db y \<and>
     dom (st_statefulSets db x) \<subseteq> dom (st_statefulSets db y) \<and>
     S \<subseteq> dom (st_services db y) \<and> C \<subseteq> dom (st_configMaps db y) \<and> T \<subseteq> dom (st_statefulSets db y)"

definition ensuresG ::
  "'e stores \<Rightarrow> (string \<times> string) set \<Rightarrow> (string \<times> string) set \<Rightarrow> (string \<times> string) set \<Rightarrow> ('e, unit) op \<Rightarrow> bool" where
  "ensuresG db S C T m \<longleftrightarrow> (\<forall>w w'. m w = (Ok (), w') \<longrightarrow> grown db S C T (w_ext w) (w_ext w'))"

lemma ensuresGD: "ensuresG db S C T m \<Longrightarrow> m w = (Ok (), w') \<Longrightarrow> grown db S C T (w_ext w) (w_ext w')"
  by (simp add: ensuresG_def)

lemma grown_trans:
  "grown db S C T x y \<Longrightarrow> grown db S' C' T' y z \<Longrightarrow> grown db (S \<union> S') (C \<union> C') (T \<union> T') x z"
  unfolding grown_def using map_le_trans map_le_implies_dom_le by (meson Un_least subset_trans)

lemma ensuresG_skip [simp]: "ensuresG db {} {} {} skipG"
  by (simp add: ensuresG_def grown_def)

lemma ensuresG_seqG:
  "ensuresG db S C T m \<Longrightarrow> ensuresG db S' C' T' n \<Longrightarrow> ensuresG db (S \<union> S') (C \<union> C') (T \<union> T') (seqG m n)"
  unfolding ensuresG_def seqG_Ok_iff using grown_trans by fastforce

lemma ensuresG_mono:
  "ensuresG db S C T m \<Longrightarrow> S' \<subseteq> S \<Longrightarrow> C' \<subseteq> C \<Longrightarrow> T' \<subseteq> T \<Longrightarrow> ensuresG db S' C' T' m"
proof -
  have "grown db S C T x y \<Longrightarrow> S' \<subseteq> S \<Longrightarrow> C' \<subseteq> C \<Longrightarrow> T' \<subseteq> T \<Longrightarrow> grown db S' C' T' x y" for x y
    unfolding grown_def by blast
  then show "ensuresG db S C T m \<Longrightarrow> S' \<subseteq> S \<Longrightarrow> C' \<subseteq> C \<Longrightarrow> T' \<subseteq> T \<Longrightarrow> ensuresG db S' C' T' m"
    by (simp add: ensuresG_def)
qed

lemma ensuresG_service:
  assumes "serves E db" and "om_namespace (svc_meta s) = ns"
  shows "ensuresG db {(ns, om_name (svc_meta s))} {} {} (CreateIfNotExistsService E ns s)"
  unfolding ensuresG_def
proof (intro allI impI)
  fix w w'
  assume run: "CreateIfNotExistsService E ns s w = (Ok (), w')"
  note laws = assms(1) [unfolded api_server_def]
  have other: "st_configMaps db (w_ext w') = st_configMaps db (w_ext w)"
    "st_statefulSets db (w_ext w') = st_statefulSets db (w_ext w)"
    using keeps_sameD [OF wrappers_keep(1) run] laws by fastforce+
  obtain s2 where "st_services db (w_ext w') = (st_services db (w_ext w))((ns, om_name (svc_meta s)) \<mapsto> s2)"
    "\<forall>s3. st_services db (w_ext w) (ns, om_name (svc_meta s)) = Some s3 \<longrightarrow> s2 = s3"
    using svc.ensure_stores [OF _ assms(2) run] laws assms(2) by (auto simp: metaKey_def)
  then show "grown db {(ns, om_name (svc_meta s))} {} {} (w_ext w) (w_ext w')"
    using other by (auto simp: grown_def map_le_def)
qed

lemma ensuresG_configMap:
  assumes "serves E db" and "om_namespace (cm_meta c) = ns"
  shows "ensuresG db {} {(ns, om_name (cm_meta c))} {} (CreateIfNotExistsConfigMap E ns c)"
  unfolding ensuresG_def
proof (intro allI impI)
  fix w w'
  assume run: "CreateIfNotExistsConfigMap E ns c w = (Ok (), w')"
  note laws = assms(1) [unfolded api_server_def]
  have other: "st_services db (w_ext w') = st_services db (w_ext w)"
    "st_statefulSets db (w_ext w') = st_statefulSets db (w_ext w)"
    using keeps_sameD [OF wrappers_keep(2) run] laws by fastforce+
  obtain c2 where "st_configMaps db (w_ext w') = (st_configMaps db (w_ext w))((ns, om_name (cm_meta c)) \<mapsto> c2)"
    "\<forall>c3. st_configMaps db (w_ext w) (ns, om_name (cm_meta c)) = Some c3 \<longrightarrow> c2 = c3"
    using cmap.ensure_stores [OF _ assms(2) run] laws assms(2) by (auto simp: metaKey_def)
  then show "grown db {} {(ns, om_name (cm_meta c))} {} (w_ext w) (w_ext w')"
    using other by (auto simp: grown_def map_le_def)
qed

text \<open>A config map that the user named must exist already.\<close>

lemma ensuresG_existing:
  assumes "serves E db"
  shows "ensuresG db {} {(ns, n)} {} (bindG (GetConfigMap E ns n) (\<lambda>_. skipG))"
  unfolding ensuresG_def
proof (intro allI impI)
  fix w w'
  assume "bindG (GetConfigMap E ns n) (\<lambda>_. skipG) w = (Ok (), w')"
  then obtain c where run: "GetConfigMap E ns n w = (Ok c, w')" by (auto simp: bindG_Ok_iff)
  note laws = assms [unfolded api_server_def]
  have other: "st_services db (w_ext w') = st_services db (w_ext w)"
    "st_statefulSets db (w_ext w') = st_statefulSets db (w_ext w)"
    using keeps_sameD [OF wrappers_keep(3) run] laws by fastforce+
  have get: "kc_Get (E_configMaps E) ns n (w_ext w) = (Inr c, w_ext w')"
    using run by (auto simp: GetConfigMap_def getObj_def extG_Ok_iff)
  with api_lawsD(1,2) [OF laws [THEN conjunct2, THEN conjunct1]] other
  show "grown db {} {(ns, n)} {} (w_ext w) (w_ext w')"
    by (auto simp: grown_def map_le_def)
qed

definition memStores :: "memApi stores" where
  "memStores = \<lparr>st_services = ma_services, st_configMaps = ma_configMaps, st_statefulSets = ma_statefulSets\<rparr>"

lemma memEnv_serves: "serves memEnv memStores"
  unfolding api_server_def memStores_def stores.select_convs
  by (intro conjI memEnv_laws) (simp_all add: kind_keeps_def memEnv_def memKind_def split: option.split)

subsection \<open>Runs that succeed\<close>

text \<open>From a state of \<open>I\<close> the run succeeds and ends in a state of \<open>J\<close>.\<close>

definition succeedsG :: "('e world \<Rightarrow> bool) \<Rightarrow> ('e, unit) op \<Rightarrow> ('e world \<Rightarrow> bool) \<Rightarrow> bool" where
  "succeedsG I m J \<longleftrightarrow> (\<forall>w. I w \<longrightarrow> (\<exists>w'. m w = (Ok (), w') \<and> J w'))"

lemma succeedsG_seqG: "succeedsG I m J \<Longrightarrow> succeedsG J n K \<Longrightarrow> succeedsG I (seqG m n) K"
  unfolding succeedsG_def seqG_case by fastforce

lemma succeedsG_skip: "succeedsG I skipG I"
  by (simp add: succeedsG_def)

lemma succeedsG_if: "(b \<Longrightarrow> succeedsG I m J) \<Longrightarrow> (\<not> b \<Longrightarrow> succeedsG I n J) \<Longrightarrow> succeedsG I (if b then m else n) J"
  by simp

text \<open>The workloads \<open>K\<close> are not stored in memory, and the custom resources are given.\<close>

definition lacking :: "(string \<times> string) set \<Rightarrow> (ptr \<Rightarrow> RedisSentinel) \<Rightarrow> (ptr \<Rightarrow> RedisStandalone) \<Rightarrow> memApi world \<Rightarrow> bool" where
  "lacking K rs ra w \<longleftrightarrow> (\<forall>k \<in> K. ma_statefulSets (w_ext w) k = None) \<and> w_rs w = rs \<and> w_ra w = ra"

lemma memEnv_stores:
  "E_services memEnv = memKind svc_meta ma_services (\<lambda>s. ma_services_update (\<lambda>_. s))"
  "E_configMaps memEnv = memKind cm_meta ma_configMaps (\<lambda>s. ma_configMaps_update (\<lambda>_. s))"
  "E_pdbs memEnv = memKind pdb_meta ma_pdbs (\<lambda>s. ma_pdbs_update (\<lambda>_. s))"
  "E_statefulSets memEnv = memKind ss_meta ma_statefulSets (\<lambda>s. ma_statefulSets_update (\<lambda>_. s))"
  by (simp_all only: memEnv_def env.select_convs)

lemma memEnv_succeeds:
  "om_namespace (svc_meta s) = ns \<Longrightarrow> succeedsG (lacking K rs ra) (CreateIfNotExistsService memEnv ns s) (lacking K rs ra)"
  "om_namespace (cm_meta c) = ns \<Longrightarrow> succeedsG (lacking K rs ra) (CreateIfNotExistsConfigMap memEnv ns c) (lacking K rs ra)"
  "om_namespace (pdb_meta b) = ns \<Longrightarrow> succeedsG (lacking K rs ra) (CreateIfNotExistsPodDisruptionBudget memEnv ns b) (lacking K rs ra)"
  by (auto simp: succeedsG_def lacking_def wrapper_defs tryG_def bindG_def extG_def memEnv_stores memKind_def metaKey_def
      split: option.split)

lemma memEnv_creates_workload:
  assumes "(ns, n) \<in> K" and "metaKey (ss_meta ss) = (ns, n)"
  shows "succeedsG (lacking K rs ra)
    (tryG (GetStatefulSet memEnv ns n) (\<lambda>err. if IsNotFound err then CreateStatefulSet memEnv ns ss else failG err) k)
    (lacking (K - {(ns, n)}) rs ra)"
  using assms by (auto simp: succeedsG_def lacking_def wrapper_defs tryG_def bindG_def extG_def memEnv_stores memKind_def)

end
