(* ===== verification/Sentinel_Service.thy ===== *)
theory Sentinel_Service
  imports Sentinel_Generator Meta_Cache Api_Server
begin

text \<open>
  \<open>controllers/redissentinel/service\<close>: the client that makes the Kubernetes objects of a
  cluster exist (\<open>client.go\<close>), the checker (\<open>check.go\<close>) and the healer (\<open>heal.go\<close>).
  A function that only reads the custom resource takes its value; \<open>EnsureRedisStatefulset\<close>,
  which writes to it, takes its pointer.
\<close>

subsection \<open>client.go\<close>

definition EnsureSentinelService :: "'e env \<Rightarrow> RedisSentinel \<Rightarrow> strmap \<Rightarrow> OwnerReference list \<Rightarrow> ('e, unit) op" where
  "EnsureSentinelService E rc labels refs =
     CreateIfNotExistsService E (rs_namespace rc) (generateSentinelService rc labels refs)"

definition EnsureSentinelHeadlessService ::
  "'e env \<Rightarrow> RedisSentinel \<Rightarrow> strmap \<Rightarrow> OwnerReference list \<Rightarrow> ('e, unit) op" where
  "EnsureSentinelHeadlessService E rc labels refs =
     CreateIfNotExistsService E (rs_namespace rc) (newHeadLessSvcForCR rc labels refs)"

definition EnsureSentinelConfigMap :: "'e env \<Rightarrow> RedisSentinel \<Rightarrow> strmap \<Rightarrow> OwnerReference list \<Rightarrow> ('e, unit) op" where
  "EnsureSentinelConfigMap E rc labels refs =
     CreateIfNotExistsConfigMap E (rs_namespace rc) (generateSentinelConfigMap rc labels refs)"

definition EnsureSentinelProbeConfigMap ::
  "'e env \<Rightarrow> RedisSentinel \<Rightarrow> strmap \<Rightarrow> OwnerReference list \<Rightarrow> ('e, unit) op" where
  "EnsureSentinelProbeConfigMap E rc labels refs =
     CreateIfNotExistsConfigMap E (rs_namespace rc) (generateSentinelReadinessProbeConfigMap rc labels refs)"

definition ensurePodDisruptionBudget ::
  "'e env \<Rightarrow> RedisSentinel \<Rightarrow> string \<Rightarrow> string \<Rightarrow> strmap \<Rightarrow> OwnerReference list \<Rightarrow> ('e, unit) op" where
  "ensurePodDisruptionBudget E rc name0 component labels0 refs =
     (let name = GenerateName name0 (rs_name rc);
          labels = MergeLabels [labels0, generateSelectorLabels component (rs_name rc)] in
      CreateIfNotExistsPodDisruptionBudget E (rs_namespace rc)
        (generatePodDisruptionBudget name (rs_namespace rc) labels refs (FromInt 2)))"

definition shouldUpdateRedis ::
  "ResourceRequirements \<Rightarrow> ResourceRequirements \<Rightarrow> int32 \<Rightarrow> int32 \<Rightarrow> bool" where
  "shouldUpdateRedis expectResource containterResource expectSize replicas =
     (if expectSize \<noteq> replicas then True
      else if Quantity_Cmp (Cpu (rr_requests containterResource)) (Cpu (rr_requests expectResource)) \<noteq> 0 then True
      else if Quantity_Cmp (Memory (rr_requests containterResource)) (Memory (rr_requests expectResource)) \<noteq> 0 then True
      else if Quantity_Cmp (Cpu (rr_limits containterResource)) (Cpu (rr_limits expectResource)) \<noteq> 0 then True
      else if Quantity_Cmp (Memory (rr_limits containterResource)) (Memory (rr_limits expectResource)) \<noteq> 0 then True
      else False)"

definition exporterChanged :: "RedisSentinel \<Rightarrow> StatefulSet \<Rightarrow> bool" where
  "exporterChanged rc sts =
     (if ex_Enabled (sn_Exporter (rs_spec rc))
      then (if list_ex (\<lambda>c. ct_name c = ExporterContainerName) (ps_containers (pt_spec (ss_template sts)))
            then False else True)
      else (if list_ex (\<lambda>c. ct_name c = ExporterContainerName) (ps_containers (pt_spec (ss_template sts)))
            then True else False))"

definition EnsureSentinelStatefulset ::
  "'e env \<Rightarrow> RedisSentinel \<Rightarrow> strmap \<Rightarrow> OwnerReference list \<Rightarrow> ('e, unit) op" where
  "EnsureSentinelStatefulset E rc labels refs =
     seqG (ensurePodDisruptionBudget E rc SentinelName SentinelRoleName labels refs)
    (tryG (GetStatefulSet E (rs_namespace rc) (GetSentinelName rc))
       (\<lambda>err. if IsNotFound err
              then CreateStatefulSet E (rs_namespace rc) (generateSentinelStatefulSet rc labels refs)
              else failG err)
       (\<lambda>oldSs.
          bindG (indexG (ps_containers (pt_spec (ss_template oldSs))) 0) (\<lambda>c.
          bindG (derefG (ss_replicas oldSs)) (\<lambda>replicas.
            if shouldUpdateRedis (se_Resources (rs_sentinel rc)) (ct_resources c)
                 (se_Replicas (rs_sentinel rc)) replicas
            then UpdateStatefulSet E (rs_namespace rc) (generateSentinelStatefulSet rc labels refs)
            else skipG))))"

definition EnsureRedisStatefulset ::
  "'e env \<Rightarrow> ptr \<Rightarrow> strmap \<Rightarrow> OwnerReference list \<Rightarrow> ('e, unit) op" where
  "EnsureRedisStatefulset E p labels refs =
     getRs p (\<lambda>rc.
     seqG (ensurePodDisruptionBudget E rc UtilRedisName RedisRoleName labels refs)
    (tryG (GetStatefulSet E (rs_namespace rc) (sentinel_GetRedisName rc))
       (\<lambda>err. if IsNotFound err
              then (let (ss, rc') = generateRedisStatefulSet rc labels refs in
                    seqG (setRs p (\<lambda>_. rc')) (CreateStatefulSet E (rs_namespace rc) ss))
              else failG err)
       (\<lambda>oldSs.
          bindG (indexG (ps_containers (pt_spec (ss_template oldSs))) 0) (\<lambda>c.
          bindG (derefG (ss_replicas oldSs)) (\<lambda>replicas.
            if shouldUpdateRedis (sn_Resources (rs_spec rc)) (ct_resources c) (sn_Size (rs_spec rc)) replicas
               \<or> exporterChanged rc oldSs
            then (let (ss, rc') = generateRedisStatefulSet rc labels refs in
                  seqG (setRs p (\<lambda>_. rc')) (UpdateStatefulSet E (rs_namespace rc) ss))
            else skipG)))))"

definition EnsureRedisConfigMap :: "'e env \<Rightarrow> RedisSentinel \<Rightarrow> strmap \<Rightarrow> OwnerReference list \<Rightarrow> ('e, unit) op" where
  "EnsureRedisConfigMap E rc labels refs =
     CreateIfNotExistsConfigMap E (rs_namespace rc) (generateRedisConfigMap rc labels refs)"

definition EnsureRedisShutdownConfigMap ::
  "'e env \<Rightarrow> RedisSentinel \<Rightarrow> strmap \<Rightarrow> OwnerReference list \<Rightarrow> ('e, unit) op" where
  "EnsureRedisShutdownConfigMap E rc labels refs =
     (if sn_ShutdownConfigMap (rs_spec rc) \<noteq> []
      then bindG (GetConfigMap E (rs_namespace rc) (sn_ShutdownConfigMap (rs_spec rc))) (\<lambda>_. skipG)
      else CreateIfNotExistsConfigMap E (rs_namespace rc) (generateRedisShutdownConfigMap rc labels refs))"

definition EnsureRedisService :: "'e env \<Rightarrow> RedisSentinel \<Rightarrow> strmap \<Rightarrow> OwnerReference list \<Rightarrow> ('e, unit) op" where
  "EnsureRedisService E rc labels refs =
     CreateIfNotExistsService E (rs_namespace rc) (generateRedisService rc labels refs)"

definition EnsureRedisMonitorService :: "'e env \<Rightarrow> RedisSentinel \<Rightarrow> strmap \<Rightarrow> OwnerReference list \<Rightarrow> ('e, unit) op" where
  "EnsureRedisMonitorService E rc labels refs =
     CreateIfNotExistsService E (rs_namespace rc) (generateRedisMonitorService rc labels refs)"

definition EnsureNotPresentRedisService :: "'e env \<Rightarrow> RedisSentinel \<Rightarrow> ('e, unit) op" where
  "EnsureNotPresentRedisService E rc =
     tryG (GetService E (rs_namespace rc) (sentinel_GetRedisName rc)) (\<lambda>_. skipG)
       (\<lambda>_. DeleteService E (rs_namespace rc) (sentinel_GetRedisName rc))"

subsection \<open>check.go\<close>

definition podRunning :: string where "podRunning = ''Running''"

definition runningIPs :: "Pod list \<Rightarrow> string list" where
  "runningIPs pods = map pod_ip (filter (\<lambda>p. pod_phase p = podRunning) pods)"

definition GetRedisesIPs :: "'e env \<Rightarrow> RedisSentinel \<Rightarrow> AuthConfig \<Rightarrow> ('e, string list) op" where
  "GetRedisesIPs E rc auth =
     bindG (GetStatefulSetPods E (rs_namespace rc) (sentinel_GetRedisName rc)) (\<lambda>rps. retG (runningIPs rps))"

definition GetSentinelsIPs :: "'e env \<Rightarrow> RedisSentinel \<Rightarrow> ('e, string list) op" where
  "GetSentinelsIPs E rc =
     bindG (GetStatefulSetPods E (rs_namespace rc) (GetSentinelName rc)) (\<lambda>rps. retG (runningIPs rps))"

text \<open>One entry of the range loop of \<open>CheckRedisConfig\<close>; an unparsable size is skipped.\<close>

definition configEntryConflict :: "(string, string) fmap \<Rightarrow> string \<times> string \<Rightarrow> GoErr option" where
  "configEntryConflict configs = (\<lambda>(key, value0).
     (let current = indexM (Some configs) key;
          compare = (\<lambda>value. if value \<noteq> current
             then Some (ErrorString (key @ '' configs conflict, expect: '' @ value @ '', current: '' @ current))
             else None) in
      if key \<in> set ParseConfigMap
      then (case ParseRedisMemConf value0 of Inl _ \<Rightarrow> None | Inr value \<Rightarrow> compare value)
      else compare value0))"

definition CheckRedisConfig :: "'e env \<Rightarrow> RedisSentinel \<Rightarrow> string \<Rightarrow> AuthConfig \<Rightarrow> ('e, unit) op" where
  "CheckRedisConfig E rc addr auth =
     bindG (GetAllRedisConfig E \<lparr>Addr = JoinHostPort addr ''6379'', opt_Password = Password auth\<rparr>) (\<lambda>configs.
     bindG (rangeG E (sn_Config (rs_spec rc))) (\<lambda>kvs.
       forG (\<lambda>kv. guardG (configEntryConflict configs kv)) kvs))"

definition CheckRedisNumber :: "'e env \<Rightarrow> RedisSentinel \<Rightarrow> ('e, unit) op" where
  "CheckRedisNumber E rc =
     bindG (GetStatefulSet E (rs_namespace rc) (sentinel_GetRedisName rc)) (\<lambda>ss.
     bindG (derefG (ss_replicas ss)) (\<lambda>replicas.
       if sn_Size (rs_spec rc) \<noteq> replicas
       then failG (ErrorString ''number of redis pods differ from specification'')
       else if sn_Size (rs_spec rc) \<noteq> ss_readyReplicas ss
       then failG (ErrorString ''waiting all of redis pods become ready'')
       else skipG))"

definition CheckSentinelNumber :: "'e env \<Rightarrow> RedisSentinel \<Rightarrow> ('e, unit) op" where
  "CheckSentinelNumber E rc =
     bindG (GetStatefulSet E (rs_namespace rc) (GetSentinelName rc)) (\<lambda>d.
     bindG (derefG (ss_replicas d)) (\<lambda>replicas.
       if se_Replicas (rs_sentinel rc) \<noteq> replicas
       then failG (ErrorString ''number of sentinel pods differ from specification'')
       else skipG))"

definition EnsureSentinelReady :: "'e env \<Rightarrow> RedisSentinel \<Rightarrow> ('e, unit) op" where
  "EnsureSentinelReady E rc =
     bindG (GetStatefulSet E (rs_namespace rc) (GetSentinelName rc)) (\<lambda>d.
       if se_Replicas (rs_sentinel rc) \<noteq> ss_readyReplicas d then failG ErrNeedRequeue else skipG)"

definition CheckSentinelReadyReplicas :: "'e env \<Rightarrow> RedisSentinel \<Rightarrow> ('e, unit) op" where
  "CheckSentinelReadyReplicas E rc =
     bindG (GetStatefulSet E (rs_namespace rc) (GetSentinelName rc)) (\<lambda>d.
       if se_Replicas (rs_sentinel rc) \<noteq> ss_readyReplicas d
       then failG (ErrorString ''waiting all of sentinel pods become ready'') else skipG)"

definition CheckAllSlavesFromMaster ::
  "'e env \<Rightarrow> string \<Rightarrow> RedisSentinel \<Rightarrow> AuthConfig \<Rightarrow> ('e, unit) op" where
  "CheckAllSlavesFromMaster E master rc auth =
     bindG (GetRedisesIPs E rc auth) (\<lambda>rips.
       forG (\<lambda>rip. bindG (GetSlaveMasterIP E rip auth) (\<lambda>slave.
         if slave \<noteq> [] \<and> slave \<noteq> master
         then failG (ErrorString (''slave '' @ rip @ sh '' don~t have the master '' @ master @ '', has '' @ slave))
         else skipG)) rips)"

definition CheckSentinelNumberInMemory ::
  "'e env \<Rightarrow> string \<Rightarrow> RedisSentinel \<Rightarrow> AuthConfig \<Rightarrow> ('e, unit) op" where
  "CheckSentinelNumberInMemory E sentinel rc auth =
     bindG (GetNumberSentinelsInMemory E sentinel auth) (\<lambda>nSentinels.
       if nSentinels \<noteq> se_Replicas (rs_sentinel rc)
       then failG (ErrorString ''sentinels in memory mismatch'') else skipG)"

definition CheckSentinelSlavesNumberInMemory ::
  "'e env \<Rightarrow> string \<Rightarrow> RedisSentinel \<Rightarrow> AuthConfig \<Rightarrow> ('e, unit) op" where
  "CheckSentinelSlavesNumberInMemory E sentinel rc auth =
     bindG (GetNumberSentinelSlavesInMemory E sentinel auth) (\<lambda>nSlaves.
       if nSlaves \<noteq> sn_Size (rs_spec rc) - 1
       then failG (ErrorString (sh ''sentinel~s slaves in memory mismatch'')) else skipG)"

definition CheckSentinelMonitor :: "'e env \<Rightarrow> string \<Rightarrow> string \<Rightarrow> AuthConfig \<Rightarrow> ('e, unit) op" where
  "CheckSentinelMonitor E sentinel monitor auth =
     bindG (GetSentinelMonitor E sentinel auth) (\<lambda>actualMonitorIP.
       if actualMonitorIP \<noteq> monitor
       then failG (ErrorString ''the monitor on the sentinel config does not match with the expected one'')
       else skipG)"

definition collectMaster :: "'e env \<Rightarrow> AuthConfig \<Rightarrow> string \<Rightarrow> string list \<Rightarrow> ('e, string list) op" where
  "collectMaster E auth rip masters =
     bindG (IsMaster E rip auth) (\<lambda>master. retG (if master then masters @ [rip] else masters))"

definition GetMasterIP :: "'e env \<Rightarrow> RedisSentinel \<Rightarrow> AuthConfig \<Rightarrow> ('e, string) op" where
  "GetMasterIP E rc auth =
     bindG (GetRedisesIPs E rc auth) (\<lambda>rips.
     bindG (foldG (collectMaster E auth) rips []) (\<lambda>masters.
       if length masters \<noteq> 1
       then failG (ErrorString ''number of redis nodes known as master is different than 1'')
       else indexG masters 0))"

definition countMaster :: "'e env \<Rightarrow> AuthConfig \<Rightarrow> string \<Rightarrow> int \<Rightarrow> ('e, int) op" where
  "countMaster E auth rip nMasters =
     bindG (IsMaster E rip auth) (\<lambda>master. retG (if master then nMasters + 1 else nMasters))"

definition GetNumberMasters :: "'e env \<Rightarrow> RedisSentinel \<Rightarrow> AuthConfig \<Rightarrow> ('e, int) op" where
  "GetNumberMasters E rc auth =
     bindG (GetRedisesIPs E rc auth) (\<lambda>rips. foldG (countMaster E auth) rips 0)"

definition second :: int where "second = 10 ^ 9"

definition roundTo :: "Time \<Rightarrow> int \<Rightarrow> Time" where
  "roundTo t d = (t + d div 2) div d * d"

definition podAge :: "'e env \<Rightarrow> Pod \<Rightarrow> int \<Rightarrow> ('e, int) op" where
  "podAge E pod minTime =
     (case pod_startTime pod of
        None \<Rightarrow> retG minTime
      | Some st \<Rightarrow> bindG (nowG E) (\<lambda>now.
          let alive = now - roundTo st second in retG (if alive < minTime then alive else minTime)))"

definition GetMinimumRedisPodTime :: "'e env \<Rightarrow> RedisSentinel \<Rightarrow> ('e, int) op" where
  "GetMinimumRedisPodTime E rc =
     bindG (GetStatefulSetPods E (rs_namespace rc) (sentinel_GetRedisName rc)) (\<lambda>rps.
       foldG (podAge E) rps (100000 * 3600 * second))"

subsection \<open>heal.go\<close>

definition healer_MakeMaster :: "'e env \<Rightarrow> string \<Rightarrow> AuthConfig \<Rightarrow> ('e, unit) op" where
  "healer_MakeMaster E ip auth = MakeMaster E ip auth"

definition electStep :: "'e env \<Rightarrow> AuthConfig \<Rightarrow> Pod \<Rightarrow> string \<Rightarrow> ('e, string) op" where
  "electStep E auth pod newMasterIP =
     (if newMasterIP = []
      then seqG (MakeMaster E (pod_ip pod) auth) (retG (pod_ip pod))
      else seqG (MakeSlaveOf E (pod_ip pod) newMasterIP auth) (retG newMasterIP))"

definition olderPod :: "Pod \<Rightarrow> Pod \<Rightarrow> bool" where
  "olderPod a b \<longleftrightarrow> om_creationTimestamp (pod_meta a) < om_creationTimestamp (pod_meta b)"

definition SetOldestAsMaster :: "'e env \<Rightarrow> RedisSentinel \<Rightarrow> AuthConfig \<Rightarrow> ('e, unit) op" where
  "SetOldestAsMaster E rc auth =
     bindG (GetStatefulSetPods E (rs_namespace rc) (sentinel_GetRedisName rc)) (\<lambda>ssp.
       if length ssp < 1 then failG (ErrorString ''number of redis pods are 0'')
       else bindG (foldG (electStep E auth) (E_sortPods E olderPod ssp) []) (\<lambda>_. skipG))"

definition attachStep :: "'e env \<Rightarrow> string \<Rightarrow> AuthConfig \<Rightarrow> Pod \<Rightarrow> ('e, unit) op" where
  "attachStep E masterIP auth pod =
     (if pod_ip pod = masterIP then MakeMaster E masterIP auth else MakeSlaveOf E (pod_ip pod) masterIP auth)"

definition SetMasterOnAll :: "'e env \<Rightarrow> string \<Rightarrow> RedisSentinel \<Rightarrow> AuthConfig \<Rightarrow> ('e, unit) op" where
  "SetMasterOnAll E masterIP rc auth =
     bindG (GetStatefulSetPods E (rs_namespace rc) (sentinel_GetRedisName rc)) (\<lambda>ssp.
       forG (attachStep E masterIP auth) ssp)"

definition NewSentinelMonitor :: "'e env \<Rightarrow> string \<Rightarrow> string \<Rightarrow> RedisSentinel \<Rightarrow> AuthConfig \<Rightarrow> ('e, unit) op" where
  "NewSentinelMonitor E ip monitor rc auth = MonitorRedis E ip monitor (FormatInt (sint (getQuorum rc))) auth"

definition RestoreSentinel :: "'e env \<Rightarrow> string \<Rightarrow> AuthConfig \<Rightarrow> ('e, unit) op" where
  "RestoreSentinel E ip auth = ResetSentinel E ip auth"

definition SetSentinelCustomConfig :: "'e env \<Rightarrow> string \<Rightarrow> RedisSentinel \<Rightarrow> AuthConfig \<Rightarrow> ('e, unit) op" where
  "SetSentinelCustomConfig E ip rc auth =
     (if length (se_CustomConfig (rs_sentinel rc)) = 0 then skipG
      else SetCustomSentinelConfig E ip (se_CustomConfig (rs_sentinel rc)) auth)"

definition SetRedisCustomConfig :: "'e env \<Rightarrow> string \<Rightarrow> RedisSentinel \<Rightarrow> AuthConfig \<Rightarrow> ('e, unit) op" where
  "SetRedisCustomConfig E ip rc auth =
     (if entries (sn_Config (rs_spec rc)) = fmempty \<and> length (Password auth) = 0 then skipG
      else SetCustomRedisConfig E ip (sn_Config (rs_spec rc)) auth)"

subsection \<open>Hypotheses on a cluster\<close>

text \<open>
  \<open>cluster_laws E sts podsOf role\<close>: reading a workload or listing pods returns what the API
  server stores and changes neither that nor the roles of the Redis servers; commands to
  Redis do not change the workloads and pods; and \<open>redis_laws\<close> holds. It excludes that
  something else changes the cluster while the operator acts.
\<close>

definition cluster_laws ::
  "'e env \<Rightarrow> ('e \<Rightarrow> string \<times> string \<Rightarrow> StatefulSet option)
     \<Rightarrow> ('e \<Rightarrow> string \<Rightarrow> (string, string) fmap option \<Rightarrow> Pod list) \<Rightarrow> ('e \<Rightarrow> string \<Rightarrow> string) \<Rightarrow> bool" where
  "cluster_laws E sts podsOf role \<longleftrightarrow> redis_laws E role \<and>
     (\<forall>ns n x r y. kc_Get (E_statefulSets E) ns n x = (r, y) \<longrightarrow>
        sts y = sts x \<and> podsOf y = podsOf x \<and> role y = role x \<and> (\<forall>ss. r = Inr ss \<longrightarrow> sts x (ns, n) = Some ss)) \<and>
     (\<forall>ns sel x r y. kc_List (E_pods E) ns sel x = (r, y) \<longrightarrow>
        sts y = sts x \<and> podsOf y = podsOf x \<and> role y = role x \<and> (\<forall>ps. r = Inr ps \<longrightarrow> ps = podsOf x ns sel)) \<and>
     (\<forall>opt args x r y. E_statusCmd E opt args x = (r, y) \<longrightarrow> sts y = sts x \<and> podsOf y = podsOf x) \<and>
     (\<forall>opt args x r y. E_stringCmd E opt args x = (r, y) \<longrightarrow> sts y = sts x \<and> podsOf y = podsOf x)"

definition clusterPods ::
  "('e \<Rightarrow> string \<times> string \<Rightarrow> StatefulSet option)
     \<Rightarrow> ('e \<Rightarrow> string \<Rightarrow> (string, string) fmap option \<Rightarrow> Pod list) \<Rightarrow> 'e \<Rightarrow> string \<Rightarrow> string \<Rightarrow> Pod list" where
  "clusterPods sts podsOf x ns n =
     (case sts x (ns, n) of
        Some ss \<Rightarrow> (case ss_selector ss of Some sel \<Rightarrow> podsOf x ns (Some (entries sel)) | None \<Rightarrow> [])
      | None \<Rightarrow> [])"

lemma cluster_redis: "cluster_laws E sts podsOf role \<Longrightarrow> redis_laws E role"
  by (simp add: cluster_laws_def)

lemma cluster_get:
  assumes "cluster_laws E sts podsOf role" and "kc_Get (E_statefulSets E) ns n x = (r, y)"
  shows "sts y = sts x \<and> podsOf y = podsOf x \<and> role y = role x \<and> (\<forall>ss. r = Inr ss \<longrightarrow> sts x (ns, n) = Some ss)"
  by (rule assms(1) [unfolded cluster_laws_def, THEN conjunct2, THEN conjunct1,
        THEN spec, THEN spec, THEN spec, THEN spec, THEN spec, THEN mp, OF assms(2)])

lemma cluster_list:
  assumes "cluster_laws E sts podsOf role" and "kc_List (E_pods E) ns sel x = (r, y)"
  shows "sts y = sts x \<and> podsOf y = podsOf x \<and> role y = role x \<and> (\<forall>ps. r = Inr ps \<longrightarrow> ps = podsOf x ns sel)"
  by (rule assms(1) [unfolded cluster_laws_def, THEN conjunct2, THEN conjunct2, THEN conjunct1,
        THEN spec, THEN spec, THEN spec, THEN spec, THEN spec, THEN mp, OF assms(2)])

lemma cluster_cmd:
  assumes "cluster_laws E sts podsOf role"
  shows "E_statusCmd E opt args x = (r, y) \<Longrightarrow> sts y = sts x \<and> podsOf y = podsOf x"
    and "E_stringCmd E opt args x = (r', y) \<Longrightarrow> sts y = sts x \<and> podsOf y = podsOf x"
  using assms unfolding cluster_laws_def by meson+

lemma GetStatefulSetPods_Ok:
  assumes laws: "cluster_laws E sts podsOf role"
    and "GetStatefulSetPods E ns n w = (Ok ps, w')"
  shows "ps = clusterPods sts podsOf (w_ext w) ns n"
    and "sts (w_ext w') = sts (w_ext w)" "podsOf (w_ext w') = podsOf (w_ext w)" "role (w_ext w') = role (w_ext w)"
proof -
  obtain ss x sel where get: "kc_Get (E_statefulSets E) ns n (w_ext w) = (Inr ss, x)" "ss_selector ss = Some sel"
    and list: "kc_List (E_pods E) ns (Some (entries sel)) x = (Inr ps, w_ext w')"
    using assms(2) by (auto simp: GetStatefulSetPods_def GetStatefulSet_def getObj_def bindG_Ok_iff extG_Ok_iff)
  note g = cluster_get [OF laws get(1)] and l = cluster_list [OF laws list]
  show "ps = clusterPods sts podsOf (w_ext w) ns n" using g l get(2) by (simp add: clusterPods_def)
  show "sts (w_ext w') = sts (w_ext w)" "podsOf (w_ext w') = podsOf (w_ext w)" "role (w_ext w') = role (w_ext w)"
    using g l by simp_all
qed

lemma clusterPods_cong:
  "sts y = sts x \<Longrightarrow> podsOf y = podsOf x \<Longrightarrow> clusterPods sts podsOf y = clusterPods sts podsOf x"
  by (rule ext)+ (simp add: clusterPods_def split: option.split)

lemma redis_ops_cluster:
  assumes laws: "cluster_laws E sts podsOf role"
  shows "MakeMaster E ip auth w = (r, w') \<Longrightarrow> sts (w_ext w') = sts (w_ext w) \<and> podsOf (w_ext w') = podsOf (w_ext w)"
    and "MakeSlaveOf E ip m auth w = (r, w') \<Longrightarrow> sts (w_ext w') = sts (w_ext w) \<and> podsOf (w_ext w') = podsOf (w_ext w)"
    and "IsMaster E ip auth w = (b, w') \<Longrightarrow> sts (w_ext w') = sts (w_ext w) \<and> podsOf (w_ext w') = podsOf (w_ext w)"
  by (auto simp: MakeMaster_def MakeSlaveOf_def IsMaster_def bindG_def tryG_def extG_def
      dest!: cluster_cmd [OF laws] split: prod.splits sum.splits res.splits)

lemma redisAddr_inj: "redisAddr a = redisAddr b \<longleftrightarrow> a = b"
proof
  assume eq: "redisAddr a = redisAddr b"
  show "a = b"
  proof (cases "(CHR '':'' \<in> set a) = (CHR '':'' \<in> set b)")
    case True
    with eq show ?thesis by (auto simp: JoinHostPort_def redisPort_def split: if_splits)
  next
    case False
    have "x \<noteq> CHR ''['' # y @ CHR '']'' # z" if "CHR '':'' \<notin> set x" "CHR '':'' \<in> set y" for x y z :: string
      using that by auto
    with False eq show ?thesis
      by (auto simp: JoinHostPort_def redisPort_def split: if_splits)
  qed
qed simp

subsection \<open>Electing and attaching\<close>

lemma electStep_Ok:
  "electStep E auth p m w = (Ok r, w') \<longleftrightarrow>
     (if m = [] then MakeMaster E (pod_ip p) auth w = (Ok (), w') \<and> r = pod_ip p
      else MakeSlaveOf E (pod_ip p) m auth w = (Ok (), w') \<and> r = m)"
  by (auto simp: electStep_def seqG_Ok_iff)

lemma electStep_rest:
  assumes laws: "redis_laws E role" and m: "m \<noteq> []" "m \<noteq> ''NO''"
    and "foldG (electStep E auth) pods m w = (Ok r, w')"
  shows "role (w_ext w') = (\<lambda>a. if a \<in> (\<lambda>p. redisAddr (pod_ip p)) ` set pods then m else role (w_ext w) a)"
  using assms(4)
proof (induction pods arbitrary: w)
  case (Cons p pods)
  obtain w1 where w1: "MakeSlaveOf E (pod_ip p) m auth w = (Ok (), w1)"
    "foldG (electStep E auth) pods m w1 = (Ok r, w')"
    using Cons.prems m(1) by (auto simp: bindG_Ok_iff electStep_Ok)
  from Cons.IH [OF w1(2)] MakeSlaveOf_Ok [OF laws w1(1) m(2)] show ?case by (auto simp: fun_eq_iff)
qed auto

lemma elect_all:
  assumes laws: "redis_laws E role" and m: "pod_ip m \<noteq> []" "pod_ip m \<noteq> ''NO''"
    and dist: "distinct (map pod_ip (m # rest))"
    and run: "foldG (electStep E auth) (m # rest) [] w = (Ok r, w')"
  shows "role (w_ext w') (redisAddr (pod_ip m)) = []"
    and "\<forall>p \<in> set rest. role (w_ext w') (redisAddr (pod_ip p)) = pod_ip m"
proof -
  obtain w1 where w1: "MakeMaster E (pod_ip m) auth w = (Ok (), w1)"
    "foldG (electStep E auth) rest (pod_ip m) w1 = (Ok r, w')"
    using run by (auto simp: electStep_Ok bindG_Ok_iff)
  note roles = electStep_rest [OF laws m w1(2)] MakeMaster_Ok [OF laws w1(1)]
  have "redisAddr (pod_ip m) \<notin> (\<lambda>p. redisAddr (pod_ip p)) ` set rest"
    using dist by (auto simp: redisAddr_inj image_iff)
  then show "role (w_ext w') (redisAddr (pod_ip m)) = []" using roles by simp
  show "\<forall>p \<in> set rest. role (w_ext w') (redisAddr (pod_ip p)) = pod_ip m" using roles by simp
qed

lemma attachStep_all:
  assumes laws: "redis_laws E role" and m: "m \<noteq> ''NO''"
    and "forG (attachStep E m auth) pods w = (Ok u, w')"
  shows "role (w_ext w') = (\<lambda>a. if a \<in> (\<lambda>p. redisAddr (pod_ip p)) ` set pods
      then (if a = redisAddr m then [] else m) else role (w_ext w) a)"
  using assms(3)
proof (induction pods arbitrary: w)
  case (Cons p pods)
  obtain w1 v where w1: "attachStep E m auth p w = (Ok v, w1)" "forG (attachStep E m auth) pods w1 = (Ok u, w')"
    using Cons.prems by (auto simp: seqG_Ok_iff)
  have "role (w_ext w1) = (role (w_ext w))(redisAddr (pod_ip p) := if pod_ip p = m then [] else m)"
    using w1(1) MakeMaster_Ok [OF laws] MakeSlaveOf_Ok [OF laws _ m]
    by (auto simp: attachStep_def split: if_splits)
  with Cons.IH [OF w1(2)] show ?case by (auto simp: fun_eq_iff redisAddr_inj)
qed auto

lemma fold_cluster:
  assumes laws: "cluster_laws E sts podsOf role"
  shows "foldG (electStep E auth) pods m w = (r, w') \<Longrightarrow>
      sts (w_ext w') = sts (w_ext w) \<and> podsOf (w_ext w') = podsOf (w_ext w)"
proof -
  let ?R = "\<lambda>w w'. sts (w_ext w') = sts (w_ext w) \<and> podsOf (w_ext w') = podsOf (w_ext w)"
  have R: "reflp ?R" "transp ?R" by (auto simp: reflp_def transp_def)
  have step: "keeps ?R (MakeMaster E ip auth)" "keeps ?R (MakeSlaveOf E ip n auth)" for ip n
    unfolding keeps_def using redis_ops_cluster [OF laws] by (metis prod.collapse)+
  have "keeps ?R (electStep E auth p n)" for p n
    unfolding electStep_def by (intro keeps_if keeps_seqG keeps_leaf R step)
  then have "keeps ?R (foldG (electStep E auth) pods m)" by (intro keeps_foldG R)
  then show "foldG (electStep E auth) pods m w = (r, w') \<Longrightarrow> ?R w w'" by (rule keepsD)
qed

lemma SetOldestAsMaster_Ok:
  assumes "cluster_laws E sts podsOf role" and "go_sort (E_sortPods E)"
    and "pods = clusterPods sts podsOf (w_ext w) (rs_namespace rc) (sentinel_GetRedisName rc)"
    and "distinct (map pod_ip pods)" and "\<forall>p \<in> set pods. pod_ip p \<noteq> [] \<and> pod_ip p \<noteq> ''NO''"
    and "SetOldestAsMaster E rc auth w = (Ok (), w')"
  shows "\<exists>m \<in> set pods. (\<forall>p \<in> set pods. om_creationTimestamp (pod_meta m) \<le> om_creationTimestamp (pod_meta p))
     \<and> role (w_ext w') (redisAddr (pod_ip m)) = []
     \<and> (\<forall>p \<in> set pods. p \<noteq> m \<longrightarrow> role (w_ext w') (redisAddr (pod_ip p)) = pod_ip m)
     \<and> clusterPods sts podsOf (w_ext w') (rs_namespace rc) (sentinel_GetRedisName rc) = pods"
proof -
  note laws = cluster_redis [OF assms(1)]
  obtain ps w1 where ps: "GetStatefulSetPods E (rs_namespace rc) (sentinel_GetRedisName rc) w = (Ok ps, w1)"
    "(if length ps < 1 then failG (ErrorString ''number of redis pods are 0'')
      else bindG (foldG (electStep E auth) (E_sortPods E olderPod ps) []) (\<lambda>_. skipG)) w1 = (Ok (), w')"
    using assms(6) unfolding SetOldestAsMaster_def by (rule bindG_OkE)
  have eq: "ps = pods" using GetStatefulSetPods_Ok(1) [OF assms(1) ps(1)] assms(3) by simp
  obtain r where w1: "GetStatefulSetPods E (rs_namespace rc) (sentinel_GetRedisName rc) w = (Ok pods, w1)"
    "pods \<noteq> []" "foldG (electStep E auth) (E_sortPods E olderPod pods) [] w1 = (Ok r, w')"
    using ps unfolding eq by (cases "pods = []") (auto simp: bindG_Ok_iff)
  note sorted = go_sortD [OF assms(2), of olderPod "\<lambda>p. om_creationTimestamp (pod_meta p)" pods]
  have perm: "mset (E_sortPods E olderPod pods) = mset pods"
    and ord: "sorted (map (\<lambda>p. om_creationTimestamp (pod_meta p)) (E_sortPods E olderPod pods))"
    using sorted by (simp_all add: olderPod_def)
  then obtain m rest where mr: "E_sortPods E olderPod pods = m # rest"
    using w1(2) by (cases "E_sortPods E olderPod pods") auto
  have set: "set pods = insert m (set rest)" using perm mr by (metis list.simps(15) mset_eq_setD)
  have m: "pod_ip m \<noteq> []" "pod_ip m \<noteq> ''NO''" using assms(5) set by auto
  have "mset (map pod_ip (m # rest)) = mset (map pod_ip pods)" using perm mr by (metis mset_map)
  then have dist: "distinct (map pod_ip (m # rest))" using assms(4) by (metis mset_eq_imp_distinct_iff)
  note roles = elect_all [OF laws m dist w1(3) [unfolded mr]]
  have "clusterPods sts podsOf (w_ext w') = clusterPods sts podsOf (w_ext w)"
    using fold_cluster [OF assms(1) w1(3)] GetStatefulSetPods_Ok [OF assms(1) w1(1)]
    by (intro clusterPods_cong) simp_all
  moreover have "\<forall>p \<in> set pods. om_creationTimestamp (pod_meta m) \<le> om_creationTimestamp (pod_meta p)"
    using ord mr set by auto
  ultimately show ?thesis using roles set assms(3) by auto
qed

text \<open>
  C13. Electing a master by age. Against an API server and Redis servers that do what they are
  documented to do, with pods that have distinct addresses, a run of \<open>SetOldestAsMaster\<close> that
  reports success leaves exactly one master among the pods of the cluster: a pod that is at
  least as old as every other, and every other pod replicates it. The pods are unchanged.
\<close>

theorem SetOldestAsMaster_elects:
  assumes "cluster_laws E sts podsOf role" and "go_sort (E_sortPods E)"
    and "pods = clusterPods sts podsOf (w_ext w) (rs_namespace rc) (sentinel_GetRedisName rc)"
    and "distinct (map pod_ip pods)" and "\<forall>p \<in> set pods. pod_ip p \<noteq> [] \<and> pod_ip p \<noteq> ''NO''"
    and "SetOldestAsMaster E rc auth w = (Ok (), w')"
  shows "\<exists>m \<in> set pods. (\<forall>p \<in> set pods. om_creationTimestamp (pod_meta m) \<le> om_creationTimestamp (pod_meta p))
     \<and> role (w_ext w') (redisAddr (pod_ip m)) = []
     \<and> (\<forall>p \<in> set pods. p \<noteq> m \<longrightarrow> role (w_ext w') (redisAddr (pod_ip p)) = pod_ip m)
     \<and> clusterPods sts podsOf (w_ext w') (rs_namespace rc) (sentinel_GetRedisName rc) = pods"
  using assms by (rule SetOldestAsMaster_Ok)

text \<open>A concrete cluster of two pods, both of which report themselves masters.\<close>

definition samplePod :: "string \<Rightarrow> Time \<Rightarrow> Pod" where
  "samplePod ip t = \<lparr>pod_meta = zeroMeta\<lparr>om_namespace := ''db'', om_name := ip, om_creationTimestamp := t,
       om_labels := roleLabels None RedisRoleName ''x''\<rparr>,
     pod_phase = ''Running'', pod_ip = ip, pod_startTime = None\<rparr>"

definition sampleCluster :: memApi where
  "sampleCluster = emptyMem\<lparr>
     ma_statefulSets := [(''db'', ''redis-worker-x'') \<mapsto> fst (generateRedisStatefulSet (sentinelNamed ''db'' ''x'') None [])],
     ma_pods := [samplePod ''10.0.0.1'' 5, samplePod ''10.0.0.2'' 3]\<rparr>"

definition memPodsOf :: "memApi \<Rightarrow> string \<Rightarrow> (string, string) fmap option \<Rightarrow> Pod list" where
  "memPodsOf x ns sel = filter (\<lambda>p. om_namespace (pod_meta p) = ns \<and> labelsMatch sel (om_labels (pod_meta p))) (ma_pods x)"

lemma memEnv_kinds:
  "E_statefulSets memEnv = memKind ss_meta ma_statefulSets (\<lambda>s. ma_statefulSets_update (\<lambda>_. s))"
  "E_pods memEnv = memPods" "E_sortPods memEnv = insertionSort" "E_sortConditions memEnv = insertionSort"
  by (simp_all only: memEnv_def env.select_convs)

lemma memEnv_cluster: "cluster_laws memEnv ma_statefulSets memPodsOf memRole"
  unfolding cluster_laws_def memEnv_cmds memEnv_kinds
  by (intro conjI allI impI memEnv_redis)
     (auto simp: memKind_def memPods_def memPodsOf_def memRole_def memStatusCmd_def fun_eq_iff
        split: option.splits if_splits)

lemma sampleCluster_pods:
  "clusterPods ma_statefulSets memPodsOf sampleCluster ''db'' ''redis-worker-x'' =
     [samplePod ''10.0.0.1'' 5, samplePod ''10.0.0.2'' 3]"
  by (simp add: clusterPods_def sampleCluster_def memPodsOf_def samplePod_def)

lemma sentinelNamed_x: "sentinel_GetRedisName (sentinelNamed ''db'' ''x'') = ''redis-worker-x''"
  by (simp add: resource_name_defs)

lemma sample_hosts: "goodHost ''10.0.0.1'' \<and> goodHost ''10.0.0.2''"
  by (simp add: goodHost_def isHostChar_def isDigit_def sublist_Cons_right)

lemma sample_pods_listed:
  "GetStatefulSetPods memEnv ''db'' ''redis-worker-x'' (initWorld sampleCluster) =
     (Ok [samplePod ''10.0.0.1'' 5, samplePod ''10.0.0.2'' 3], initWorld sampleCluster)"
  by (simp add: GetStatefulSetPods_def GetStatefulSet_def getObj_def bindG_run extG_def memEnv_kinds memKind_def
      memPods_def initWorld_def sampleCluster_def samplePod_def)

lemma sample_election_runs:
  "fst (SetOldestAsMaster memEnv (sentinelNamed ''db'' ''x'') \<lparr>Password = []\<rparr> (initWorld sampleCluster)) = Ok ()"
proof -
  have order: "insertionSort olderPod [samplePod ''10.0.0.1'' 5, samplePod ''10.0.0.2'' 3] =
      [samplePod ''10.0.0.2'' 3, samplePod ''10.0.0.1'' 5]"
    by (simp add: olderPod_def samplePod_def)
  have ips: "pod_ip (samplePod ip t) = ip" for ip t by (simp add: samplePod_def)
  show ?thesis
    using sample_hosts
    by (simp add: SetOldestAsMaster_def sentinelNamed_x bindG_run sample_pods_listed memEnv_kinds order electStep_def ips
        seqG_run MakeMaster_def MakeSlaveOf_def extG_def memEnv_cmds memStatusCmd_def)
qed

theorem SetOldestAsMaster_elects_witness:
  "\<exists>w'. SetOldestAsMaster memEnv (sentinelNamed ''db'' ''x'') \<lparr>Password = []\<rparr> (initWorld sampleCluster) = (Ok (), w')
     \<and> (\<exists>m \<in> {samplePod ''10.0.0.1'' 5, samplePod ''10.0.0.2'' 3}.
          memRole (w_ext w') (redisAddr (pod_ip m)) = [] \<and> om_creationTimestamp (pod_meta m) \<le> 3)"
proof -
  obtain w' where run: "SetOldestAsMaster memEnv (sentinelNamed ''db'' ''x'') \<lparr>Password = []\<rparr>
      (initWorld sampleCluster) = (Ok (), w')"
    using sample_election_runs by (metis prod.collapse)
  have "go_sort (E_sortPods memEnv)" unfolding memEnv_kinds by (rule go_sort_insertionSort)
  from SetOldestAsMaster_elects [OF memEnv_cluster this _ _ _ run,
      of "[samplePod ''10.0.0.1'' 5, samplePod ''10.0.0.2'' 3]"] sampleCluster_pods
  show ?thesis using run by (auto simp: sentinelNamed_x initWorld_def samplePod_def)
qed

subsection \<open>Keeping a workload in its desired state\<close>

text \<open>
  Hypotheses: \<open>separate_kinds\<close>, calls about disruption budgets do not touch the stored
  workloads; \<open>stored_as_written\<close>, the server stores the replicas and, for each container, the
  name and the resources of the given workload as they are written (it adds no defaults to
  them).
\<close>

definition separate_kinds :: "'e env \<Rightarrow> ('e \<Rightarrow> string \<times> string \<Rightarrow> StatefulSet option) \<Rightarrow> bool" where
  "separate_kinds E sts \<longleftrightarrow>
     (\<forall>ns n x r y. kc_Get (E_pdbs E) ns n x = (r, y) \<longrightarrow> sts y = sts x) \<and>
     (\<forall>o1 x r y. kc_Create (E_pdbs E) o1 x = (r, y) \<longrightarrow> sts y = sts x)"

definition containerView :: "StatefulSet \<Rightarrow> (string \<times> ResourceRequirements) list" where
  "containerView ss = map (\<lambda>c. (ct_name c, ct_resources c)) (ps_containers (pt_spec (ss_template ss)))"

definition stored_as_written :: "'e env \<Rightarrow> StatefulSet \<Rightarrow> bool" where
  "stored_as_written E ss \<longleftrightarrow>
     (\<forall>x ss' y. kc_Create (E_statefulSets E) ss x = (Inr ss', y) \<or> kc_Update (E_statefulSets E) ss x = (Inr ss', y)
        \<longrightarrow> ss_replicas ss' = ss_replicas ss \<and> containerView ss' = containerView ss)"

lemma ensurePodDisruptionBudget_keeps:
  assumes "separate_kinds E sts" and "ensurePodDisruptionBudget E rc n c labels refs w = (r, w')"
  shows "sts (w_ext w') = sts (w_ext w)" and "extOnly w w'"
proof -
  let ?R = "same (\<lambda>w. sts (w_ext w))"
  have ext: "keeps ?R (extG (kc_Get (E_pdbs E) ns n))" "keeps ?R (extG (kc_Create (E_pdbs E) o1))" for ns n o1
    using assms(1) by (auto simp: keeps_def same_def extG_def separate_kinds_def split: prod.splits sum.splits)
  have "keeps ?R (CreateIfNotExistsPodDisruptionBudget E ns o1)" for ns o1
    unfolding CreateIfNotExistsPodDisruptionBudget_def GetPodDisruptionBudget_def CreatePodDisruptionBudget_def
      getObj_def createObj_def
    by (intro keeps_tryG keeps_bindG keeps_if keeps_leaf same_order ext)
  then have "keeps ?R (ensurePodDisruptionBudget E rc n c labels refs)"
    by (simp add: ensurePodDisruptionBudget_def Let_def)
  with assms(2) show "sts (w_ext w') = sts (w_ext w)" by (auto dest: keeps_sameD)
  have "keeps extOnly (ensurePodDisruptionBudget E rc n c labels refs)"
    unfolding ensurePodDisruptionBudget_def Let_def by (rule wrappers_extOnly)
  with assms(2) show "extOnly w w'" by (auto dest: keepsD)
qed

locale workload_ensurer =
  fixes E :: "'e env" and desired :: StatefulSet and outdated :: "StatefulSet \<Rightarrow> bool"
    and budget :: "('e, unit) op" and mark :: "'e world \<Rightarrow> 'e world"
    and ready :: "'e world \<Rightarrow> bool" and ensure :: "('e, unit) op"
  assumes ensure_run: "ready w \<Longrightarrow> ensure w =
      seqG budget (tryG (GetStatefulSet E (om_namespace (ss_meta desired)) (om_name (ss_meta desired)))
        (\<lambda>err. if IsNotFound err
               then seqG (modifyG mark) (CreateStatefulSet E (om_namespace (ss_meta desired)) desired) else failG err)
        (\<lambda>old. bindG (indexG (ps_containers (pt_spec (ss_template old))) 0) (\<lambda>c.
               bindG (derefG (ss_replicas old)) (\<lambda>n.
                 if outdated old
                 then seqG (modifyG mark) (UpdateStatefulSet E (om_namespace (ss_meta desired)) desired)
                 else skipG)))) w"
    and budget_keeps: "separate_kinds E sts \<Longrightarrow> budget w = (r, w') \<Longrightarrow> sts (w_ext w') = sts (w_ext w)"
    and mark_ext: "w_ext (mark w) = w_ext w"
    and desired_current: "\<not> outdated desired"
    and outdated_view: "ss_replicas s = ss_replicas s' \<Longrightarrow> containerView s = containerView s' \<Longrightarrow>
       outdated s = outdated s'"
begin

lemma write_run:
  assumes "seqG (modifyG mark) (CreateStatefulSet E ns desired) w = (Ok u, w')
      \<or> seqG (modifyG mark) (UpdateStatefulSet E ns desired) w = (Ok u, w')"
    and "api_laws (E_statefulSets E) ss_meta sts"
  shows "\<exists>ss. sts (w_ext w') = (sts (w_ext w))(metaKey (ss_meta desired) \<mapsto> ss)
     \<and> (stored_as_written E desired \<longrightarrow> \<not> outdated ss)"
proof -
  obtain ss where "kc_Create (E_statefulSets E) desired (w_ext w) = (Inr ss, w_ext w')
      \<or> kc_Update (E_statefulSets E) desired (w_ext w) = (Inr ss, w_ext w')"
    using assms(1)
    by (fastforce simp: seqG_run bindG_Ok_iff extG_Ok_iff mark_ext CreateStatefulSet_def UpdateStatefulSet_def
        createObj_def updateObj_def)
  moreover from this have "stored_as_written E desired \<longrightarrow> \<not> outdated ss"
    using outdated_view [of ss desired] desired_current unfolding stored_as_written_def by blast
  ultimately show ?thesis using api_lawsD(4,5) [OF assms(2)] by blast
qed

lemma ensure_effect:
  assumes laws: "api_laws (E_statefulSets E) ss_meta sts" "separate_kinds E sts"
    and run: "ready w" "ensure w = (Ok u, w')"
  shows "\<exists>ss. sts (w_ext w') = (sts (w_ext w))(metaKey (ss_meta desired) \<mapsto> ss)
     \<and> (stored_as_written E desired \<longrightarrow> \<not> outdated ss)
     \<and> (\<forall>old. sts (w_ext w) (metaKey (ss_meta desired)) = Some old \<and> \<not> outdated old \<longrightarrow> ss = old)"
proof -
  let ?key = "metaKey (ss_meta desired)" and ?ns = "om_namespace (ss_meta desired)" and ?n = "om_name (ss_meta desired)"
  obtain w1 where w1: "budget w = (Ok (), w1)" "tryG (GetStatefulSet E ?ns ?n)
        (\<lambda>err. if IsNotFound err then seqG (modifyG mark) (CreateStatefulSet E ?ns desired) else failG err)
        (\<lambda>old. bindG (indexG (ps_containers (pt_spec (ss_template old))) 0) (\<lambda>c.
               bindG (derefG (ss_replicas old)) (\<lambda>n. if outdated old
                 then seqG (modifyG mark) (UpdateStatefulSet E ?ns desired) else skipG))) w1 = (Ok u, w')"
    using run unfolding ensure_run [OF run(1)] by (auto simp: seqG_Ok_iff)
  have s1: "sts (w_ext w1) = sts (w_ext w)" using budget_keeps [OF laws(2) w1(1)] by simp
  show ?thesis using w1(2)
  proof (cases rule: tryG_OkE)
    case (ok old t)
    then have get: "kc_Get (E_statefulSets E) ?ns ?n (w_ext w1) = (Inr old, w_ext t)"
      by (auto simp: GetStatefulSet_def getObj_def extG_Ok_iff)
    have old: "sts (w_ext w) ?key = Some old" "sts (w_ext t) = sts (w_ext w)"
      using api_lawsD(1,2) [OF laws(1) get] s1 by (simp_all add: metaKey_def)
    show ?thesis
    proof (cases "outdated old")
      case True
      with ok(2) have "seqG (modifyG mark) (UpdateStatefulSet E ?ns desired) t = (Ok u, w')"
        by (auto simp: bindG_Ok_iff)
      then show ?thesis using write_run [OF _ laws(1)] old True by fastforce
    next
      case False
      with ok(2) have "w' = t" by (auto simp: bindG_Ok_iff)
      then show ?thesis using old False by (intro exI [of _ old]) auto
    qed
  next
    case (err e t)
    then have get: "kc_Get (E_statefulSets E) ?ns ?n (w_ext w1) = (Inl e, w_ext t)" and nf: "IsNotFound e"
      by (auto simp: GetStatefulSet_def getObj_def extG_Fail_iff split: if_splits)
    have old: "sts (w_ext w) ?key = None" "sts (w_ext t) = sts (w_ext w)"
      using api_lawsD(1,3) [OF laws(1) get] nf s1 by (simp_all add: metaKey_def)
    have "seqG (modifyG mark) (CreateStatefulSet E ?ns desired) t = (Ok u, w')" using err(2) nf by simp
    then show ?thesis using write_run [OF _ laws(1)] old by fastforce
  qed
qed

lemma ensure_reaches:
  assumes "api_laws (E_statefulSets E) ss_meta sts" "separate_kinds E sts" "stored_as_written E desired"
    and "ready w" "ensure w = (Ok u, w')"
  shows "\<exists>ss. sts (w_ext w') = (sts (w_ext w))(metaKey (ss_meta desired) \<mapsto> ss) \<and> \<not> outdated ss
     \<and> (\<forall>old. sts (w_ext w) (metaKey (ss_meta desired)) = Some old \<and> \<not> outdated old \<longrightarrow> ss = old)"
  using ensure_effect [OF assms(1,2,4,5)] assms(3) by blast

text \<open>A frame of the parts is a frame of the whole.\<close>

lemma ensure_frame:
  assumes "reflp R" "transp R" "keeps R budget" "keeps R (modifyG mark)"
    "\<And>(f :: 'e \<Rightarrow> (GoErr + StatefulSet) \<times> 'e). keeps R (extG f)" and "ready w" and "ensure w = (r, w')"
  shows "R w w'"
proof -
  have "keeps R (seqG budget (tryG (GetStatefulSet E (om_namespace (ss_meta desired)) (om_name (ss_meta desired)))
        (\<lambda>err. if IsNotFound err
               then seqG (modifyG mark) (CreateStatefulSet E (om_namespace (ss_meta desired)) desired) else failG err)
        (\<lambda>old. bindG (indexG (ps_containers (pt_spec (ss_template old))) 0) (\<lambda>c. bindG (derefG (ss_replicas old)) (\<lambda>n.
           if outdated old then seqG (modifyG mark) (UpdateStatefulSet E (om_namespace (ss_meta desired)) desired) else skipG)))))"
    unfolding GetStatefulSet_def CreateStatefulSet_def UpdateStatefulSet_def getObj_def createObj_def updateObj_def
    by (intro keeps_tryG keeps_bindG keeps_seqG keeps_if keeps_leaf assms)
  then show ?thesis using assms(7) unfolding ensure_run [OF assms(6)] by (rule keepsD)
qed

end

definition workloadOutdated :: "ResourceRequirements \<Rightarrow> int32 \<Rightarrow> StatefulSet \<Rightarrow> bool" where
  "workloadOutdated res n ss \<longleftrightarrow>
     shouldUpdateRedis res (ct_resources (ps_containers (pt_spec (ss_template ss)) ! 0)) n (the (ss_replicas ss))"

lemma shouldUpdateRedis_same [simp]: "\<not> shouldUpdateRedis res res n n"
  by (simp add: shouldUpdateRedis_def)

lemma workloadOutdated_view:
  assumes "ss_replicas s = ss_replicas s'" and "containerView s = containerView s'"
  shows "workloadOutdated res n s = workloadOutdated res n s'"
proof -
  let ?cs = "ps_containers (pt_spec (ss_template s))" and ?cs' = "ps_containers (pt_spec (ss_template s'))"
  have "map ct_resources ?cs = map ct_resources ?cs'"
    using arg_cong [OF assms(2), of "map snd"] by (simp add: containerView_def comp_def)
  then have "ct_resources (?cs ! 0) = ct_resources (?cs' ! 0)" by (cases ?cs; cases ?cs') auto
  then show ?thesis using assms(1) by (simp add: workloadOutdated_def)
qed

lemma exporterChanged_view:
  assumes "containerView s = containerView s'"
  shows "exporterChanged rc s = exporterChanged rc s'"
proof -
  let ?cs = "ps_containers (pt_spec (ss_template s))" and ?cs' = "ps_containers (pt_spec (ss_template s'))"
  have "map ct_name ?cs = map ct_name ?cs'"
    using arg_cong [OF assms, of "map fst"] by (simp add: containerView_def comp_def)
  then have "ct_name ` set ?cs = ct_name ` set ?cs'" by (metis list.set_map)
  moreover have ex: "list_ex (\<lambda>c. ct_name c = n) cs \<longleftrightarrow> n \<in> ct_name ` set cs" for n cs by (auto simp: list_ex_iff)
  ultimately show ?thesis unfolding exporterChanged_def ex by simp
qed

lemma workload_cont_cong:
  "bindG (indexG cs 0) (\<lambda>c. bindG (derefG q) (\<lambda>n. if P c n then A else B)) =
   bindG (indexG cs 0) (\<lambda>c. bindG (derefG q) (\<lambda>n. if P (cs ! 0) (the q) then A else B))"
  by (rule ext) (auto simp: bindG_def tryG_def indexG_def derefG_def split: option.splits)

lemma seq_modify_id [simp]: "seqG (modifyG (\<lambda>w. w)) m = m"
  by (simp add: fun_eq_iff seqG_run)

lemma container_names [simp]:
  "ct_name (redisContainer rc) = ''redis''" "ct_resources (redisContainer rc) = sn_Resources (rs_spec rc)"
  "ct_name (createRedisExporterContainer rc) = ExporterContainerName"
  "ct_resources (sentinelContainer rc) = se_Resources (rs_sentinel rc)"
  by (simp_all add: redisContainer_def createRedisExporterContainer_def sentinelContainer_def Let_def)

interpretation ssw: workload_ensurer E "generateSentinelStatefulSet rc labels refs"
    "workloadOutdated (se_Resources (rs_sentinel rc)) (se_Replicas (rs_sentinel rc))"
    "ensurePodDisruptionBudget E rc SentinelName SentinelRoleName labels refs"
    "\<lambda>w. w" "\<lambda>_. True" "EnsureSentinelStatefulset E rc labels refs" for E rc labels refs
proof
  show "EnsureSentinelStatefulset E rc labels refs w = seqG
      (ensurePodDisruptionBudget E rc SentinelName SentinelRoleName labels refs)
      (tryG (GetStatefulSet E (om_namespace (ss_meta (generateSentinelStatefulSet rc labels refs)))
               (om_name (ss_meta (generateSentinelStatefulSet rc labels refs))))
        (\<lambda>err. if IsNotFound err then seqG (modifyG (\<lambda>w. w)) (CreateStatefulSet E
             (om_namespace (ss_meta (generateSentinelStatefulSet rc labels refs)))
             (generateSentinelStatefulSet rc labels refs)) else failG err)
        (\<lambda>old. bindG (indexG (ps_containers (pt_spec (ss_template old))) 0) (\<lambda>c.
           bindG (derefG (ss_replicas old)) (\<lambda>n.
             if workloadOutdated (se_Resources (rs_sentinel rc)) (se_Replicas (rs_sentinel rc)) old
             then seqG (modifyG (\<lambda>w. w)) (UpdateStatefulSet E
               (om_namespace (ss_meta (generateSentinelStatefulSet rc labels refs)))
               (generateSentinelStatefulSet rc labels refs)) else skipG)))) w" for w
    unfolding EnsureSentinelStatefulset_def workloadOutdated_def generateSentinelStatefulSet_proj seq_modify_id
    by (subst workload_cont_cong) (rule refl)
  show "\<not> workloadOutdated (se_Resources (rs_sentinel rc)) (se_Replicas (rs_sentinel rc))
      (generateSentinelStatefulSet rc labels refs)"
    by (simp add: workloadOutdated_def)
qed (rule ensurePodDisruptionBudget_keeps, assumption+, rule refl, rule workloadOutdated_view, assumption+)

interpretation rsw: workload_ensurer E "fst (generateRedisStatefulSet rc labels refs)"
    "\<lambda>ss. workloadOutdated (sn_Resources (rs_spec rc)) (sn_Size (rs_spec rc)) ss \<or> exporterChanged rc ss"
    "ensurePodDisruptionBudget E rc UtilRedisName RedisRoleName labels refs"
    "\<lambda>w. w\<lparr>w_rs := (w_rs w)(p := snd (generateRedisStatefulSet rc labels refs))\<rparr>"
    "\<lambda>w. w_rs w p = rc" "EnsureRedisStatefulset E p labels refs" for E rc labels refs p
proof
  let ?ss = "generateRedisStatefulSet rc labels refs"
  show "EnsureRedisStatefulset E p labels refs w = seqG
      (ensurePodDisruptionBudget E rc UtilRedisName RedisRoleName labels refs)
      (tryG (GetStatefulSet E (om_namespace (ss_meta (fst ?ss))) (om_name (ss_meta (fst ?ss))))
        (\<lambda>err. if IsNotFound err
           then seqG (modifyG (\<lambda>w. w\<lparr>w_rs := (w_rs w)(p := snd ?ss)\<rparr>))
                  (CreateStatefulSet E (om_namespace (ss_meta (fst ?ss))) (fst ?ss)) else failG err)
        (\<lambda>old. bindG (indexG (ps_containers (pt_spec (ss_template old))) 0) (\<lambda>c.
           bindG (derefG (ss_replicas old)) (\<lambda>n.
             if workloadOutdated (sn_Resources (rs_spec rc)) (sn_Size (rs_spec rc)) old \<or> exporterChanged rc old
             then seqG (modifyG (\<lambda>w. w\<lparr>w_rs := (w_rs w)(p := snd ?ss)\<rparr>))
                    (UpdateStatefulSet E (om_namespace (ss_meta (fst ?ss))) (fst ?ss)) else skipG)))) w"
    if "w_rs w p = rc" for w
    unfolding EnsureRedisStatefulset_def getRs_def readG_run that workloadOutdated_def
      generateRedisStatefulSet_proj setRs_def split_def Let_def
    by (subst workload_cont_cong) (rule refl)
  show "\<not> (workloadOutdated (sn_Resources (rs_spec rc)) (sn_Size (rs_spec rc)) (fst ?ss) \<or> exporterChanged rc (fst ?ss))"
    by (simp add: workloadOutdated_def exporterChanged_def ExporterContainerName_def)
  show "(workloadOutdated (sn_Resources (rs_spec rc)) (sn_Size (rs_spec rc)) s \<or> exporterChanged rc s)
      = (workloadOutdated (sn_Resources (rs_spec rc)) (sn_Size (rs_spec rc)) s' \<or> exporterChanged rc s')"
    if "ss_replicas s = ss_replicas s'" "containerView s = containerView s'" for s s'
    using workloadOutdated_view [OF that] exporterChanged_view [OF that(2)] by simp
qed (rule ensurePodDisruptionBudget_keeps, assumption+, simp)

subsection \<open>Properties of the workload client\<close>

lemma memEnv_stored: "stored_as_written memEnv ss" "separate_kinds memEnv ma_statefulSets"
proof -
  show "stored_as_written memEnv ss"
    by (auto simp: stored_as_written_def memEnv_kinds memKind_def split: option.splits)
  have "E_pdbs memEnv = memKind pdb_meta ma_pdbs (\<lambda>s. ma_pdbs_update (\<lambda>_. s))"
    by (simp only: memEnv_def env.select_convs)
  then show "separate_kinds memEnv ma_statefulSets"
    by (auto simp: separate_kinds_def memKind_def split: option.splits)
qed

lemma sample_ensure_runs:
  "fst (EnsureRedisStatefulset memEnv 0 None [] ((initWorld emptyMem)\<lparr>w_rs := \<lambda>_. sentinelNamed ''db'' ''x''\<rparr>)) = Ok ()"
proof -
  have "E_pdbs memEnv = memKind pdb_meta ma_pdbs (\<lambda>s. ma_pdbs_update (\<lambda>_. s))"
    by (simp only: memEnv_def env.select_convs)
  then show ?thesis
    by (simp add: EnsureRedisStatefulset_def ptr_defs ensurePodDisruptionBudget_def Let_def
        CreateIfNotExistsPodDisruptionBudget_def GetPodDisruptionBudget_def CreatePodDisruptionBudget_def
        GetStatefulSet_def CreateStatefulSet_def getObj_def createObj_run seqG_case tryG_def extG_def
        memEnv_kinds memKind_def initWorld_def emptyMem_def split_def)
qed


definition upgradedSample :: RedisSentinel where
  "upgradedSample = upd_rs_spec (sn_Image_update (\<lambda>_. ''redis:6'')) (sentinelNamed ''db'' ''x'')"

definition upgradeWorld :: "memApi world" where
  "upgradeWorld = (initWorld (emptyMem\<lparr>ma_statefulSets :=
     [(''db'', ''redis-worker-x'') \<mapsto> fst (generateRedisStatefulSet (sentinelNamed ''db'' ''x'') None [])]\<rparr>))
       \<lparr>w_rs := \<lambda>_. upgradedSample\<rparr>"

lemma upgradedSample_name: "sentinel_GetRedisName upgradedSample = ''redis-worker-x''"
  "rs_namespace upgradedSample = ''db''"
  by (simp_all add: upgradedSample_def resource_name_defs)

lemma upgrade_runs: "fst (EnsureRedisStatefulset memEnv 0 None [] upgradeWorld) = Ok ()"
proof -
  have pdbs: "E_pdbs memEnv = memKind pdb_meta ma_pdbs (\<lambda>s. ma_pdbs_update (\<lambda>_. s))"
    by (simp only: memEnv_def env.select_convs)
  have same: "\<not> shouldUpdateRedis (sn_Resources (rs_spec upgradedSample)) (sn_Resources (rs_spec (sentinelNamed ''db'' ''x'')))
      (sn_Size (rs_spec upgradedSample)) (sn_Size (rs_spec (sentinelNamed ''db'' ''x'')))"
    "\<not> exporterChanged upgradedSample (fst (generateRedisStatefulSet (sentinelNamed ''db'' ''x'') None []))"
    by (simp_all add: upgradedSample_def exporterChanged_def ExporterContainerName_def)
  have "upgradedSample = w_rs upgradeWorld 0" by (simp add: upgradeWorld_def)
  then show ?thesis
    by (simp add: EnsureRedisStatefulset_def ptr_defs ensurePodDisruptionBudget_def Let_def
        CreateIfNotExistsPodDisruptionBudget_def GetPodDisruptionBudget_def CreatePodDisruptionBudget_def
        GetStatefulSet_def getObj_def createObj_run seqG_case tryG_def extG_def pdbs bindG_def indexG_def
        memEnv_kinds memKind_def upgradeWorld_def initWorld_def emptyMem_def same upgradedSample_name)
qed


subsection \<open>Properties of the checker and the healer\<close>

lemma masterStep_Ok:
  "collectMaster E auth ip ms w = (Ok r, w') \<longleftrightarrow>
     (\<exists>b. IsMaster E ip auth w = (Ok b, w') \<and> r = (if b then ms @ [ip] else ms))"
  "countMaster E auth ip n w = (Ok k, w') \<longleftrightarrow>
     (\<exists>b. IsMaster E ip auth w = (Ok b, w') \<and> k = (if b then n + 1 else n))"
  by (auto simp: collectMaster_def countMaster_def bindG_Ok_iff)

lemma collectMaster_fold:
  assumes laws: "redis_laws E role" and "foldG (collectMaster E auth) ips ms w = (Ok r, w')"
  shows "r = ms @ filter (\<lambda>ip. role (w_ext w) (redisAddr ip) = []) ips \<and> role (w_ext w') = role (w_ext w)"
  using assms(2)
proof (induction ips arbitrary: ms w)
  case (Cons ip ips)
  obtain b w1 where "IsMaster E ip auth w = (Ok b, w1)"
    "foldG (collectMaster E auth) ips (if b then ms @ [ip] else ms) w1 = (Ok r, w')"
    using Cons.prems by (auto simp: masterStep_Ok bindG_Ok_iff)
  with Cons.IH [of "if b then ms @ [ip] else ms" w1] IsMaster_Ok [OF laws, of ip auth w b w1]
  show ?case by auto
qed auto

lemma countMaster_fold:
  assumes laws: "redis_laws E role" and "foldG (countMaster E auth) ips n w = (Ok r, w')"
  shows "r = n + int (length (filter (\<lambda>ip. role (w_ext w) (redisAddr ip) = []) ips)) \<and> role (w_ext w') = role (w_ext w)"
  using assms(2)
proof (induction ips arbitrary: n w)
  case (Cons ip ips)
  obtain b w1 where "IsMaster E ip auth w = (Ok b, w1)"
    "foldG (countMaster E auth) ips (if b then n + 1 else n) w1 = (Ok r, w')"
    using Cons.prems by (auto simp: masterStep_Ok bindG_Ok_iff)
  with Cons.IH [of "if b then n + 1 else n" w1] IsMaster_Ok [OF laws, of ip auth w b w1]
  show ?case by auto
qed auto

definition masterIPs :: "('x \<Rightarrow> string \<Rightarrow> string) \<Rightarrow> 'x \<Rightarrow> Pod list \<Rightarrow> string list" where
  "masterIPs role x pods = filter (\<lambda>ip. role x (redisAddr ip) = []) (runningIPs pods)"

lemma GetRedisesIPs_Ok:
  assumes "cluster_laws E sts podsOf role" and "GetRedisesIPs E rc auth w = (Ok ips, w')"
  shows "ips = runningIPs (clusterPods sts podsOf (w_ext w) (rs_namespace rc) (sentinel_GetRedisName rc))"
    and "role (w_ext w') = role (w_ext w)"
  using assms(2) GetStatefulSetPods_Ok [OF assms(1)] by (auto simp: GetRedisesIPs_def bindG_Ok_iff)

lemma GetNumberMasters_Ok:
  assumes laws: "cluster_laws E sts podsOf role" and run: "GetNumberMasters E rc auth w = (Ok n, w')"
  shows "n = int (length (masterIPs role (w_ext w)
           (clusterPods sts podsOf (w_ext w) (rs_namespace rc) (sentinel_GetRedisName rc))))"
    and "role (w_ext w') = role (w_ext w)"
proof -
  obtain ips w1 where r: "GetRedisesIPs E rc auth w = (Ok ips, w1)"
    "foldG (countMaster E auth) ips 0 w1 = (Ok n, w')" using run by (auto simp: GetNumberMasters_def bindG_Ok_iff)
  from countMaster_fold [OF cluster_redis [OF laws] r(2)] GetRedisesIPs_Ok [OF laws r(1)]
  show "n = int (length (masterIPs role (w_ext w)
           (clusterPods sts podsOf (w_ext w) (rs_namespace rc) (sentinel_GetRedisName rc))))"
    and "role (w_ext w') = role (w_ext w)" by (simp_all add: masterIPs_def)
qed

lemma GetMasterIP_Ok:
  assumes laws: "cluster_laws E sts podsOf role" and run: "GetMasterIP E rc auth w = (Ok m, w')"
  shows "masterIPs role (w_ext w)
           (clusterPods sts podsOf (w_ext w) (rs_namespace rc) (sentinel_GetRedisName rc)) = [m]"
    and "role (w_ext w') = role (w_ext w)"
proof -
  obtain ips w1 ms w2 where r: "GetRedisesIPs E rc auth w = (Ok ips, w1)"
    "foldG (collectMaster E auth) ips [] w1 = (Ok ms, w2)" "length ms = 1" "m = ms ! 0" "w' = w2"
    using run by (auto simp: GetMasterIP_def bindG_Ok_iff split: if_splits)
  from collectMaster_fold [OF cluster_redis [OF laws] r(2)] GetRedisesIPs_Ok [OF laws r(1)] r(3-5)
  show "masterIPs role (w_ext w)
      (clusterPods sts podsOf (w_ext w) (rs_namespace rc) (sentinel_GetRedisName rc)) = [m]"
    and "role (w_ext w') = role (w_ext w)" by (auto simp: masterIPs_def length_Suc_conv)
qed

lemma SetMasterOnAll_Ok:
  assumes laws: "cluster_laws E sts podsOf role" and m: "m \<noteq> ''NO''"
    and run: "SetMasterOnAll E m rc auth w = (Ok u, w')"
  shows "role (w_ext w') = (\<lambda>a.
     if a \<in> (\<lambda>p. redisAddr (pod_ip p)) ` set (clusterPods sts podsOf (w_ext w) (rs_namespace rc) (sentinel_GetRedisName rc))
     then (if a = redisAddr m then [] else m) else role (w_ext w) a)"
proof -
  obtain ps w1 where r: "GetStatefulSetPods E (rs_namespace rc) (sentinel_GetRedisName rc) w = (Ok ps, w1)"
    "forG (attachStep E m auth) ps w1 = (Ok u, w')" using run by (auto simp: SetMasterOnAll_def bindG_Ok_iff)
  note p = GetStatefulSetPods_Ok [OF laws r(1)]
  show ?thesis
    using attachStep_all [OF cluster_redis [OF laws] m r(2)] unfolding p(1) p(4) .
qed

end
