(* ===== verification/Sentinel_Handler.thy ===== *)
theory Sentinel_Handler
  imports Sentinel_Service
begin

text \<open>
  The controller of RedisSentinel: \<open>controllers/redissentinel_handler.go\<close> and
  \<open>controllers/redissentinel_controller.go\<close>. \<open>sentinel_Do\<close> receives the pointer to the object
  that \<open>sentinel_Reconcile\<close> fetched; the cached entry may point to the same object or to an
  earlier one, and both may be overwritten by a reply of the API server.
  The metadata cache serialises nothing: like the code, the model assumes that a key is
  reconciled by one worker at a time, which controller-runtime's work queue guarantees.
\<close>

subsection \<open>Owner references and labels\<close>

definition Group :: string where "Group = ''redis.lovelycat.io''"
definition Version :: string where "Version = ''v1alpha1''"
definition RedisSentinelKind :: string where "RedisSentinelKind = ''RedisSentinel''"
definition RedisStandaloneKind :: string where "RedisStandaloneKind = ''RedisStandalone''"

record GroupVersionKind =
  gvk_group :: string
  gvk_version :: string
  gvk_kind :: string

definition VersionKind :: "string \<Rightarrow> GroupVersionKind" where
  "VersionKind kind = \<lparr>gvk_group = Group, gvk_version = Version, gvk_kind = kind\<rparr>"

text \<open>\<open>metav1.NewControllerRef\<close>: a reference to the owner that marks it as the controller.\<close>

definition NewControllerRef :: "ObjectMeta \<Rightarrow> GroupVersionKind \<Rightarrow> OwnerReference" where
  "NewControllerRef owner gvk = \<lparr>or_apiVersion = gvk_group gvk @ ''/'' @ gvk_version gvk, or_kind = gvk_kind gvk,
     or_name = om_name owner, or_uid = om_uid owner, or_blockOwnerDeletion = Some True, or_controller = Some True\<rparr>"

definition sentinel_createOwnerReferences :: "RedisSentinel \<Rightarrow> OwnerReference list" where
  "sentinel_createOwnerReferences rc = [NewControllerRef (rs_meta rc) (VersionKind RedisSentinelKind)]"

definition sentinel_getLabels :: "RedisSentinel \<Rightarrow> strmap" where
  "sentinel_getLabels rc =
     (let dynLabels = mapLit [(LabelNameKey, rs_namespace rc @ ''_'' @ rs_name rc)] in
      MergeLabels [DefaultLabels, dynLabels, om_labels (rs_meta rc)])"

subsection \<open>Status\<close>

text \<open>The \<open>switch meta.Status\<close> of \<open>updateStatus\<close>.\<close>

definition sentinel_announce :: "'e env \<Rightarrow> Meta \<Rightarrow> ObjectMeta \<Rightarrow> ('e, unit) op" where
  "sentinel_announce E meta om =
     (let p = m_Obj meta; msg = m_Message meta in
      if m_Status meta = ClusterConditionCreating
      then seqG (CreateCluster om) (SetConditionG E p SetCreateCondition msg)
      else if m_Status meta = ClusterConditionScaling
      then seqG (NewSlaveAdd om msg) (SetConditionG E p SetScalingUpCondition msg)
      else if m_Status meta = ClusterConditionScalingDown
      then seqG (SlaveRemove om msg) (SetConditionG E p SetScalingDownCondition msg)
      else if m_Status meta = ClusterConditionUpgrading
      then seqG (EventUpdateStatus om msg) (SetConditionG E p SetUpgradingCondition msg)
      else seqG (EventUpdateStatus om msg) (SetConditionG E p SetUpdatingCondition msg))"

definition sentinel_updateStatus :: "'e env \<Rightarrow> ptr \<Rightarrow> ('e, unit) op" where
  "sentinel_updateStatus E m =
     getMeta m (\<lambda>meta.
     if m_State meta \<noteq> Check
     then getRs (m_Obj meta) (\<lambda>rc.
       seqG (sentinel_announce E meta (rs_meta rc)) (UpdateSentinelStatus E (rs_namespace rc) (m_Obj meta)))
     else skipG)"

subsection \<open>Objects\<close>

definition sentinel_Ensure :: "'e env \<Rightarrow> ptr \<Rightarrow> strmap \<Rightarrow> OwnerReference list \<Rightarrow> ('e, unit) op" where
  "sentinel_Ensure E p labels refs =
     getRs p (\<lambda>rc.
     seqG (EnsureRedisService E rc labels refs)
    (seqG (EnsureSentinelService E rc labels refs)
    (seqG (EnsureSentinelHeadlessService E rc labels refs)
    (seqG (if ex_Enabled (sn_Exporter (rs_spec rc)) then EnsureRedisMonitorService E rc labels refs else skipG)
    (seqG (EnsureSentinelConfigMap E rc labels refs)
    (seqG (EnsureSentinelProbeConfigMap E rc labels refs)
    (seqG (EnsureRedisShutdownConfigMap E rc labels refs)
    (seqG (EnsureRedisStatefulset E p labels refs)
          (getRs p (\<lambda>rc'. EnsureSentinelStatefulset E rc' labels refs))))))))))"

subsection \<open>Checking and healing\<close>

definition checkInterval :: int where "checkInterval = 5 * second"
definition timeOut :: int where "timeOut = 30 * second"

text \<open>
  The wait loop polls every five seconds until a timer of thirty seconds fires. Each iteration
  first looks at the timer. Seven iterations are enough: \<open>Diverge\<close>, the value without fuel,
  is excluded for every clock in \<open>waitRestore_returns\<close> below.
\<close>

fun waitLoop :: "nat \<Rightarrow> 'e env \<Rightarrow> Time \<Rightarrow> string \<Rightarrow> RedisSentinel \<Rightarrow> AuthConfig \<Rightarrow> ('e, unit) op" where
  "waitLoop 0 E deadline sentinel rc auth = (\<lambda>w. (Diverge, w))"
| "waitLoop (Suc fuel) E deadline sentinel rc auth =
     bindG (nowG E) (\<lambda>now.
       if deadline \<le> now then failG (ErrorString ''wait for resetore sentinel slave timeout'')
       else tryG (CheckSentinelSlavesNumberInMemory E sentinel rc auth)
              (\<lambda>_. seqG (sleepG E checkInterval) (waitLoop fuel E deadline sentinel rc auth))
              (\<lambda>_. skipG))"

definition waitRestoreSentinelSlavesOK :: "'e env \<Rightarrow> string \<Rightarrow> RedisSentinel \<Rightarrow> AuthConfig \<Rightarrow> ('e, unit) op" where
  "waitRestoreSentinelSlavesOK E sentinel rc auth =
     bindG (nowG E) (\<lambda>start. waitLoop 7 E (start + timeOut) sentinel rc auth)"

definition sentinel_setRedisConfig :: "'e env \<Rightarrow> RedisSentinel \<Rightarrow> AuthConfig \<Rightarrow> ('e, unit) op" where
  "sentinel_setRedisConfig E rc auth =
     bindG (GetRedisesIPs E rc auth) (\<lambda>redises.
       forG (\<lambda>rip. tryG (CheckRedisConfig E rc rip auth)
               (\<lambda>_. seqG (EventUpdateStatus (rs_meta rc) ''set custom config for redis server'')
                         (SetRedisCustomConfig E rip rc auth))
               (\<lambda>_. skipG)) redises)"

definition setSentinelConfig ::
  "'e env \<Rightarrow> StateType \<Rightarrow> RedisSentinel \<Rightarrow> AuthConfig \<Rightarrow> string list \<Rightarrow> ('e, unit) op" where
  "setSentinelConfig E state rc auth sentinels =
     (if state = Check then skipG else forG (\<lambda>sip. SetSentinelCustomConfig E sip rc auth) sentinels)"

text \<open>The \<open>switch nMasters\<close> of \<open>CheckAndHeal\<close>.\<close>

definition fixMasters :: "'e env \<Rightarrow> RedisSentinel \<Rightarrow> AuthConfig \<Rightarrow> int \<Rightarrow> ('e, unit) op" where
  "fixMasters E rc auth nMasters =
     (if nMasters = 0
      then seqG (EventUpdateStatus (rs_meta rc) ''set master'')
          (bindG (GetRedisesIPs E rc auth) (\<lambda>redisesIP.
             if length redisesIP = 1
             then bindG (indexG redisesIP 0) (\<lambda>ip. healer_MakeMaster E ip auth)
             else bindG (GetMinimumRedisPodTime E rc) (\<lambda>_. SetOldestAsMaster E rc auth)))
      else if nMasters = 1 then skipG
      else failG (ErrorString ''more than one master, fix manually''))"

text \<open>The bodies of the three loops over the sentinels.\<close>

definition monitorStep :: "'e env \<Rightarrow> string \<Rightarrow> RedisSentinel \<Rightarrow> AuthConfig \<Rightarrow> string \<Rightarrow> ('e, unit) op" where
  "monitorStep E master rc auth sip =
     tryG (CheckSentinelMonitor E sip master auth) (\<lambda>_. NewSentinelMonitor E sip master rc auth) (\<lambda>_. skipG)"

definition slavesStep :: "'e env \<Rightarrow> RedisSentinel \<Rightarrow> AuthConfig \<Rightarrow> string \<Rightarrow> ('e, unit) op" where
  "slavesStep E rc auth sip =
     tryG (CheckSentinelSlavesNumberInMemory E sip rc auth)
       (\<lambda>_. seqG (RestoreSentinel E sip auth) (waitRestoreSentinelSlavesOK E sip rc auth)) (\<lambda>_. skipG)"

definition sentinelsStep :: "'e env \<Rightarrow> RedisSentinel \<Rightarrow> AuthConfig \<Rightarrow> string \<Rightarrow> ('e, unit) op" where
  "sentinelsStep E rc auth sip =
     tryG (CheckSentinelNumberInMemory E sip rc auth) (\<lambda>_. RestoreSentinel E sip auth) (\<lambda>_. skipG)"

definition sentinel_CheckAndHeal :: "'e env \<Rightarrow> ptr \<Rightarrow> ('e, unit) op" where
  "sentinel_CheckAndHeal E m =
     getMeta m (\<lambda>meta. getRs (m_Obj meta) (\<lambda>rc. let auth = m_Auth meta in
     tryG (CheckRedisNumber E rc)
       (\<lambda>_. seqG (EventUpdateStatus (rs_meta rc) ''wait for all redis server start'') (failG ErrNeedRequeue))
       (\<lambda>_. tryG (CheckSentinelNumber E rc) (\<lambda>err. FailedCluster (rs_meta rc) (ErrorMsg err)) (\<lambda>_.
     bindG (GetNumberMasters E rc auth) (\<lambda>nMasters.
     seqG (fixMasters E rc auth nMasters)
    (bindG (GetMasterIP E rc auth) (\<lambda>master.
     seqG (tryG (CheckAllSlavesFromMaster E master rc auth) (\<lambda>_. SetMasterOnAll E master rc auth) (\<lambda>_. skipG))
    (seqG (sentinel_setRedisConfig E rc auth)
    (bindG (GetSentinelsIPs E rc) (\<lambda>sentinels.
     seqG (forG (monitorStep E master rc auth) sentinels)
    (seqG (forG (slavesStep E rc auth) sentinels)
    (seqG (forG (sentinelsStep E rc auth) sentinels)
    (seqG (setSentinelConfig E (m_State meta) rc auth sentinels)
          (EnsureSentinelReady E rc))))))))))))))"

subsection \<open>Do\<close>

definition sentinel_reportFailed :: "'e env \<Rightarrow> ptr \<Rightarrow> GoErr \<Rightarrow> ('e, unit) op" where
  "sentinel_reportFailed E p err =
     getRs p (\<lambda>rc.
     seqG (FailedCluster (rs_meta rc) (ErrorMsg err))
    (seqG (SetConditionG E p SetFailedCondition (ErrorMsg err))
          (UpdateSentinelStatus E (rs_namespace rc) p)))"

definition sentinel_setError :: "ptr \<Rightarrow> ('e, unit) op" where
  "sentinel_setError p = getRs p (\<lambda>rc. SetClusterError (rs_namespace rc) (rs_name rc))"

text \<open>What \<open>Do\<close> does with the error of \<open>CheckAndHeal\<close>.\<close>

definition sentinel_checkFailed :: "'e env \<Rightarrow> ptr \<Rightarrow> GoErr \<Rightarrow> ('e, unit) op" where
  "sentinel_checkFailed E p err =
     seqG (sentinel_setError p)
    (if ErrorMsg err \<noteq> NeedRequeueMsg
     then seqG (sentinel_reportFailed E p err) (failG err)
     else getRs p (\<lambda>rc. let status = sns_Conditions (rs_status rc) in
       if length status > 0 \<and> c_Type (status ! 0) = ClusterConditionHealthy
       then seqG (CreateCluster (rs_meta rc))
           (seqG (SetConditionG E p SetCreateCondition ''redis server or sentinel server be removed by user, restart'')
           (seqG (UpdateSentinelStatus E (rs_namespace rc) p) (failG err)))
       else failG err))"

definition sentinel_reportHealthy :: "'e env \<Rightarrow> ptr \<Rightarrow> ('e, unit) op" where
  "sentinel_reportHealthy E p =
     getRs p (\<lambda>rc.
     seqG (HealthCluster (rs_meta rc))
    (seqG (SetConditionG E p SetReadyCondition ''Cluster ok'')
    (seqG (UpdateSentinelStatus E (rs_namespace rc) p)
          (getRs p (\<lambda>rc'. SetClusterOK (rs_namespace rc') (rs_name rc'))))))"

definition sentinel_Do :: "'e env \<Rightarrow> ptr \<Rightarrow> ('e, unit) op" where
  "sentinel_Do E p =
     tryG (onRs p sentinel_Validate)
       (\<lambda>err. seqG (sentinel_setError p) (failG err))
       (\<lambda>modified.
          if modified
          then getRs p (\<lambda>rc. seqG (UpdateSentinelSpec E (rs_namespace rc) p) (failG ErrNeedRequeueImmediately))
          else bindG (sentinel_Cache p) (\<lambda>m.
            seqG (sentinel_updateStatus E m)
           (getRs p (\<lambda>rc. getMeta m (\<lambda>meta.
            seqG (EnsureCluster (rs_meta rc))
           (tryG (sentinel_Ensure E (m_Obj meta) (sentinel_getLabels rc) (sentinel_createOwnerReferences rc))
              (\<lambda>err. seqG (sentinel_reportFailed E p err) (seqG (sentinel_setError p) (failG err)))
              (\<lambda>_. getRs p (\<lambda>rc'.
                 seqG (CheckCluster (rs_meta rc'))
                (tryG (sentinel_CheckAndHeal E m) (sentinel_checkFailed E p)
                   (\<lambda>_. sentinel_reportHealthy E p))))))))))"

subsection \<open>The reconciler\<close>

record Result =
  Requeue :: bool
  RequeueAfter :: int

definition zeroResult :: Result where "zeroResult = \<lparr>Requeue = False, RequeueAfter = 0\<rparr>"

text \<open>The flag \<open>ctr-reconciletime\<close> is the argument \<open>ReconcileTime\<close>, in seconds.\<close>

definition sentinel_Reconcile :: "'e env \<Rightarrow> int \<Rightarrow> string \<Rightarrow> string \<Rightarrow> ('e, Result) op" where
  "sentinel_Reconcile E ReconcileTime ns n =
     tryG (extG (kc_Get (E_sentinels E) ns n))
       (\<lambda>err. if IsNotFound err
              then seqG (sentinel_Del (zeroMeta\<lparr>om_namespace := ns, om_name := n\<rparr>)) (retG zeroResult)
              else failG err)
       (\<lambda>inst. bindG (allocRs inst) (\<lambda>p.
          tryG (sentinel_Do E p)
            (\<lambda>err. if ErrorMsg err = NeedRequeueImmediatelyMsg then retG (zeroResult\<lparr>Requeue := True\<rparr>)
                   else if ErrorMsg err = NeedRequeueMsg then retG (zeroResult\<lparr>RequeueAfter := 20 * second\<rparr>)
                   else failG err)
            (\<lambda>_. getRs p (\<lambda>rc. tryG (CheckSentinelReadyReplicas E rc)
               (\<lambda>_. retG (zeroResult\<lparr>RequeueAfter := 20 * second\<rparr>))
               (\<lambda>_. retG (zeroResult\<lparr>RequeueAfter := ReconcileTime * second\<rparr>))))))"

text \<open>The event filter that \<open>SetupWithManager\<close> installs.\<close>

definition sentinel_CreateFunc :: "ObjectMeta \<Rightarrow> bool" where
  "sentinel_CreateFunc obj = (if \<not> ShouldManage obj then False else True)"

definition sentinel_DeleteFunc :: "ObjectMeta \<Rightarrow> bool \<Rightarrow> ('e, bool) op" where
  "sentinel_DeleteFunc obj DeleteStateUnknown =
     (if \<not> ShouldManage obj then retG False
      else seqG (DeleteCluster (om_namespace obj) (om_name obj)) (retG (\<not> DeleteStateUnknown)))"

definition sentinel_UpdateFunc :: "ObjectMeta \<Rightarrow> ObjectMeta \<Rightarrow> bool" where
  "sentinel_UpdateFunc objOld objNew =
     (if \<not> ShouldManage objNew then False
      else if om_generation objOld \<noteq> om_generation objNew then True else False)"

subsection \<open>The wait loop ends\<close>

text \<open>
  \<open>clock_laws E clock\<close>: a reading lies between the time before and after it, sleeping takes at
  least as long as asked, and talking to Redis does not turn the clock back.
\<close>

definition clock_laws :: "'e env \<Rightarrow> ('e \<Rightarrow> Time) \<Rightarrow> bool" where
  "clock_laws E clock \<longleftrightarrow>
     (\<forall>x t y. E_now E x = (t, y) \<longrightarrow> clock x \<le> t \<and> t \<le> clock y) \<and>
     (\<forall>d x. clock x + d \<le> clock (E_sleep E d x)) \<and>
     (\<forall>opt args x r y. E_stringCmd E opt args x = (r, y) \<longrightarrow> clock x \<le> clock y) \<and>
     (\<forall>opt args x r y. E_sliceCmd E opt args x = (r, y) \<longrightarrow> clock x \<le> clock y)"

definition later :: "('e \<Rightarrow> Time) \<Rightarrow> 'e world \<Rightarrow> 'e world \<Rightarrow> bool" where
  "later clock w w' \<longleftrightarrow> clock (w_ext w) \<le> clock (w_ext w')"

lemma later_order [simp]: "reflp (later clock)" "transp (later clock)"
  by (auto simp: later_def reflp_def transp_def)

lemma later_cmds:
  assumes "clock_laws E clock"
  shows "keeps (later clock) (extG (E_stringCmd E opt args))" "keeps (later clock) (extG (E_sliceCmd E opt args))"
  using assms unfolding clock_laws_def keeps_def later_def extG_def
  by (force split: prod.split sum.split)+

lemma slaves_ops_pure:
  assumes "reflp R" "transp R"
  shows "keeps R (slaveInfoLoop n vs)" and "keeps R (asString v)" and "keeps R (asSlice v)"
    and "keeps R (guardG g)"
proof -
  show as: "keeps R (asString v)" and "keeps R (asSlice v)" and "keeps R (guardG g)" for v
    unfolding asString_def asSlice_def guardG_def
    by (auto intro: keeps_leaf assms split: RedisValue.split option.split)
  show "keeps R (slaveInfoLoop n vs)"
    by (induction n vs rule: slaveInfoLoop.induct) (auto intro!: keeps_leaf keeps_bindG keeps_if as assms simp del: retG_run)
qed

lemma check_slaves_later:
  assumes "clock_laws E clock"
  shows "keeps (later clock) (CheckSentinelSlavesNumberInMemory E sip rc auth)"
  unfolding CheckSentinelSlavesNumberInMemory_def GetNumberSentinelSlavesInMemory_def countSlave_def
    slaveInfoFieldByName_def
  by (intro keeps_bindG keeps_seqG keeps_if keeps_leaf keeps_foldG slaves_ops_pure later_order later_cmds [OF assms])

lemma ext_returns [go_returns]: "returnsG (extG f)" "returnsG (totalG g)"
  by (auto simp: returnsG_def extG_def totalG_def split: prod.split sum.split)

lemma redis_pure_returns [go_returns]:
  "returnsG (asString v)" "returnsG (asSlice v)" "returnsG (guardG g)" "returnsG (resultG r)"
  "returnsG (slaveInfoLoop n vs)" "returnsG (configPairs vs m)"
proof -
  show as: "returnsG (asString v)" and "returnsG (asSlice v)" and "returnsG (guardG g)" and "returnsG (resultG r)"
    for v unfolding asString_def asSlice_def guardG_def resultG_def
    by (auto intro: go_returns split: RedisValue.split option.split sum.split)
  show "returnsG (slaveInfoLoop n vs)"
    by (induction n vs rule: slaveInfoLoop.induct) (auto intro!: go_returns as simp del: retG_run)
  show "returnsG (configPairs vs m)"
    by (induction vs m rule: configPairs.induct) (auto intro!: go_returns as simp del: retG_run panicG_run)
qed

lemma check_slaves_returns [go_returns]: "returnsG (CheckSentinelSlavesNumberInMemory E sip rc auth)"
  unfolding CheckSentinelSlavesNumberInMemory_def GetNumberSentinelSlavesInMemory_def countSlave_def
    slaveInfoFieldByName_def
  by (intro go_returns)

lemma now_later:
  assumes "clock_laws E clock" and "nowG E w = (r, w')"
  shows "\<exists>t. r = Ok t \<and> clock (w_ext w) \<le> t \<and> t \<le> clock (w_ext w')"
  using assms by (force simp: nowG_def totalG_def clock_laws_def split: prod.splits)

lemma sleep_later:
  assumes "clock_laws E clock" and "sleepG E d w = (r, w')"
  shows "r = Ok () \<and> clock (w_ext w) + d \<le> clock (w_ext w')"
  using assms by (force simp: sleepG_def totalG_def clock_laws_def)

text \<open>With \<open>fuel\<close> iterations left the deadline is at most \<open>fuel - 1\<close> intervals away.\<close>

lemma waitLoop_returns:
  assumes laws: "clock_laws E clock"
    and "deadline \<le> clock (w_ext w) + int fuel * checkInterval"
  shows "fst (waitLoop (Suc fuel) E deadline sip rc auth w) \<noteq> Diverge"
  using assms(2)
proof (induction fuel arbitrary: w)
  case 0
  obtain t w1 where "nowG E w = (Ok t, w1)" "clock (w_ext w) \<le> t"
    using now_later [OF laws] by (metis prod.exhaust)
  with 0 show ?case by (simp add: bindG_run)
next
  case (Suc fuel)
  obtain t w1 where now: "nowG E w = (Ok t, w1)" "clock (w_ext w) \<le> clock (w_ext w1)"
    using now_later [OF laws] by (metis order.trans prod.exhaust)
  obtain r w2 where chk: "CheckSentinelSlavesNumberInMemory E sip rc auth w1 = (r, w2)" by fastforce
  have w2: "clock (w_ext w1) \<le> clock (w_ext w2)" and r: "r \<noteq> Diverge"
    using keepsD [OF check_slaves_later [OF laws] chk] returnsGD [OF check_slaves_returns chk]
    by (simp_all add: later_def)
  obtain w3 where sl: "sleepG E checkInterval w2 = (Ok (), w3)" "clock (w_ext w2) + checkInterval \<le> clock (w_ext w3)"
    using sleep_later [OF laws] by (metis prod.exhaust)
  have "deadline \<le> clock (w_ext w3) + int fuel * checkInterval"
    using Suc.prems now(2) w2 sl(2) by (simp add: algebra_simps)
  then have "fst (waitLoop (Suc fuel) E deadline sip rc auth w3) \<noteq> Diverge" by (rule Suc.IH)
  with now(1) chk sl(1) r show ?case
    by (subst waitLoop.simps) (cases r, simp_all add: bindG_run tryG_run seqG_run del: waitLoop.simps)
qed

lemma waitRestore_returns:
  assumes "clock_laws E clock"
  shows "returnsG (waitRestoreSentinelSlavesOK E sip rc auth)"
  unfolding returnsG_def
proof
  fix w
  obtain t w1 where now: "nowG E w = (Ok t, w1)" "t \<le> clock (w_ext w1)"
    using now_later [OF assms] by (metis prod.exhaust)
  then have "t + timeOut \<le> clock (w_ext w1) + int 6 * checkInterval"
    by (simp add: timeOut_def checkInterval_def)
  from waitLoop_returns [OF assms this] now(1) show "fst (waitRestoreSentinelSlavesOK E sip rc auth w) \<noteq> Diverge"
    by (simp add: waitRestoreSentinelSlavesOK_def bindG_run numeral_eq_Suc)
qed

subsection \<open>A reconcile ends\<close>

lemmas object_client_defs = wrapper_defs GetStatefulSetPods_def DeleteService_def

lemma Ensure_returns [go_returns]:
  "returnsG (sentinel_Ensure E p labels refs)"
  unfolding sentinel_Ensure_def EnsureRedisService_def EnsureSentinelService_def EnsureSentinelHeadlessService_def
    EnsureRedisMonitorService_def EnsureSentinelConfigMap_def EnsureSentinelProbeConfigMap_def
    EnsureRedisShutdownConfigMap_def EnsureRedisStatefulset_def EnsureSentinelStatefulset_def
    ensurePodDisruptionBudget_def object_client_defs ptr_defs Let_def split_def
  by (intro go_returns)

lemmas checker_defs = CheckRedisConfig_def CheckRedisNumber_def CheckSentinelNumber_def EnsureSentinelReady_def
  CheckSentinelReadyReplicas_def CheckAllSlavesFromMaster_def CheckSentinelNumberInMemory_def
  CheckSentinelMonitor_def GetMasterIP_def GetNumberMasters_def GetMinimumRedisPodTime_def
  GetRedisesIPs_def GetSentinelsIPs_def collectMaster_def countMaster_def podAge_def

lemmas healer_defs = healer_MakeMaster_def SetOldestAsMaster_def electStep_def SetMasterOnAll_def attachStep_def
  NewSentinelMonitor_def RestoreSentinel_def SetSentinelCustomConfig_def SetRedisCustomConfig_def

lemmas redis_client_defs = GetNumberSentinelsInMemory_def GetSlaveMasterIP_def IsMaster_def GetSentinelMonitor_def
  GetAllRedisConfig_def ResetSentinel_def sentinelSet_def MonitorRedis_def MakeMaster_def MakeSlaveOf_def
  applySentinelConfig_def applyRedisConfig_def SetCustomSentinelConfig_def SetCustomRedisConfig_def
  nowG_def sleepG_def rangeG_def

lemma checker_returns [go_returns]:
  "returnsG (CheckRedisConfig E rc ip auth)" "returnsG (CheckRedisNumber E rc)" "returnsG (CheckSentinelNumber E rc)"
  "returnsG (EnsureSentinelReady E rc)" "returnsG (CheckSentinelReadyReplicas E rc)"
  "returnsG (CheckAllSlavesFromMaster E m rc auth)" "returnsG (CheckSentinelNumberInMemory E ip rc auth)"
  "returnsG (CheckSentinelMonitor E ip m auth)" "returnsG (GetMasterIP E rc auth)"
  "returnsG (GetNumberMasters E rc auth)" "returnsG (GetMinimumRedisPodTime E rc)"
  "returnsG (GetRedisesIPs E rc auth)" "returnsG (GetSentinelsIPs E rc)"
  unfolding checker_defs redis_client_defs object_client_defs Let_def
  by (intro go_returns)+

lemma healer_returns [go_returns]:
  "returnsG (healer_MakeMaster E ip auth)" "returnsG (SetOldestAsMaster E rc auth)"
  "returnsG (SetMasterOnAll E m rc auth)" "returnsG (NewSentinelMonitor E ip m rc auth)"
  "returnsG (RestoreSentinel E ip auth)" "returnsG (SetSentinelCustomConfig E ip rc auth)"
  "returnsG (SetRedisCustomConfig E ip rc auth)"
  unfolding healer_defs redis_client_defs object_client_defs Let_def split_def
  by (intro go_returns)+

lemma status_returns [go_returns]:
  "returnsG (SetConditionG E p k msg)" "returnsG (UpdateSentinelStatus E ns p)" "returnsG (UpdateSentinelSpec E ns p)"
  "returnsG (recordEvent om t r msg)" "returnsG (SetClusterError ns n)" "returnsG (SetClusterOK ns n)"
  "returnsG (sentinel_Cache p)"
  unfolding SetConditionG_def UpdateSentinelStatus_def UpdateSentinelSpec_def recordEvent_def SetClusterError_def
    SetClusterOK_def ptr_defs Let_def nowG_def split_def sentinel_Cache_def sentinel_Add_def sentinel_Update_def
    sentinel_Get_def
  by (intro go_returns | simp add: returnsG_def)+

lemma CheckAndHeal_returns:
  assumes "clock_laws E clock"
  shows "returnsG (sentinel_CheckAndHeal E m)"
  unfolding sentinel_CheckAndHeal_def fixMasters_def sentinel_setRedisConfig_def setSentinelConfig_def
    monitorStep_def slavesStep_def sentinelsStep_def ptr_defs Let_def event_defs
  by (intro go_returns waitRestore_returns [OF assms])

lemma assignG_returns [go_returns]: "returnsG (assignG k v)"
  by (auto simp: returnsG_def assignG_def assignM_def split: option.split)

lemma Validate_returns [go_returns]: "returnsG sentinel_Validate"
  unfolding sentinel_Validate_def onConfig_def enablePersistence_def disablePersistence_def
    setConfigMapIfNotExist_def
  by (intro go_returns)

lemma Do_returns:
  assumes "clock_laws E clock"
  shows "returnsG (sentinel_Do E p)"
  unfolding sentinel_Do_def sentinel_checkFailed_def sentinel_reportFailed_def sentinel_reportHealthy_def
    sentinel_setError_def sentinel_updateStatus_def sentinel_announce_def onRs_def ptr_defs Let_def event_defs
  by (intro go_returns CheckAndHeal_returns [OF assms])

text \<open>
  C5. A reconcile of a RedisSentinel always ends: whatever the API server and Redis answer, as
  long as the clock behaves, \<open>sentinel_Reconcile\<close> never runs for ever. The loop that waits for
  a sentinel to rediscover its replicas is left after at most seven iterations.
\<close>

theorem sentinel_Reconcile_returns:
  assumes "clock_laws E clock"
  shows "fst (sentinel_Reconcile E ReconcileTime ns n w) \<noteq> Diverge"
proof -
  have "returnsG (sentinel_Reconcile E ReconcileTime ns n)"
    unfolding sentinel_Reconcile_def sentinel_Del_def getRs_def
    by (intro go_returns Do_returns [OF assms]) (simp add: allocRs_def returnsG_def)
  then show ?thesis by (simp add: returnsG_def)
qed

lemma memEnv_time:
  "E_now memEnv = (\<lambda>x. (ma_clock x, x\<lparr>ma_clock := ma_clock x + 1\<rparr>))"
  "E_sleep memEnv = (\<lambda>d x. x\<lparr>ma_clock := ma_clock x + d\<rparr>)"
  "E_sliceCmd memEnv = (\<lambda>opt args x. (Inr [], x))" "E_intCmd memEnv = (\<lambda>opt args x. (Inr 1, x))"
  "E_boolCmd memEnv = (\<lambda>opt args x. (Inr True, x))" "E_rfc3339 memEnv = FormatInt"
  "E_sentinels memEnv = memStatus rs_meta (\<lambda>a b. a\<lparr>rs_spec := rs_spec b\<rparr>) ma_sentinels (\<lambda>s. ma_sentinels_update (\<lambda>_. s))"
  by (simp_all only: memEnv_def env.select_convs)

lemma memEnv_clock: "clock_laws memEnv ma_clock"
  by (simp add: clock_laws_def memEnv_time memEnv_cmds)

theorem sentinel_Reconcile_returns_witness:
  "fst (sentinel_Reconcile memEnv 10 ''db'' ''x'' (initWorld sampleCluster)) \<noteq> Diverge"
  by (rule sentinel_Reconcile_returns [OF memEnv_clock])

subsection \<open>What checking and healing leave alone\<close>

text \<open>
  \<open>quiet_view E v\<close>: the part \<open>v\<close> of the external state changes neither when the operator reads
  something (a workload, pods, the clock, a reply of Redis or a sentinel) nor when it
  configures a Redis or a sentinel; only \<open>SLAVEOF\<close> may change it. \<open>calm_view\<close> does not cover the
  commands by which a sentinel is told what to monitor (\<open>SENTINEL REMOVE\<close> and \<open>SENTINEL MONITOR\<close>,
  the only ones with a boolean reply).
\<close>

definition calm_view :: "'e env \<Rightarrow> ('e \<Rightarrow> 'v) \<Rightarrow> bool" where
  "calm_view E v \<longleftrightarrow>
     (\<forall>ns n x. v (snd (kc_Get (E_statefulSets E) ns n x)) = v x) \<and>
     (\<forall>ns sel x. v (snd (kc_List (E_pods E) ns sel x)) = v x) \<and>
     (\<forall>opt args x. v (snd (E_stringCmd E opt args x)) = v x) \<and>
     (\<forall>opt args x. v (snd (E_sliceCmd E opt args x)) = v x) \<and>
     (\<forall>opt args x. v (snd (E_intCmd E opt args x)) = v x) \<and>
     (\<forall>opt verb args x. verb \<noteq> ''slaveof'' \<longrightarrow> v (snd (E_statusCmd E opt (verb # args) x)) = v x) \<and>
     (\<forall>x. v (snd (E_now E x)) = v x) \<and> (\<forall>d x. v (E_sleep E d x) = v x) \<and>
     (\<forall>m x. v (snd (E_range E m x)) = v x)"

definition quiet_view :: "'e env \<Rightarrow> ('e \<Rightarrow> 'v) \<Rightarrow> bool" where
  "quiet_view E v \<longleftrightarrow> calm_view E v \<and> (\<forall>opt args x. v (snd (E_boolCmd E opt args x)) = v x)"

lemma calm_pair: "calm_view E a \<Longrightarrow> calm_view E b \<Longrightarrow> calm_view E (\<lambda>x. (a x, b x))"
  by (simp add: calm_view_def)

lemma quiet_calm: "quiet_view E v \<Longrightarrow> calm_view E v"
  by (simp add: quiet_view_def)

abbreviation keepsView :: "('e \<Rightarrow> 'v) \<Rightarrow> ('e, 'a) op \<Rightarrow> bool" where
  "keepsView v m \<equiv> keeps (same (\<lambda>w. v (w_ext w))) m"

lemma keepsView_ext:
  "(\<And>x. v (snd (f x)) = v x) \<Longrightarrow> keepsView v (extG f)" "(\<And>x. v (snd (g x)) = v x) \<Longrightarrow> keepsView v (totalG g)"
  by (auto simp: keeps_def same_def extG_def totalG_def split: prod.split sum.split) (metis snd_conv)+

lemma calm_ext:
  assumes "calm_view E v"
  shows "keepsView v (extG (kc_Get (E_statefulSets E) ns n))" "keepsView v (extG (kc_List (E_pods E) ns sel))"
    "keepsView v (extG (E_stringCmd E opt args))" "keepsView v (extG (E_sliceCmd E opt args))"
    "keepsView v (extG (E_intCmd E opt args))"
    "keepsView v (extG (E_statusCmd E opt (''SENTINEL'' # args)))"
    "keepsView v (extG (E_statusCmd E opt (''config'' # args)))"
    "keepsView v (totalG (E_now E))" "keepsView v (totalG (\<lambda>x. ((), E_sleep E d x)))"
    "keepsView v (totalG (E_range E m))"
  using assms unfolding calm_view_def by (intro keepsView_ext; simp)+

lemma quiet_bool: "quiet_view E v \<Longrightarrow> keepsView v (extG (E_boolCmd E opt args))"
  unfolding quiet_view_def by (intro keepsView_ext) simp

lemmas quiet_ext = calm_ext [OF quiet_calm] quiet_bool

lemma keepsView_comb:
  "keepsView v (retG a)" "keepsView v (failG e)" "keepsView v (derefG q)" "keepsView v (indexG xs i)"
  "keepsView v (asString rv)" "keepsView v (asSlice rv)" "keepsView v (guardG g)"
  "keepsView v (slaveInfoLoop nm vs)" "keepsView v (resultG r)" "keepsView v (recordEvent om t rs msg)"
  "keepsView v (\<lambda>w. (Diverge, w))"
  by (intro keeps_leaf slaves_ops_pure same_order)+
     (auto simp: keeps_def same_def resultG_def recordEvent_def split: sum.split)

lemma keepsView_configPairs: "keepsView v (configPairs vs m)"
  by (induction vs m rule: configPairs.induct)
     (auto intro!: keeps_bindG keeps_leaf slaves_ops_pure same_order simp del: retG_run panicG_run)

lemmas keepsView_intros = keeps_bindG keeps_tryG keeps_seqG keeps_if keeps_option keeps_forG keeps_foldG keepsView_comb
  keepsView_configPairs same_order

lemma calm_checker:
  assumes "calm_view E v"
  shows "keepsView v (CheckRedisConfig E rc ip auth)" "keepsView v (CheckRedisNumber E rc)"
    "keepsView v (CheckSentinelNumber E rc)" "keepsView v (EnsureSentinelReady E rc)"
    "keepsView v (CheckAllSlavesFromMaster E m rc auth)" "keepsView v (CheckSentinelNumberInMemory E ip rc auth)"
    "keepsView v (CheckSentinelSlavesNumberInMemory E ip rc auth)" "keepsView v (CheckSentinelMonitor E ip m auth)"
    "keepsView v (GetMasterIP E rc auth)" "keepsView v (GetNumberMasters E rc auth)"
    "keepsView v (GetRedisesIPs E rc auth)" "keepsView v (GetSentinelsIPs E rc)"
    "keepsView v (GetMinimumRedisPodTime E rc)"
  unfolding checker_defs CheckSentinelSlavesNumberInMemory_def GetNumberSentinelSlavesInMemory_def countSlave_def
    slaveInfoFieldByName_def redis_client_defs object_client_defs Let_def
  by (intro keepsView_intros calm_ext [OF assms])+

lemma calm_healer:
  assumes "calm_view E v"
  shows "keepsView v (RestoreSentinel E ip auth)" "keepsView v (SetSentinelCustomConfig E ip rc auth)"
    "keepsView v (SetRedisCustomConfig E ip rc auth)" "keepsView v (sentinelSet E opt verb k val)"
  unfolding healer_defs redis_client_defs Let_def split_def
  by (intro keepsView_intros calm_ext [OF assms])+

lemma quiet_monitor: "quiet_view E v \<Longrightarrow> keepsView v (NewSentinelMonitor E ip m rc auth)"
  unfolding healer_defs MonitorRedis_def Let_def
  by (intro keepsView_intros quiet_ext calm_healer quiet_calm; assumption)

lemma calm_wait:
  assumes "calm_view E v"
  shows "keepsView v (waitRestoreSentinelSlavesOK E sip rc auth)"
proof -
  have "keepsView v (waitLoop fuel E deadline sip rc auth)" for fuel deadline
  proof (induction fuel)
    case (Suc fuel)
    then show ?case unfolding waitLoop.simps nowG_def sleepG_def
      by (intro keepsView_intros calm_ext [OF assms] calm_checker [OF assms])
  qed (simp add: keepsView_comb)
  then show ?thesis unfolding waitRestoreSentinelSlavesOK_def nowG_def
    by (intro keepsView_intros calm_ext [OF assms])
qed

lemmas quiet_checker = calm_checker [OF quiet_calm]
  and quiet_healer = quiet_monitor calm_healer [OF quiet_calm]
  and quiet_wait = calm_wait [OF quiet_calm]

text \<open>Everything \<open>CheckAndHeal\<close> does after the replicas have been attached.\<close>

lemma calm_rest:
  assumes "calm_view E v"
  shows "keepsView v (sentinel_setRedisConfig E rc auth)" "keepsView v (forG (slavesStep E rc auth) ips)"
    "keepsView v (forG (sentinelsStep E rc auth) ips)" "keepsView v (setSentinelConfig E st rc auth ips)"
  unfolding sentinel_setRedisConfig_def slavesStep_def sentinelsStep_def setSentinelConfig_def EventUpdateStatus_def
  by (intro keepsView_intros calm_checker [OF assms] calm_healer [OF assms] calm_wait [OF assms])+

lemma quiet_monitors: "quiet_view E v \<Longrightarrow> keepsView v (forG (monitorStep E m rc auth) ips)"
  unfolding monitorStep_def by (intro keepsView_intros quiet_checker quiet_healer)

lemmas quiet_rest = calm_rest [OF quiet_calm] quiet_monitors

text \<open>Commands to Redis leave workloads and pods alone, \<open>SLAVEOF\<close> included.\<close>

lemma fixMasters_pods:
  assumes laws: "cluster_laws E sts podsOf role" and quiet: "quiet_view E sts" "quiet_view E podsOf"
    and run: "fixMasters E rc auth n w = (r, w')"
  shows "sts (w_ext w') = sts (w_ext w) \<and> podsOf (w_ext w') = podsOf (w_ext w)"
proof -
  have cmd: "keepsView sts (extG (E_statusCmd E opt args))" "keepsView podsOf (extG (E_statusCmd E opt args))" for opt args
    using cluster_cmd(1) [OF laws] by (intro keepsView_ext; metis prod.collapse)+
  have "keepsView sts (fixMasters E rc auth n)"
    unfolding fixMasters_def healer_defs MakeMaster_def MakeSlaveOf_def EventUpdateStatus_def object_client_defs
    by (intro keepsView_intros cmd quiet_ext [OF quiet(1)] quiet_checker [OF quiet(1)])
  moreover have "keepsView podsOf (fixMasters E rc auth n)"
    unfolding fixMasters_def healer_defs MakeMaster_def MakeSlaveOf_def EventUpdateStatus_def object_client_defs
    by (intro keepsView_intros cmd quiet_ext [OF quiet(2)] quiet_checker [OF quiet(2)])
  ultimately show ?thesis using run by (auto dest: keeps_sameD)
qed

subsection \<open>A healed cluster has one master\<close>

lemma slaves_checked:
  assumes laws: "redis_laws E role"
    and "forG (\<lambda>rip. bindG (GetSlaveMasterIP E rip auth) (\<lambda>slave.
           if slave \<noteq> [] \<and> slave \<noteq> m then failG (err rip slave) else skipG)) ips w = (Ok u, w')"
  shows "\<forall>ip \<in> set ips. role (w_ext w) (redisAddr ip) \<in> {[], m}"
  using assms(2)
proof (induction ips arbitrary: w)
  case (Cons ip ips)
  then obtain h w1 where h: "GetSlaveMasterIP E ip auth w = (Ok h, w1)" "h = [] \<or> h = m"
    and rest: "forG (\<lambda>rip. bindG (GetSlaveMasterIP E rip auth) (\<lambda>slave.
           if slave \<noteq> [] \<and> slave \<noteq> m then failG (err rip slave) else skipG)) ips w1 = (Ok u, w')"
    by (auto simp: seqG_Ok_iff bindG_Ok_iff split: if_splits)
  from Cons.IH [OF rest] GetSlaveMasterIP_Ok [OF laws h(1)] h(2) show ?case by auto
qed simp

definition oneMaster :: "('e \<Rightarrow> string \<Rightarrow> string) \<Rightarrow> 'e \<Rightarrow> Pod list \<Rightarrow> string \<Rightarrow> bool" where
  "oneMaster role x pods m \<longleftrightarrow> m \<in> set (runningIPs pods) \<and>
     (\<forall>ip \<in> set (runningIPs pods). role x (redisAddr ip) = (if ip = m then [] else m))"

lemma attached_one_master:
  assumes laws: "cluster_laws E sts podsOf role" and quiet: "quiet_view E sts" "quiet_view E podsOf" "quiet_view E role"
    and pods: "pods = clusterPods sts podsOf (w_ext w) (rs_namespace rc) (sentinel_GetRedisName rc)"
    and hosts: "\<forall>p \<in> set pods. pod_ip p \<noteq> ''NO''"
    and master: "GetMasterIP E rc auth w = (Ok m, w1)"
    and att: "tryG (CheckAllSlavesFromMaster E m rc auth) (\<lambda>_. SetMasterOnAll E m rc auth) (\<lambda>_. skipG) w1 = (Ok u, w')"
  shows "oneMaster role (w_ext w') pods m"
proof -
  have masters: "masterIPs role (w_ext w) pods = [m]" and role1: "role (w_ext w1) = role (w_ext w)"
    using GetMasterIP_Ok [OF laws master] pods by simp_all
  then have "m \<in> set (masterIPs role (w_ext w) pods)" by simp
  then have m: "m \<in> set (runningIPs pods)" by (simp add: masterIPs_def)
  have pods1: "pods = clusterPods sts podsOf (w_ext w1) (rs_namespace rc) (sentinel_GetRedisName rc)"
    using keeps_sameD [OF quiet_checker(9) [OF quiet(1)] master] keeps_sameD [OF quiet_checker(9) [OF quiet(2)] master] pods
    by (metis clusterPods_cong)
  show ?thesis using att
  proof (cases rule: tryG_OkE)
    case (ok a t)
    then obtain ips t1 where t1: "GetRedisesIPs E rc auth w1 = (Ok ips, t1)"
      "forG (\<lambda>rip. bindG (GetSlaveMasterIP E rip auth) (\<lambda>slave.
         if slave \<noteq> [] \<and> slave \<noteq> m
         then failG (ErrorString (''slave '' @ rip @ sh '' don~t have the master '' @ m @ '', has '' @ slave))
         else skipG)) ips t1 = (Ok a, t)"
      unfolding CheckAllSlavesFromMaster_def by (elim bindG_OkE)
    have ips: "ips = runningIPs pods" and t1r: "role (w_ext t1) = role (w_ext w)"
      using GetRedisesIPs_Ok [OF laws t1(1)] pods1 role1 by simp_all
    have w': "role (w_ext w') = role (w_ext w)"
      using keeps_sameD [OF quiet_checker(5) [OF quiet(3)] ok(1)] ok(2) role1 by simp
    have "role (w_ext w) (redisAddr ip) = (if ip = m then [] else m)" if "ip \<in> set (runningIPs pods)" for ip
    proof -
      have "role (w_ext w) (redisAddr ip) \<in> {[], m}"
        using slaves_checked [OF cluster_redis [OF laws] t1(2)] that ips t1r by simp
      moreover have "ip \<in> set (masterIPs role (w_ext w) pods) \<longleftrightarrow> ip = m" unfolding masters by simp
      then have "ip = m \<longleftrightarrow> role (w_ext w) (redisAddr ip) = []" using that by (simp add: masterIPs_def)
      ultimately show ?thesis by auto
    qed
    with m w' show ?thesis by (simp add: oneMaster_def)
  next
    case (err e t)
    have t: "pods = clusterPods sts podsOf (w_ext t) (rs_namespace rc) (sentinel_GetRedisName rc)"
      using keeps_sameD [OF quiet_checker(5) [OF quiet(1)] err(1)] keeps_sameD [OF quiet_checker(5) [OF quiet(2)] err(1)] pods1
      by (metis clusterPods_cong)
    have "m \<noteq> ''NO''" using m hosts by (auto simp: runningIPs_def)
    from SetMasterOnAll_Ok [OF laws this err(2)] t
    have "\<forall>p \<in> set pods. role (w_ext w') (redisAddr (pod_ip p)) = (if pod_ip p = m then [] else m)"
      by (simp add: redisAddr_inj)
    with m show ?thesis by (auto simp: oneMaster_def runningIPs_def)
  qed
qed

text \<open>
  The part of \<open>CheckAndHeal\<close> after the two number checks, and what it consists of up to the
  attached replicas.
\<close>

definition healMasters :: "'e env \<Rightarrow> RedisSentinel \<Rightarrow> AuthConfig \<Rightarrow> ('e, string) op" where
  "healMasters E rc auth =
     bindG (GetNumberMasters E rc auth) (\<lambda>nMasters.
     seqG (fixMasters E rc auth nMasters)
    (bindG (GetMasterIP E rc auth) (\<lambda>master.
     seqG (tryG (CheckAllSlavesFromMaster E master rc auth) (\<lambda>_. SetMasterOnAll E master rc auth) (\<lambda>_. skipG))
          (retG master))))"

definition healSentinels :: "'e env \<Rightarrow> StateType \<Rightarrow> RedisSentinel \<Rightarrow> AuthConfig \<Rightarrow> string \<Rightarrow> ('e, unit) op" where
  "healSentinels E st rc auth master =
     seqG (sentinel_setRedisConfig E rc auth)
    (bindG (GetSentinelsIPs E rc) (\<lambda>sentinels.
     seqG (forG (monitorStep E master rc auth) sentinels)
    (seqG (forG (slavesStep E rc auth) sentinels)
    (seqG (forG (sentinelsStep E rc auth) sentinels)
    (seqG (setSentinelConfig E st rc auth sentinels)
          (EnsureSentinelReady E rc))))))"

lemma bindG_assoc: "bindG (bindG m k) l = bindG m (\<lambda>a. bindG (k a) l)"
  by (auto simp: fun_eq_iff bindG_def tryG_def split: prod.splits res.splits)

lemma seqG_assoc: "bindG (seqG m n) k = seqG m (bindG n k)" "seqG (seqG m n) l = seqG m (seqG n l)"
  by (simp_all add: seqG_def bindG_assoc)

lemma CheckAndHeal_split:
  "sentinel_CheckAndHeal E m =
     getMeta m (\<lambda>meta. getRs (m_Obj meta) (\<lambda>rc.
     tryG (CheckRedisNumber E rc)
       (\<lambda>_. seqG (EventUpdateStatus (rs_meta rc) ''wait for all redis server start'') (failG ErrNeedRequeue))
       (\<lambda>_. tryG (CheckSentinelNumber E rc) (\<lambda>err. FailedCluster (rs_meta rc) (ErrorMsg err)) (\<lambda>_.
     bindG (healMasters E rc (m_Auth meta)) (healSentinels E (m_State meta) rc (m_Auth meta))))))"
  by (simp add: sentinel_CheckAndHeal_def healMasters_def healSentinels_def Let_def bindG_assoc seqG_assoc
      del: retG_run)

lemma healMasters_one_master:
  assumes laws: "cluster_laws E sts podsOf role" and quiet: "quiet_view E sts" "quiet_view E podsOf" "quiet_view E role"
    and pods: "pods = clusterPods sts podsOf (w_ext w) (rs_namespace rc) (sentinel_GetRedisName rc)"
    and hosts: "\<forall>p \<in> set pods. pod_ip p \<noteq> ''NO''"
    and run: "healMasters E rc auth w = (Ok m, w')"
  shows "oneMaster role (w_ext w') pods m"
proof -
  obtain n w1 w2 w3 where r: "GetNumberMasters E rc auth w = (Ok n, w1)" "fixMasters E rc auth n w1 = (Ok (), w2)"
    "GetMasterIP E rc auth w2 = (Ok m, w3)"
    "tryG (CheckAllSlavesFromMaster E m rc auth) (\<lambda>_. SetMasterOnAll E m rc auth) (\<lambda>_. skipG) w3 = (Ok (), w')"
    using run by (auto simp: healMasters_def bindG_Ok_iff seqG_Ok_iff)
  have "pods = clusterPods sts podsOf (w_ext w2) (rs_namespace rc) (sentinel_GetRedisName rc)"
    using keeps_sameD [OF quiet_checker(10) [OF quiet(1)] r(1)] keeps_sameD [OF quiet_checker(10) [OF quiet(2)] r(1)]
      fixMasters_pods [OF laws quiet(1,2) r(2)] pods by (metis clusterPods_cong)
  from attached_one_master [OF laws quiet this hosts r(3,4)] show ?thesis .
qed

lemma healSentinels_quiet:
  assumes "quiet_view E v"
  shows "keepsView v (healSentinels E st rc auth m)"
  unfolding healSentinels_def
  by (intro keepsView_intros quiet_rest [OF assms] quiet_checker [OF assms])

lemma number_checks_ext:
  "keeps extOnly (CheckRedisNumber E rc)" "keeps extOnly (CheckSentinelNumber E rc)"
  unfolding CheckRedisNumber_def CheckSentinelNumber_def
  by (intro keeps_extOnly_comb keeps_if wrappers_extOnly)+

definition failedEvent :: "RedisSentinel \<Rightarrow> string \<Rightarrow> Event" where
  "failedEvent rc msg = \<lparr>e_object = (rs_namespace rc, rs_name rc), e_type = ''Warning'',
     e_reason = ClusterConditionFailed, e_message = msg\<rparr>"

text \<open>A run that reports success either healed or could not confirm the number of sentinels.\<close>

lemma CheckAndHeal_OkE:
  assumes rc: "rc = w_rs w (m_Obj (w_metas w m))" and run: "sentinel_CheckAndHeal E m w = (Ok (), w')"
    and calm: "calm_view E v"
  obtains (healed) w2 mm w3 where "v (w_ext w2) = v (w_ext w)"
      "healMasters E rc (m_Auth (w_metas w m)) w2 = (Ok mm, w3)"
      "healSentinels E (m_State (w_metas w m)) rc (m_Auth (w_metas w m)) mm w3 = (Ok (), w')"
  | (warned) msg where "w_events w' = w_events w @ [failedEvent rc msg]" "v (w_ext w') = v (w_ext w)"
proof -
  have run: "tryG (CheckRedisNumber E rc)
       (\<lambda>_. seqG (EventUpdateStatus (rs_meta rc) ''wait for all redis server start'') (failG ErrNeedRequeue))
       (\<lambda>_. tryG (CheckSentinelNumber E rc) (\<lambda>err. FailedCluster (rs_meta rc) (ErrorMsg err)) (\<lambda>_.
          bindG (healMasters E rc (m_Auth (w_metas w m)))
            (healSentinels E (m_State (w_metas w m)) rc (m_Auth (w_metas w m))))) w = (Ok (), w')"
    using run unfolding CheckAndHeal_split rc by (simp add: ptr_defs)
  obtain w1 where w1: "CheckRedisNumber E rc w = (Ok (), w1)"
    "tryG (CheckSentinelNumber E rc) (\<lambda>err. FailedCluster (rs_meta rc) (ErrorMsg err)) (\<lambda>_.
        bindG (healMasters E rc (m_Auth (w_metas w m)))
          (healSentinels E (m_State (w_metas w m)) rc (m_Auth (w_metas w m)))) w1 = (Ok (), w')"
    using run by (cases rule: tryG_OkE) (auto simp: EventUpdateStatus_def recordEvent_def seqG_run)
  note q1 = keeps_sameD [OF calm_checker(2) [OF calm] w1(1)]
  show thesis using w1(2)
  proof (cases rule: tryG_OkE)
    case (ok a w2)
    obtain mm w3 where "healMasters E rc (m_Auth (w_metas w m)) w2 = (Ok mm, w3)"
      "healSentinels E (m_State (w_metas w m)) rc (m_Auth (w_metas w m)) mm w3 = (Ok (), w')"
      using ok(2) by (elim bindG_OkE)
    then show thesis using healed keeps_sameD [OF calm_checker(3) [OF calm] ok(1)] q1 by metis
  next
    case (err e w2)
    have "w_events w2 = w_events w"
      using keepsD [OF number_checks_ext(1) w1(1)] keepsD [OF number_checks_ext(2) err(1)]
      by (metis extOnly_def world.select_convs(9) world.surjective world.update_convs(1))
    then have "w_events w' = w_events w @ [failedEvent rc (ErrorMsg e)]" and ext: "w_ext w' = w_ext w2"
      using err(2) by (auto simp: FailedCluster_def recordEvent_def failedEvent_def)
    then show thesis using warned keeps_sameD [OF calm_checker(3) [OF calm] err(1)] q1 by metis
  qed
qed

text \<open>
  C2. A healed cluster has one master. Against an API server and Redis servers that do what
  they are documented to do and with nobody else interfering, a run of \<open>CheckAndHeal\<close> that
  reports success leaves, among the running Redis pods of the cluster, exactly one master,
  which every other running pod replicates. The only exception: when the number of
  sentinels cannot be confirmed, success is reported after nothing but a warning event.
\<close>

theorem CheckAndHeal_one_master:
  assumes "cluster_laws E sts podsOf role" and "quiet_view E sts" and "quiet_view E podsOf" and "quiet_view E role"
    and "rc = w_rs w (m_Obj (w_metas w m))"
    and "pods = clusterPods sts podsOf (w_ext w) (rs_namespace rc) (sentinel_GetRedisName rc)"
    and "\<forall>p \<in> set pods. pod_ip p \<noteq> ''NO''"
    and "sentinel_CheckAndHeal E m w = (Ok (), w')"
  shows "(\<exists>master. oneMaster role (w_ext w') pods master) \<or>
     (\<exists>msg. w_events w' = w_events w @ [failedEvent rc msg] \<and> role (w_ext w') = role (w_ext w))"
  using assms(5,8) calm_pair [OF quiet_calm [OF assms(2)] calm_pair [OF quiet_calm [OF assms(3)] quiet_calm [OF assms(4)]]]
proof (cases rule: CheckAndHeal_OkE)
  case (healed w2 mm w3)
  have pods: "pods = clusterPods sts podsOf (w_ext w2) (rs_namespace rc) (sentinel_GetRedisName rc)"
    using healed(1) assms(6) clusterPods_cong by (metis prod.inject)
  have "role (w_ext w') = role (w_ext w3)" using keeps_sameD [OF healSentinels_quiet [OF assms(4)] healed(3)] .
  with healMasters_one_master [OF assms(1-4) pods assms(7) healed(2)] show ?thesis by (auto simp: oneMaster_def)
qed auto

text \<open>A concrete cluster: two pods, the second a replica of the first.\<close>

definition healedMem :: memApi where
  "healedMem = sampleCluster\<lparr>
     ma_statefulSets := [(''db'', ''redis-worker-x'') \<mapsto> fst (generateRedisStatefulSet (sentinelNamed ''db'' ''x'') None []),
        (''db'', ''redis-sentinel-x'') \<mapsto> generateSentinelStatefulSet (sentinelNamed ''db'' ''x'') None []],
     ma_masters := [(redisAddr ''10.0.0.2'', ''10.0.0.1'')]\<rparr>"

definition healedWorld :: "memApi world" where
  "healedWorld = (initWorld healedMem)\<lparr>w_rs := \<lambda>_. sentinelNamed ''db'' ''x''\<rparr>"

lemma memEnv_quiet: "quiet_view memEnv ma_statefulSets" "quiet_view memEnv memPodsOf" "quiet_view memEnv memRole"
  by (auto simp: quiet_view_def calm_view_def memEnv_kinds memEnv_cmds memEnv_time memKind_def memPods_def memStatusCmd_def
      memPodsOf_def memRole_def fun_eq_iff memEnv_range_run)

lemma healed_reads:
  "kc_Get (E_statefulSets memEnv) ''db'' ''redis-worker-x'' healedMem =
     (Inr (fst (generateRedisStatefulSet (sentinelNamed ''db'' ''x'') None [])), healedMem)"
  "kc_Get (E_statefulSets memEnv) ''db'' ''redis-sentinel-x'' healedMem =
     (Inr (generateSentinelStatefulSet (sentinelNamed ''db'' ''x'') None []), healedMem)"
  "GetSentinelName (sentinelNamed ''db'' ''x'') = ''redis-sentinel-x''"
  by (simp_all add: memEnv_kinds memKind_def healedMem_def resource_name_defs)

lemma healed_pods:
  "kc_List (E_pods memEnv) ''db'' (Some (entries (roleLabels None RedisRoleName ''x''))) healedMem =
     (Inr [samplePod ''10.0.0.1'' 5, samplePod ''10.0.0.2'' 3], healedMem)"
  "kc_List (E_pods memEnv) ''db'' (Some (entries (roleLabels None SentinelRoleName ''x''))) healedMem = (Inr [], healedMem)"
proof -
  have "\<not> labelsMatch (Some (entries (roleLabels None SentinelRoleName ''x''))) (roleLabels None RedisRoleName ''x'')"
    by (rule notI, drule labelsMatch_lookup [OF _ roleLabels_lookup(1)]) (simp add: RedisRoleName_def SentinelRoleName_def)
  then show "kc_List (E_pods memEnv) ''db'' (Some (entries (roleLabels None SentinelRoleName ''x''))) healedMem = (Inr [], healedMem)"
    by (simp add: memEnv_kinds memPods_def healedMem_def sampleCluster_def samplePod_def)
qed (simp add: memEnv_kinds memPods_def healedMem_def sampleCluster_def samplePod_def)

lemma healedWorld_ext [simp]:
  "w_ext healedWorld = healedMem" "healedWorld\<lparr>w_ext := healedMem\<rparr> = healedWorld"
  "w_rs healedWorld p = sentinelNamed ''db'' ''x''" "w_metas healedWorld q = zeroMetaEntry"
  by (simp_all add: healedWorld_def initWorld_def)

lemma healed_checks:
  "CheckRedisNumber memEnv (sentinelNamed ''db'' ''x'') healedWorld = (Ok (), healedWorld)"
  "CheckSentinelNumber memEnv (sentinelNamed ''db'' ''x'') healedWorld = (Ok (), healedWorld)"
  "EnsureSentinelReady memEnv (sentinelNamed ''db'' ''x'') healedWorld = (Ok (), healedWorld)"
  "GetRedisesIPs memEnv (sentinelNamed ''db'' ''x'') auth healedWorld = (Ok [''10.0.0.1'', ''10.0.0.2''], healedWorld)"
  "GetSentinelsIPs memEnv (sentinelNamed ''db'' ''x'') healedWorld = (Ok [], healedWorld)"
  by (simp_all add: checker_defs object_client_defs sentinelNamed_x healed_reads healed_pods bindG_run extG_def
      runningIPs_def samplePod_def podRunning_def)
     (simp_all add: generateRedisStatefulSet_def generateSentinelStatefulSet_def Let_def sentinelNamed_def
        zeroSentinel_def zeroSentinelSpec_def zeroSettings_def)

lemma healed_masters:
  "IsMaster memEnv ''10.0.0.1'' auth healedWorld = (Ok True, healedWorld)"
  "IsMaster memEnv ''10.0.0.2'' auth healedWorld = (Ok False, healedWorld)"
  "GetSlaveMasterIP memEnv ''10.0.0.1'' auth healedWorld = (Ok [], healedWorld)"
  "GetSlaveMasterIP memEnv ''10.0.0.2'' auth healedWorld = (Ok ''10.0.0.1'', healedWorld)"
  "CheckRedisConfig memEnv (sentinelNamed ''db'' ''x'') ip auth healedWorld = (Ok (), healedWorld)"
proof -
  have role: "memRole healedMem (redisAddr ''10.0.0.1'') = []" "memRole healedMem (redisAddr ''10.0.0.2'') = ''10.0.0.1''"
    using sample_hosts by (simp_all add: memRole_def healedMem_def JoinHostPort_def)
  note info = roleReply_master [OF memInfo_role] roleReply_host [OF memInfo_role]
  show "IsMaster memEnv ''10.0.0.1'' auth healedWorld = (Ok True, healedWorld)"
    "IsMaster memEnv ''10.0.0.2'' auth healedWorld = (Ok False, healedWorld)"
    "GetSlaveMasterIP memEnv ''10.0.0.1'' auth healedWorld = (Ok [], healedWorld)"
    "GetSlaveMasterIP memEnv ''10.0.0.2'' auth healedWorld = (Ok ''10.0.0.1'', healedWorld)"
    by (simp_all add: IsMaster_def GetSlaveMasterIP_def bindG_run extG_def memEnv_cmds info role)
  show "CheckRedisConfig memEnv (sentinelNamed ''db'' ''x'') ip auth healedWorld = (Ok (), healedWorld)"
    by (simp add: CheckRedisConfig_def GetAllRedisConfig_def rangeG_def totalG_def bindG_run extG_def memEnv_time
        memEnv_range_run sentinelNamed_def zeroSentinel_def zeroSentinelSpec_def)
qed

lemma healed_stages:
  fixes auth :: AuthConfig
  defines "rc \<equiv> sentinelNamed ''db'' ''x''"
  shows "GetNumberMasters memEnv rc auth healedWorld = (Ok 1, healedWorld)"
    "GetMasterIP memEnv rc auth healedWorld = (Ok ''10.0.0.1'', healedWorld)"
    "CheckAllSlavesFromMaster memEnv ''10.0.0.1'' rc auth healedWorld = (Ok (), healedWorld)"
    "sentinel_setRedisConfig memEnv rc auth healedWorld = (Ok (), healedWorld)"
  unfolding rc_def
  by (simp_all add: GetNumberMasters_def countMaster_def GetMasterIP_def collectMaster_def indexG_def
      CheckAllSlavesFromMaster_def sentinel_setRedisConfig_def tryG_def bindG_def seqG_def healed_checks healed_masters)

lemma healed_runs: "sentinel_CheckAndHeal memEnv 0 healedWorld = (Ok (), healedWorld)"
proof -
  have "healMasters memEnv (sentinelNamed ''db'' ''x'') auth healedWorld = (Ok ''10.0.0.1'', healedWorld)" for auth
    by (simp add: healMasters_def fixMasters_def tryG_run bindG_run seqG_run healed_stages)
  moreover have "healSentinels memEnv st (sentinelNamed ''db'' ''x'') auth m healedWorld = (Ok (), healedWorld)" for st auth m
    by (simp add: healSentinels_def setSentinelConfig_def tryG_run bindG_run seqG_run healed_stages healed_checks)
  ultimately show ?thesis
    unfolding CheckAndHeal_split ptr_defs readG_run healedWorld_ext
    by (simp add: tryG_run bindG_run healed_checks)
qed

theorem CheckAndHeal_one_master_witness:
  "\<exists>w'. sentinel_CheckAndHeal memEnv 0 healedWorld = (Ok (), w')
     \<and> (\<exists>master. oneMaster memRole (w_ext w') [samplePod ''10.0.0.1'' 5, samplePod ''10.0.0.2'' 3] master)"
proof -
  have pods: "clusterPods ma_statefulSets memPodsOf healedMem ''db'' ''redis-worker-x'' =
      [samplePod ''10.0.0.1'' 5, samplePod ''10.0.0.2'' 3]"
    by (simp add: clusterPods_def healedMem_def memPodsOf_def sampleCluster_def samplePod_def)
  from CheckAndHeal_one_master [OF memEnv_cluster memEnv_quiet _ _ _ healed_runs,
      of "sentinelNamed ''db'' ''x''" "[samplePod ''10.0.0.1'' 5, samplePod ''10.0.0.2'' 3]"]
  show ?thesis using healed_runs by (auto simp: sentinelNamed_x pods samplePod_def)
qed

end
