(* ===== verification/Outcome.thy ===== *)
theory Outcome
  imports Sentinel_Handler
begin

text \<open>
  What the operator's own state shows of a run, for both controllers: views that every step
  which only talks to the outside keeps, and the judgement \<open>gaugeOut\<close>, which ties the value of
  the metrics gauge to the outcome of a run.
\<close>

subsection \<open>What the operator's own state shows of a run\<close>

text \<open>
  \<open>internal v\<close>: the view \<open>v\<close> of the operator's state depends neither on the external state nor
  on the recorded events, so that every step that only talks to the outside keeps it.
\<close>

definition internal :: "('e world \<Rightarrow> 'v) \<Rightarrow> bool" where
  "internal v \<longleftrightarrow> (\<forall>w x. v (w\<lparr>w_ext := x\<rparr>) = v w) \<and> (\<forall>w es. v (w\<lparr>w_events := es\<rparr>) = v w)"

lemma internal_prims:
  assumes "internal v"
  shows "keeps (same v) (extG f)" "keeps (same v) (totalG g)" "keeps (same v) (recordEvent om t r msg)"
    "keeps (same v) (\<lambda>w. (Diverge, w))" "keeps (same v) (resultG rr)"
  using assms by (auto simp: internal_def keeps_def same_def extG_def totalG_def recordEvent_def resultG_def
      split: prod.split sum.split)

lemma same_configPairs: "keeps (same v) (configPairs vs m)"
  by (induction vs m rule: configPairs.induct)
     (auto intro!: keeps_bindG keeps_leaf slaves_ops_pure same_order simp del: retG_run panicG_run)

lemmas internal_intros = keeps_bindG keeps_tryG keeps_seqG keeps_if keeps_option keeps_forG keeps_foldG keeps_readG
  keeps_leaf slaves_ops_pure same_order same_configPairs

text \<open>
  \<open>keyedRs v\<close>: of the custom resources in memory the view \<open>v\<close> shows at most their names and
  namespaces, which no step of the handler changes once the resource is fetched.
\<close>

definition keyedRs :: "('e world \<Rightarrow> 'v) \<Rightarrow> bool" where
  "keyedRs v \<longleftrightarrow> internal v \<and> (\<forall>w q rc. metaKey (rs_meta rc) = metaKey (rs_meta (w_rs w q)) \<longrightarrow>
     v (w\<lparr>w_rs := (w_rs w)(q := rc)\<rparr>) = v w)"

definition keyedRa :: "('e world \<Rightarrow> 'v) \<Rightarrow> bool" where
  "keyedRa v \<longleftrightarrow> internal v \<and> (\<forall>w q rc. metaKey (ra_meta rc) = metaKey (ra_meta (w_ra w q)) \<longrightarrow>
     v (w\<lparr>w_ra := (w_ra w)(q := rc)\<rparr>) = v w)"

lemma keyed_internal: "keyedRs v \<Longrightarrow> internal v" "keyedRa v \<Longrightarrow> internal v"
  by (simp_all add: keyedRs_def keyedRa_def)

lemma keyed_set:
  "keyedRs v \<Longrightarrow> (\<And>rc. metaKey (rs_meta (f rc)) = metaKey (rs_meta rc)) \<Longrightarrow> keeps (same v) (setRs q f)"
  "keyedRa v \<Longrightarrow> (\<And>rc. metaKey (ra_meta (g rc)) = metaKey (ra_meta rc)) \<Longrightarrow> keeps (same v) (setRa q g)"
  by (simp_all add: keeps_def same_def setRs_def setRa_def keyedRs_def keyedRa_def)

text \<open>Overwriting an object with what was derived from it: a reply of the API server.\<close>

lemma keyed_reply:
  assumes "keyedRs v" and "\<And>rc x rc' y. f rc x = (Inr rc', y) \<Longrightarrow> metaKey (rs_meta rc') = metaKey (rs_meta rc)"
  shows "keeps (same v) (getRs q (\<lambda>rc. bindG (extG (f rc)) (\<lambda>rc'. setRs q (\<lambda>_. rc'))))"
proof -
  have "v (w\<lparr>w_ext := x\<rparr>) = v w" for w x using assms(1) by (simp add: keyedRs_def internal_def)
  moreover have "v (w\<lparr>w_ext := x, w_rs := (w_rs w)(q := rc)\<rparr>) = v w" if "f (w_rs w q) y = (Inr rc, x)" for w x y rc
    using assms(1) [unfolded keyedRs_def, THEN conjunct2, rule_format, of rc "w\<lparr>w_ext := x\<rparr>" q] assms(2) [OF that]
    by (simp add: \<open>\<And>x w. v (w\<lparr>w_ext := x\<rparr>) = v w\<close>)
  ultimately show ?thesis
    by (auto simp: keeps_def same_def getRs_def setRs_def bindG_def tryG_def extG_def split: prod.splits sum.splits)
qed

lemma keyed_replyRa:
  assumes "keyedRa v" and "\<And>rc x rc' y. f rc x = (Inr rc', y) \<Longrightarrow> metaKey (ra_meta rc') = metaKey (ra_meta rc)"
  shows "keeps (same v) (getRa q (\<lambda>rc. bindG (extG (f rc)) (\<lambda>rc'. setRa q (\<lambda>_. rc'))))"
proof -
  have "v (w\<lparr>w_ext := x\<rparr>) = v w" for w x using assms(1) by (simp add: keyedRa_def internal_def)
  moreover have "v (w\<lparr>w_ext := x, w_ra := (w_ra w)(q := rc)\<rparr>) = v w" if "f (w_ra w q) y = (Inr rc, x)" for w x y rc
    using assms(1) [unfolded keyedRa_def, THEN conjunct2, rule_format, of rc "w\<lparr>w_ext := x\<rparr>" q] assms(2) [OF that]
    by (simp add: \<open>\<And>x w. v (w\<lparr>w_ext := x\<rparr>) = v w\<close>)
  ultimately show ?thesis
    by (auto simp: keeps_def same_def getRa_def setRa_def bindG_def tryG_def extG_def split: prod.splits sum.splits)
qed

subsection \<open>The gauge\<close>

text \<open>The gauges, and the name of the object that is being reconciled.\<close>

definition gaugeView :: "('e world \<Rightarrow> string \<times> string) \<Rightarrow> 'e world \<Rightarrow> (string \<times> string \<rightharpoonup> int) \<times> string \<times> string" where
  "gaugeView key w = (w_metrics w, key w)"

definition gaugeOutcome :: "(string \<times> string \<rightharpoonup> int) \<Rightarrow> string \<times> string \<Rightarrow> unit res \<Rightarrow> (string \<times> string \<rightharpoonup> int) \<Rightarrow> bool" where
  "gaugeOutcome g key r g' \<longleftrightarrow> (if r = Ok () then g' = g(key \<mapsto> 1) else g' = g \<or> g' = g(key \<mapsto> 0))"

definition gaugeOut :: "('e world \<Rightarrow> string \<times> string) \<Rightarrow> ('e, unit) op \<Rightarrow> bool" where
  "gaugeOut key m \<longleftrightarrow> (\<forall>w. gaugeOutcome (w_metrics w) (key w) (fst (m w)) (w_metrics (snd (m w))))"

definition failsOnly :: "('e, unit) op \<Rightarrow> bool" where
  "failsOnly m \<longleftrightarrow> (\<forall>w. fst (m w) \<noteq> Ok ())"

lemma gaugeOut_tryG:
  assumes "keeps (same (gaugeView key)) m" "\<And>e. gaugeOut key (h e)" "\<And>a. gaugeOut key (k a)"
  shows "gaugeOut key (tryG m h k)"
  unfolding gaugeOut_def
proof
  fix w
  obtain r t where m: "m w = (r, t)" by fastforce
  then have g: "w_metrics t = w_metrics w" "key t = key w"
    using keeps_sameD [OF assms(1) m] by (simp_all add: gaugeView_def)
  have "gaugeOutcome (w_metrics w) (key w) (fst (h e t)) (w_metrics (snd (h e t)))"
    "gaugeOutcome (w_metrics w) (key w) (fst (k a t)) (w_metrics (snd (k a t)))" for e a
    using assms(2,3) [unfolded gaugeOut_def, THEN spec, of t] g by simp_all
  then show "gaugeOutcome (w_metrics w) (key w) (fst (tryG m h k w)) (w_metrics (snd (tryG m h k w)))"
    using g m by (cases r) (simp_all add: tryG_def gaugeOutcome_def)
qed

lemma gaugeOut_fail [simp]: "gaugeOut key (failG e)"
  by (simp add: gaugeOut_def gaugeOutcome_def)

lemma gaugeOut_bindG:
  "keeps (same (gaugeView key)) m \<Longrightarrow> (\<And>a. gaugeOut key (k a)) \<Longrightarrow> gaugeOut key (bindG m k)"
  unfolding bindG_def by (rule gaugeOut_tryG) simp_all

lemma gaugeOut_seqG:
  "keeps (same (gaugeView key)) m \<Longrightarrow> gaugeOut key n \<Longrightarrow> gaugeOut key (seqG m n)"
  unfolding seqG_def by (rule gaugeOut_bindG)

lemma gaugeOut_if: "gaugeOut key m \<Longrightarrow> gaugeOut key n \<Longrightarrow> gaugeOut key (if b then m else n)"
  by simp

lemma gaugeOut_readG: "(\<And>a. gaugeOut key (k a)) \<Longrightarrow> gaugeOut key (readG f k)"
  by (simp add: gaugeOut_def)

lemma failsOnly_rules:
  "failsOnly (failG e)" "failsOnly n \<Longrightarrow> failsOnly (seqG m n)" "failsOnly m \<Longrightarrow> failsOnly n \<Longrightarrow> failsOnly (if b then m else n)"
  "(\<And>a. failsOnly (h a)) \<Longrightarrow> failsOnly (readG f h)"
  by (auto simp: failsOnly_def seqG_case split: prod.split res.split)

text \<open>The two ways a controller sets the gauge of its object.\<close>

locale gauge_reporter =
  fixes key :: "'e world \<Rightarrow> string \<times> string" and setError setOK :: "('e, unit) op"
  assumes setError_run: "setError w = (Ok (), w\<lparr>w_metrics := (w_metrics w)(key w \<mapsto> 0)\<rparr>)"
    and setOK_run: "setOK w = (Ok (), w\<lparr>w_metrics := (w_metrics w)(key w \<mapsto> 1)\<rparr>)"
begin

lemma gaugeOut_setError:
  assumes "keeps (same (gaugeView key)) m" "failsOnly m"
  shows "gaugeOut key (seqG setError m)"
  using assms unfolding gaugeOut_def keeps_def same_def failsOnly_def gaugeView_def
  by (simp add: setError_run seqG_run gaugeOutcome_def)

lemma gaugeOut_setOK: "gaugeOut key setOK"
  by (simp add: gaugeOut_def setOK_run gaugeOutcome_def)

end

end
