(* ===== verification/Sentinel_Control.thy ===== *)
theory Sentinel_Control
  imports Outcome
begin

text \<open>
  Properties of the RedisSentinel controller as a whole (\<open>sentinel_Do\<close> and
  \<open>sentinel_Reconcile\<close>): what the metrics gauge says of a run, which objects a successful run
  leaves behind, how the cache and the password behave across reconciles, and that a reachable
  cluster is healed.
\<close>

subsection \<open>Steps that leave the operator's own state alone\<close>

lemma internal_checker:
  assumes "internal v"
  shows "keeps (same v) (CheckRedisConfig E rc ip auth)" "keeps (same v) (CheckRedisNumber E rc)"
    "keeps (same v) (CheckSentinelNumber E rc)" "keeps (same v) (EnsureSentinelReady E rc)"
    "keeps (same v) (CheckAllSlavesFromMaster E m rc auth)" "keeps (same v) (CheckSentinelNumberInMemory E ip rc auth)"
    "keeps (same v) (CheckSentinelSlavesNumberInMemory E ip rc auth)" "keeps (same v) (CheckSentinelMonitor E ip m auth)"
    "keeps (same v) (GetMasterIP E rc auth)" "keeps (same v) (GetNumberMasters E rc auth)"
    "keeps (same v) (GetRedisesIPs E rc auth)" "keeps (same v) (GetSentinelsIPs E rc)"
    "keeps (same v) (GetMinimumRedisPodTime E rc)" "keeps (same v) (CheckSentinelReadyReplicas E rc)"
  unfolding checker_defs CheckSentinelSlavesNumberInMemory_def GetNumberSentinelSlavesInMemory_def countSlave_def
    slaveInfoFieldByName_def redis_client_defs object_client_defs Let_def
  by (intro internal_intros internal_prims [OF assms])+

lemma internal_healer:
  assumes "internal v"
  shows "keeps (same v) (healer_MakeMaster E ip auth)" "keeps (same v) (SetOldestAsMaster E rc auth)"
    "keeps (same v) (SetMasterOnAll E m rc auth)" "keeps (same v) (NewSentinelMonitor E ip m rc auth)"
    "keeps (same v) (RestoreSentinel E ip auth)" "keeps (same v) (SetSentinelCustomConfig E ip rc auth)"
    "keeps (same v) (SetRedisCustomConfig E ip rc auth)"
  unfolding healer_defs redis_client_defs object_client_defs Let_def split_def
  by (intro internal_intros internal_prims [OF assms])+

lemma internal_wait:
  assumes "internal v"
  shows "keeps (same v) (waitRestoreSentinelSlavesOK E sip rc auth)"
proof -
  have "keeps (same v) (waitLoop fuel E deadline sip rc auth)" for fuel deadline
  proof (induction fuel)
    case (Suc fuel)
    then show ?case unfolding waitLoop.simps nowG_def sleepG_def
      by (intro internal_intros internal_prims [OF assms] internal_checker [OF assms])
  qed (simp add: internal_prims [OF assms])
  then show ?thesis unfolding waitRestoreSentinelSlavesOK_def nowG_def
    by (intro internal_intros internal_prims [OF assms])
qed

lemma internal_CheckAndHeal:
  assumes "internal v"
  shows "keeps (same v) (sentinel_CheckAndHeal E m)"
  unfolding sentinel_CheckAndHeal_def fixMasters_def sentinel_setRedisConfig_def setSentinelConfig_def
    monitorStep_def slavesStep_def sentinelsStep_def ptr_defs Let_def event_defs
  by (intro internal_intros internal_prims [OF assms] internal_checker [OF assms] internal_healer [OF assms]
      internal_wait [OF assms])

text \<open>
  \<open>identity_laws E\<close>: the object with which the API server answers an update of a custom
  resource has the name and the namespace of the object it was given.
\<close>

definition identity_laws :: "'e env \<Rightarrow> bool" where
  "identity_laws E \<longleftrightarrow>
     (\<forall>rc x rc' y. kc_StatusUpdate (E_sentinels E) rc x = (Inr rc', y) \<longrightarrow> metaKey (rs_meta rc') = metaKey (rs_meta rc)) \<and>
     (\<forall>rc x rc' y. kc_Update (E_sentinels E) rc x = (Inr rc', y) \<longrightarrow> metaKey (rs_meta rc') = metaKey (rs_meta rc))"

definition rsKey :: "ptr \<Rightarrow> 'e world \<Rightarrow> string \<times> string" where
  "rsKey p w = metaKey (rs_meta (w_rs w p))"

lemma gaugeView_keyed: "keyedRs (gaugeView (rsKey p))"
  by (simp add: keyedRs_def internal_def gaugeView_def rsKey_def)

lemmas gaugeView_internal = keyed_internal(1) [OF gaugeView_keyed]

lemma upd_rs_spec_meta [simp]: "rs_meta (upd_rs_spec f rc) = rs_meta rc"
  by (simp add: upd_rs_spec_def)

lemma keyed_SetCondition: "keyedRs v \<Longrightarrow> keeps (same v) (SetConditionG E q k msg)"
  unfolding SetConditionG_def Let_def nowG_def getRs_def split_def
  by (intro internal_intros internal_prims keyed_internal(1) keyed_set(1)) simp_all

lemma keyed_updates:
  assumes "keyedRs v" and "identity_laws E"
  shows "keeps (same v) (UpdateSentinelStatus E ns q)" "keeps (same v) (UpdateSentinelSpec E ns q)"
proof -
  show "keeps (same v) (UpdateSentinelStatus E ns q)"
    unfolding UpdateSentinelStatus_def
    by (intro keeps_seqG same_order keyed_set(1) keyed_reply assms(1)) (use assms(2) [unfolded identity_laws_def] in auto)
  show "keeps (same v) (UpdateSentinelSpec E ns q)"
    unfolding UpdateSentinelSpec_def by (intro keyed_reply assms(1)) (use assms(2) [unfolded identity_laws_def] in blast)
qed

lemma keyed_Validate:
  assumes "keyedRs v"
  shows "keeps (same v) (onRs p sentinel_Validate)"
proof -
  have "keeps (same rs_meta) sentinel_Validate"
    unfolding sentinel_Validate_def
    by (intro keeps_readG keeps_seqG keeps_whenG keeps_ifG keeps_leaf keeps_modifyG same_order)
       (auto simp: same_def keeps_def onConfig_def zoomG_def upd_sentinel_def upd_exporter_def split_def)
  then show ?thesis using assms by (auto simp: keeps_def same_def onRs_def zoomG_def keyedRs_def split_def)
qed

lemma gauge_cache: "keeps (same (gaugeView (rsKey p))) (sentinel_Cache q)"
  unfolding sentinel_Cache_def sentinel_Add_def sentinel_Update_def sentinel_Get_def ptr_defs
  by (intro internal_intros) (auto simp: keeps_def same_def gaugeView_def rsKey_def bindG_def tryG_def)

text \<open>\<open>EnsureRedisStatefulset\<close> writes back an object it derived from the one it read.\<close>

lemma generateRedisStatefulSet_meta [simp]:
  "rs_meta (snd (generateRedisStatefulSet rc labels refs)) = rs_meta rc"
  by (simp add: generateRedisStatefulSet_def Let_def)

lemma keyed_EnsureRedisStatefulset:
  assumes "keyedRs v"
  shows "keeps (same v) (EnsureRedisStatefulset E q labels refs)"
proof -
  have "v w' = v w" if run: "EnsureRedisStatefulset E q labels refs w = (r, w')" for w r w'
  proof -
    let ?rc = "w_rs w q"
    let ?R = "\<lambda>a b. metaKey (rs_meta (w_rs a q)) = metaKey (rs_meta ?rc) \<longrightarrow>
       v b = v a \<and> metaKey (rs_meta (w_rs b q)) = metaKey (rs_meta ?rc)"
    have order: "reflp ?R" "transp ?R" by (auto simp: reflp_def transp_def)
    have ext: "keeps ?R (extG f)" for f :: "'a \<Rightarrow> (GoErr + 'c) \<times> 'a"
      using assms by (auto simp: keeps_def extG_def keyedRs_def internal_def split: prod.split sum.split)
    have budget: "keeps ?R (ensurePodDisruptionBudget E ?rc UtilRedisName RedisRoleName labels refs)"
      unfolding ensurePodDisruptionBudget_def object_client_defs Let_def
      by (intro keeps_tryG keeps_bindG keeps_if keeps_leaf order ext)
    have mark: "keeps ?R (modifyG (\<lambda>w. w\<lparr>w_rs := (w_rs w)(q := snd (generateRedisStatefulSet ?rc labels refs))\<rparr>))"
      using assms by (simp add: keeps_def keyedRs_def)
    from rsw.ensure_frame [where p = q and R = ?R, OF order budget mark ext refl run] show ?thesis by simp
  qed
  then show ?thesis unfolding keeps_def same_def by (metis prod.collapse)
qed

lemma keyed_Ensure:
  assumes "keyedRs v"
  shows "keeps (same v) (sentinel_Ensure E q labels refs)"
  unfolding sentinel_Ensure_def EnsureRedisService_def EnsureSentinelService_def EnsureSentinelHeadlessService_def
    EnsureRedisMonitorService_def EnsureSentinelConfigMap_def EnsureSentinelProbeConfigMap_def
    EnsureRedisShutdownConfigMap_def EnsureSentinelStatefulset_def ensurePodDisruptionBudget_def object_client_defs
    getRs_def Let_def
  by (intro internal_intros internal_prims [OF keyed_internal(1) [OF assms]] keyed_EnsureRedisStatefulset [OF assms])

lemma keyed_report:
  assumes "keyedRs v" and "identity_laws E"
  shows "keeps (same v) (sentinel_reportFailed E q err)" "keeps (same v) (sentinel_updateStatus E m)"
  unfolding sentinel_reportFailed_def sentinel_updateStatus_def sentinel_announce_def getRs_def getMeta_def event_defs Let_def
  by (intro internal_intros internal_prims [OF keyed_internal(1) [OF assms(1)]] keyed_SetCondition keyed_updates assms)+

lemmas gauge_SetCondition = keyed_SetCondition [OF gaugeView_keyed]
  and gauge_updates = keyed_updates [OF gaugeView_keyed]
  and gauge_EnsureRedisStatefulset = keyed_EnsureRedisStatefulset [OF gaugeView_keyed]
  and gauge_Ensure = keyed_Ensure [OF gaugeView_keyed]
  and gauge_report = keyed_report [OF gaugeView_keyed]
  and gauge_Validate = keyed_Validate [OF gaugeView_keyed]

subsection \<open>The gauge\<close>

interpretation rsg: gauge_reporter "rsKey p" "sentinel_setError p"
    "getRs p (\<lambda>rc. SetClusterOK (rs_namespace rc) (rs_name rc))" for p
  by unfold_locales (simp_all add: sentinel_setError_def getRs_def SetClusterError_def SetClusterOK_def rsKey_def metaKey_def)

lemma gauge_checkFailed:
  assumes "identity_laws E"
  shows "gaugeOut (rsKey p) (sentinel_checkFailed E p err)"
  unfolding sentinel_checkFailed_def event_defs getRs_def Let_def
  by (intro rsg.gaugeOut_setError internal_intros internal_prims [OF gaugeView_internal] gauge_SetCondition
      gauge_updates [OF assms] gauge_report [OF assms] failsOnly_rules)

lemma gauge_reportHealthy:
  assumes "identity_laws E"
  shows "gaugeOut (rsKey p) (sentinel_reportHealthy E p)"
proof -
  have "gaugeOut (rsKey p) (seqG (HealthCluster (rs_meta rc)) (seqG (SetConditionG E p SetReadyCondition ''Cluster ok'')
      (seqG (UpdateSentinelStatus E (rs_namespace rc) p)
        (getRs p (\<lambda>rc'. SetClusterOK (rs_namespace rc') (rs_name rc'))))))" for rc
    unfolding event_defs
    by (intro gaugeOut_seqG rsg.gaugeOut_setOK internal_prims [OF gaugeView_internal] gauge_SetCondition gauge_updates [OF assms])
  then show ?thesis unfolding sentinel_reportHealthy_def getRs_def [of p] by (rule gaugeOut_readG)
qed

lemma sentinel_Do_gaugeOut:
  assumes "identity_laws E"
  shows "gaugeOut (rsKey p) (sentinel_Do E p)"
  unfolding sentinel_Do_def event_defs getRs_def getMeta_def
  by (intro gaugeOut_tryG gaugeOut_readG gaugeOut_bindG rsg.gaugeOut_setError gaugeOut_seqG gaugeOut_if gaugeOut_fail gauge_Validate
      gauge_cache gauge_Ensure internal_CheckAndHeal [OF gaugeView_internal] gauge_report [OF assms]
      gauge_checkFailed [OF assms] gauge_reportHealthy [OF assms] gauge_updates [OF assms]
      internal_prims [OF gaugeView_internal] internal_intros failsOnly_rules)


lemma memEnv_identity: "identity_laws memEnv"
  by (auto simp: identity_laws_def memEnv_time memStatus_def memKind_def split: option.splits)

text \<open>An object that asks for one Redis server only is rejected.\<close>

definition smallWorld :: "memApi world" where
  "smallWorld = (initWorld emptyMem)\<lparr>w_rs := \<lambda>_. upd_rs_spec (sn_Size_update (\<lambda>_. 1)) (sentinelNamed ''db'' ''x'')\<rparr>"


subsection \<open>Deletion and the password\<close>

text \<open>
  C22. A deleted object is forgotten: when the API server reports that the object does not exist,
  a reconcile succeeds, asks for no requeue and drops the cached metadata of that object and
  nothing else; an object created later under the same name is then treated as a first one,
  with its own password.
\<close>

theorem sentinel_Reconcile_deleted:
  assumes "kc_Get (E_sentinels E) ns n (w_ext w) = (Inl e, x)" and "IsNotFound e"
    and "rs_namespace rc = ns" and "rs_name rc = n"
  shows "\<exists>w'. sentinel_Reconcile E ReconcileTime ns n w = (Ok zeroResult, w')
     \<and> sentinelEntry w' = (sentinelEntry w)(sentinelKey rc := None) \<and> w_rs w' = w_rs w \<and> w_metrics w' = w_metrics w
     \<and> (\<exists>m w2. bindG (allocRs rc) sentinel_Cache w' = (Ok m, w2) \<and> m_State (w_metas w2 m) = Create
          \<and> Password (m_Auth (w_metas w2 m)) = sn_Password (rs_spec rc))"
proof -
  let ?w = "w\<lparr>w_ext := x, w_snCache := (w_snCache w)(getNamespacedName ns n := None)\<rparr>"
  have "sentinel_Reconcile E ReconcileTime ns n w = (Ok zeroResult, ?w)"
    using assms(1,2) by (simp add: sentinel_Reconcile_def tryG_def extG_def seqG_run sentinel_Del_def)
  moreover have "sentinelEntry ?w = (sentinelEntry w)(sentinelKey rc := None)"
    using assms(3,4) by (auto simp: sentinelEntry_def sentinelKey_def fun_eq_iff)
  moreover have "\<exists>m w2. bindG (allocRs rc) sentinel_Cache ?w = (Ok m, w2) \<and> m_State (w_metas w2 m) = Create
      \<and> Password (m_Auth (w_metas w2 m)) = sn_Password (rs_spec rc)"
    using assms(3,4) by (simp add: sentinel_cache_defs bindG_run seqG_case newCluster_def)
  ultimately show ?thesis by (intro exI [of _ ?w]) simp
qed

theorem sentinel_Reconcile_deleted_witness:
  "\<exists>w'. sentinel_Reconcile memEnv 10 ''db'' ''x'' (initWorld emptyMem) = (Ok zeroResult, w')
     \<and> sentinelEntry w' ''db/x'' = None"
proof -
  have get: "kc_Get (E_sentinels memEnv) ''db'' ''x'' (w_ext (initWorld emptyMem)) =
      (Inl (StatusError NotFound ''x not found''), emptyMem)"
    by (simp add: memEnv_time memKind_def emptyMem_def)
  from sentinel_Reconcile_deleted [OF get, of "sentinelNamed ''db'' ''x''" 10]
  show ?thesis by (auto simp: sentinelKey_def getNamespacedName_def)
qed

text \<open>
  \<open>status_laws E stored\<close>: an update of the status subresource answers with the stored object and
  ignores the spec it was given; reading the clock does not change what is stored.
\<close>

definition status_laws :: "'e env \<Rightarrow> ('e \<Rightarrow> string \<times> string \<Rightarrow> RedisSentinel option) \<Rightarrow> bool" where
  "status_laws E stored \<longleftrightarrow>
     (\<forall>rc x rc' y. kc_StatusUpdate (E_sentinels E) rc x = (Inr rc', y) \<longrightarrow>
        metaKey (rs_meta rc') = metaKey (rs_meta rc) \<and>
        (\<exists>st. stored x (metaKey (rs_meta rc)) = Some st \<and> rs_spec rc' = rs_spec st)) \<and>
     (\<forall>x. stored (snd (E_now E x)) = stored x)"

definition storedView :: "('e \<Rightarrow> string \<times> string \<Rightarrow> RedisSentinel option) \<Rightarrow> ptr \<Rightarrow> 'e world
    \<Rightarrow> (string \<times> string \<Rightarrow> RedisSentinel option) \<times> (string \<times> string) \<times> (ptr \<Rightarrow> Meta) \<times> (string \<rightharpoonup> ptr)" where
  "storedView stored p w = (stored (w_ext w), metaKey (rs_meta (w_rs w p)), w_metas w, w_snCache w)"

lemma storedView_prims:
  assumes "status_laws E stored"
  shows "keeps (same (storedView stored p)) (totalG (E_now E))"
    "keeps (same (storedView stored p)) (recordEvent om t r msg)"
    "(\<And>rc. metaKey (rs_meta (f rc)) = metaKey (rs_meta rc)) \<Longrightarrow> keeps (same (storedView stored p)) (setRs q f)"
proof -
  have now: "stored y = stored x" if "E_now E x = (t, y)" for t x y
    using assms that unfolding status_laws_def by (metis snd_conv)
  show "keeps (same (storedView stored p)) (totalG (E_now E))"
    using now by (auto simp: keeps_def same_def storedView_def totalG_def split: prod.split)
qed (auto simp: keeps_def same_def storedView_def recordEvent_def setRs_def)

lemma storedView_SetCondition:
  assumes "status_laws E stored"
  shows "keeps (same (storedView stored p)) (SetConditionG E q k msg)"
  unfolding SetConditionG_def Let_def nowG_def getRs_def split_def
  by (intro internal_intros storedView_prims [OF assms]) simp_all

lemma UpdateSentinelStatus_stored:
  assumes laws: "status_laws E stored" and run: "UpdateSentinelStatus E ns p w = (Ok u, w')"
  shows "\<exists>st. stored (w_ext w) (metaKey (rs_meta (w_rs w p))) = Some st \<and> rs_spec (w_rs w' p) = rs_spec st
     \<and> w_metas w' = w_metas w \<and> w_snCache w' = w_snCache w"
proof -
  let ?rc = "rs_status_update (DescConditionsByTime (E_sortConditions E)) (w_rs w p)"
  obtain rc' y where "kc_StatusUpdate (E_sentinels E) ?rc (w_ext w) = (Inr rc', y)"
    "w_rs w' p = rc'" "w_metas w' = w_metas w" "w_snCache w' = w_snCache w"
    using run by (auto simp: UpdateSentinelStatus_def ptr_defs seqG_run bindG_Ok_iff extG_Ok_iff)
  moreover from this(1) obtain st where "stored (w_ext w) (metaKey (rs_meta (w_rs w p))) = Some st" "rs_spec rc' = rs_spec st"
    using laws unfolding status_laws_def by fastforce
  ultimately show ?thesis by auto
qed

lemma updateStatus_stored:
  assumes laws: "status_laws E stored" and st: "m_State (w_metas w m) \<noteq> Check" "m_Obj (w_metas w m) = p"
    and run: "sentinel_updateStatus E m w = (Ok u, w')"
  shows "\<exists>st. stored (w_ext w) (metaKey (rs_meta (w_rs w p))) = Some st \<and> rs_spec (w_rs w' p) = rs_spec st
     \<and> w_metas w' = w_metas w \<and> w_snCache w' = w_snCache w"
proof -
  let ?f = "sentinel_announce E (w_metas w m) (rs_meta (w_rs w p))"
  obtain w1 where f: "?f w = (Ok (), w1)" and upd: "UpdateSentinelStatus E (rs_namespace (w_rs w p)) p w1 = (Ok u, w')"
    using run st by (auto simp: sentinel_updateStatus_def ptr_defs seqG_Ok_iff)
  have "keeps (same (storedView stored p)) ?f"
    unfolding event_defs sentinel_announce_def Let_def
    by (intro keeps_if keeps_seqG same_order storedView_prims [OF laws] storedView_SetCondition [OF laws])
  then have "storedView stored p w1 = storedView stored p w" using f by (rule keeps_sameD)
  with UpdateSentinelStatus_stored [OF laws upd] show ?thesis by (auto simp: storedView_def)
qed

text \<open>
  C21. The status update defeats the protection of the password. When an object of a new
  generation carries another password, \<open>Cache\<close> puts the old one back into it; but the status
  update that follows overwrites the object with the server's answer, which holds the spec
  the user wrote. After it the cached object carries the new password while the operator
  still authenticates with the old one.
\<close>

theorem status_update_reveals_password:
  assumes "status_laws E stored" and "sentinelEntry w (sentinelKey new) = Some e"
    and "w_rs w p = new" and "old = w_rs w (m_Obj e)"
    and "om_generation (rs_meta old) \<noteq> om_generation (rs_meta new)"
    and "stored (w_ext w) (rs_namespace new, rs_name new) = Some new"
    and "bindG (sentinel_Cache p) (sentinel_updateStatus E) w = (Ok (), w')"
  shows "\<exists>e'. sentinelEntry w' (sentinelKey new) = Some e' \<and> m_Obj e' = p
     \<and> Password (m_Auth e') = sn_Password (rs_spec old)
     \<and> sn_Password (rs_spec (w_rs w' p)) = sn_Password (rs_spec new)"
proof -
  obtain m w1 where w1: "sentinel_Cache p w = (Ok m, w1)" "sentinel_updateStatus E m w1 = (Ok (), w')"
    using assms(7) by (rule bindG_OkE)
  have c: "w_snCache w (sentinelKey new) = Some m" "w_ext w1 = w_ext w" "w_snCache w1 = w_snCache w"
    "w_metas w1 m = sentinel_changedMeta e old new p" "rs_meta (w_rs w1 p) = rs_meta new"
    using w1(1) assms(2-5)
    by (auto simp: sentinel_cache_defs seqG_case upd_rs_spec_def split: option.splits)
  then have "m_State (w_metas w1 m) \<noteq> Check" "m_Obj (w_metas w1 m) = p" by simp_all
  from updateStatus_stored [OF assms(1) this w1(2)] c assms(6)
  show ?thesis by (auto simp: sentinelEntry_def metaKey_def)
qed

lemma memEnv_status: "status_laws memEnv ma_sentinels"
  by (auto simp: status_laws_def memEnv_time memStatus_def split: option.splits)

text \<open>A cached object with one password and a stored, newer one with another.\<close>

definition passwordWorld :: "memApi world" where
  "passwordWorld = (initWorld (emptyMem\<lparr>ma_sentinels := [(''db'', ''x'') \<mapsto> withPassword ''second'' 2]\<rparr>))\<lparr>
     w_rs := (\<lambda>_. withPassword ''first'' 1)(2 := withPassword ''second'' 2),
     w_metas := \<lambda>_. newCluster (withPassword ''first'' 1) 1,
     w_snCache := [''db/x'' \<mapsto> 3]\<rparr>"

lemma withPassword_sel [simp]:
  "rs_meta (withPassword s g) = zeroMeta\<lparr>om_namespace := ''db'', om_name := ''x'', om_generation := g\<rparr>"
  "sn_Password (rs_spec (withPassword s g)) = s"
  by (simp_all add: withPassword_def upd_rs_spec_def)

lemma password_runs: "fst (bindG (sentinel_Cache 2) (sentinel_updateStatus memEnv) passwordWorld) = Ok ()"
proof -
  have up: "m_Status (sentinel_changedMeta e (withPassword a 1) (withPassword b 2) q) = ClusterConditionUpgrading" for e a b q
    by (simp add: sentinel_changedMeta_def sentinel_isImagesChanged_def sentinel_isScalingDown_def
        sentinel_isScalingUp_def Let_def withPassword_def upd_rs_spec_def)
  have conds: "rs_status (withPassword s g) = zeroSentinelStatus" for s g
    by (simp add: withPassword_def upd_rs_spec_def sentinelNamed_def zeroSentinel_def)
  have cache: "sentinel_Cache 2 passwordWorld = (Ok 3, passwordWorld\<lparr>
      w_rs := (w_rs passwordWorld)(2 := upd_rs_spec (sn_Password_update (\<lambda>_. ''first'')) (withPassword ''second'' 2)),
      w_metas := (w_metas passwordWorld)(3 := sentinel_changedMeta (newCluster (withPassword ''first'' 1) 1)
          (withPassword ''first'' 1) (withPassword ''second'' 2) 2)\<rparr>)"
    by (simp add: sentinel_cache_defs seqG_case passwordWorld_def newCluster_def getNamespacedName_def initWorld_def)
  show ?thesis
    unfolding bindG_run(1) [where m = "sentinel_Cache 2", OF cache]
    by (simp add: bindG_def tryG_def sentinel_updateStatus_def sentinel_announce_def ptr_defs Let_def up
        ClusterConditionUpgrading_def ClusterConditionCreating_def ClusterConditionScaling_def
        ClusterConditionScalingDown_def EventUpdateStatus_def recordEvent_def seqG_case SetConditionG_def nowG_def totalG_def
        memEnv_time getClusterCondition_def conds zeroSentinelStatus_def UpdateSentinelStatus_def extG_def memStatus_def
        passwordWorld_def initWorld_def emptyMem_def metaKey_def)
qed

theorem status_update_reveals_password_witness:
  "\<exists>w' e'. bindG (sentinel_Cache 2) (sentinel_updateStatus memEnv) passwordWorld = (Ok (), w')
     \<and> sentinelEntry w' ''db/x'' = Some e' \<and> Password (m_Auth e') = ''first''
     \<and> sn_Password (rs_spec (w_rs w' (m_Obj e'))) = ''second''"
proof -
  obtain w' where run: "bindG (sentinel_Cache 2) (sentinel_updateStatus memEnv) passwordWorld = (Ok (), w')"
    using password_runs by (metis prod.collapse)
  have key: "sentinelKey (withPassword ''second'' 2) = ''db/x''" by (simp add: sentinelKey_def getNamespacedName_def)
  have e: "sentinelEntry passwordWorld (sentinelKey (withPassword ''second'' 2)) = Some (newCluster (withPassword ''first'' 1) 1)"
    by (simp add: sentinelEntry_def passwordWorld_def key)
  from status_update_reveals_password [OF memEnv_status e _ refl _ _ run] key
  show ?thesis using run by (auto simp: passwordWorld_def newCluster_def initWorld_def)
qed

subsection \<open>Every object exists\<close>

lemma serves_separate:
  assumes "serves E db"
  shows "separate_kinds E (st_statefulSets db)" "api_laws (E_statefulSets E) ss_meta (st_statefulSets db)"
    "kind_keeps (E_pdbs E) (\<lambda>x. (st_services db x, st_configMaps db x))"
    "kind_keeps (E_statefulSets E) (\<lambda>x. (st_services db x, st_configMaps db x))"
  using assms unfolding api_server_def kind_keeps_def separate_kinds_def by (simp_all add: prod_eq_iff)

abbreviation otherStores :: "'e stores \<Rightarrow> 'e world
    \<Rightarrow> (string \<times> string \<Rightarrow> Service option) \<times> (string \<times> string \<Rightarrow> ConfigMap option)" where
  "otherStores db \<equiv> \<lambda>w. (st_services db (w_ext w), st_configMaps db (w_ext w))"

lemma workloads_keep:
  assumes "serves E db"
  shows "keeps (same (otherStores db)) (EnsureRedisStatefulset E p labels refs)"
    "keeps (same (otherStores db)) (EnsureSentinelStatefulset E rc labels refs)"
proof -
  have set: "keeps (same (otherStores db)) (setRs p f)" for f by (simp add: keeps_def same_def setRs_def)
  note ops = kind_keeps_ops [OF serves_separate(3) [OF assms]] kind_keeps_ops [OF serves_separate(4) [OF assms]]
  show "keeps (same (otherStores db)) (EnsureRedisStatefulset E p labels refs)"
    "keeps (same (otherStores db)) (EnsureSentinelStatefulset E rc labels refs)"
    unfolding EnsureRedisStatefulset_def EnsureSentinelStatefulset_def ensurePodDisruptionBudget_def object_client_defs
      getRs_def Let_def split_def
    by (intro keeps_ensure keeps_readG ops set)+
qed

lemma grown_workload:
  assumes "otherStores db w' = otherStores db w"
    and "st_statefulSets db (w_ext w') = (st_statefulSets db (w_ext w))(k \<mapsto> ss)"
  shows "grown db {} {} {k} (w_ext w) (w_ext w')"
  using assms by (auto simp: grown_def)

lemma ensures_workloads:
  assumes "serves E db"
  shows "ensuresG db {} {} {(rs_namespace rc, GetSentinelName rc)} (EnsureSentinelStatefulset E rc labels refs)"
    and "w_rs w p = rc \<Longrightarrow> EnsureRedisStatefulset E p labels refs w = (Ok (), w') \<Longrightarrow>
       grown db {} {} {(rs_namespace rc, sentinel_GetRedisName rc)} (w_ext w) (w_ext w')"
proof -
  note laws = serves_separate(2,1) [OF assms]
  have "grown db {} {} {(rs_namespace rc, GetSentinelName rc)} (w_ext v) (w_ext v')"
    if run: "EnsureSentinelStatefulset E rc labels refs v = (Ok (), v')" for v v'
    using ssw.ensure_effect [OF laws TrueI run] keeps_sameD [OF workloads_keep(2) [OF assms] run]
    by (auto simp: metaKey_def intro: grown_workload)
  then show "ensuresG db {} {} {(rs_namespace rc, GetSentinelName rc)} (EnsureSentinelStatefulset E rc labels refs)"
    by (simp add: ensuresG_def)
  assume rc: "w_rs w p = rc" and run: "EnsureRedisStatefulset E p labels refs w = (Ok (), w')"
  from rsw.ensure_effect [OF laws rc run] keeps_sameD [OF workloads_keep(1) [OF assms] run]
  show "grown db {} {} {(rs_namespace rc, sentinel_GetRedisName rc)} (w_ext w) (w_ext w')"
    by (auto simp: metaKey_def intro: grown_workload)
qed

text \<open>What the steps before the workloads leave behind.\<close>

definition sentinelServices :: "RedisSentinel \<Rightarrow> string set" where
  "sentinelServices rc = {sentinel_GetRedisName rc, GetSentinelName rc, GetSentinelHeadlessSvc rc} \<union>
     (if ex_Enabled (sn_Exporter (rs_spec rc)) then {sentinel_GetRedisName rc @ ''-monitor''} else {})"

definition sentinelConfigMaps :: "RedisSentinel \<Rightarrow> string set" where
  "sentinelConfigMaps rc = {GetSentinelName rc, GetSentinelReadinessCm rc, sentinel_GetRedisShutdownConfigMapName rc}"

lemma generated_keys:
  "svc_meta (generateRedisService rc labels refs) = objectMeta (sentinel_GetRedisName rc) (rs_namespace rc)
      (roleLabels labels RedisRoleName (rs_name rc)) refs"
  "om_name (svc_meta (generateSentinelService rc labels refs)) = GetSentinelName rc"
  "om_namespace (svc_meta (generateSentinelService rc labels refs)) = rs_namespace rc"
  "om_name (svc_meta (newHeadLessSvcForCR rc labels refs)) = GetSentinelHeadlessSvc rc"
  "om_namespace (svc_meta (newHeadLessSvcForCR rc labels refs)) = rs_namespace rc"
  "om_name (svc_meta (generateRedisMonitorService rc labels refs)) = sentinel_GetRedisName rc @ ''-monitor''"
  "om_namespace (svc_meta (generateRedisMonitorService rc labels refs)) = rs_namespace rc"
  "om_name (cm_meta (generateSentinelConfigMap rc labels refs)) = GetSentinelName rc"
  "om_namespace (cm_meta (generateSentinelConfigMap rc labels refs)) = rs_namespace rc"
  "om_name (cm_meta (generateSentinelReadinessProbeConfigMap rc labels refs)) = GetSentinelReadinessCm rc"
  "om_namespace (cm_meta (generateSentinelReadinessProbeConfigMap rc labels refs)) = rs_namespace rc"
  "om_name (cm_meta (generateRedisShutdownConfigMap rc labels refs)) = sentinel_GetRedisShutdownConfigMapName rc"
  "om_namespace (cm_meta (generateRedisShutdownConfigMap rc labels refs)) = rs_namespace rc"
  "om_name (objectMeta n ns ls os) = n" "om_namespace (objectMeta n ns ls os) = ns"
  by (simp_all add: generateRedisService_def generateSentinelService_def newHeadLessSvcForCR_def
      generateRedisMonitorService_def generateSentinelConfigMap_def generateSentinelReadinessProbeConfigMap_def
      generateRedisShutdownConfigMap_def objectMeta_def Let_def)

lemma ensures_objects:
  assumes "serves E db"
  shows "ensuresG db {(rs_namespace rc, sentinel_GetRedisName rc)} {} {} (EnsureRedisService E rc labels refs)"
    "ensuresG db {(rs_namespace rc, GetSentinelName rc)} {} {} (EnsureSentinelService E rc labels refs)"
    "ensuresG db {(rs_namespace rc, GetSentinelHeadlessSvc rc)} {} {} (EnsureSentinelHeadlessService E rc labels refs)"
    "ensuresG db (if ex_Enabled (sn_Exporter (rs_spec rc)) then {(rs_namespace rc, sentinel_GetRedisName rc @ ''-monitor'')} else {})
       {} {} (if ex_Enabled (sn_Exporter (rs_spec rc)) then EnsureRedisMonitorService E rc labels refs else skipG)"
    "ensuresG db {} {(rs_namespace rc, GetSentinelName rc)} {} (EnsureSentinelConfigMap E rc labels refs)"
    "ensuresG db {} {(rs_namespace rc, GetSentinelReadinessCm rc)} {} (EnsureSentinelProbeConfigMap E rc labels refs)"
    "ensuresG db {} {(rs_namespace rc, sentinel_GetRedisShutdownConfigMapName rc)} {} (EnsureRedisShutdownConfigMap E rc labels refs)"
  using ensuresG_service [OF assms, of "generateRedisService rc labels refs" "rs_namespace rc"]
    ensuresG_service [OF assms, of "generateSentinelService rc labels refs" "rs_namespace rc"]
    ensuresG_service [OF assms, of "newHeadLessSvcForCR rc labels refs" "rs_namespace rc"]
    ensuresG_service [OF assms, of "generateRedisMonitorService rc labels refs" "rs_namespace rc"]
    ensuresG_configMap [OF assms, of "generateSentinelConfigMap rc labels refs" "rs_namespace rc"]
    ensuresG_configMap [OF assms, of "generateSentinelReadinessProbeConfigMap rc labels refs" "rs_namespace rc"]
    ensuresG_configMap [OF assms, of "generateRedisShutdownConfigMap rc labels refs" "rs_namespace rc"]
    ensuresG_existing [OF assms, of "rs_namespace rc" "sn_ShutdownConfigMap (rs_spec rc)"]
  by (simp_all add: generated_keys EnsureRedisService_def EnsureSentinelService_def EnsureSentinelHeadlessService_def
      EnsureRedisMonitorService_def EnsureSentinelConfigMap_def EnsureSentinelProbeConfigMap_def
      EnsureRedisShutdownConfigMap_def sentinel_GetRedisShutdownConfigMapName_def split: if_splits)

definition ensureObjects :: "'e env \<Rightarrow> RedisSentinel \<Rightarrow> strmap \<Rightarrow> OwnerReference list \<Rightarrow> ('e, unit) op" where
  "ensureObjects E rc labels refs =
     seqG (EnsureRedisService E rc labels refs) (seqG (EnsureSentinelService E rc labels refs)
    (seqG (EnsureSentinelHeadlessService E rc labels refs)
    (seqG (if ex_Enabled (sn_Exporter (rs_spec rc)) then EnsureRedisMonitorService E rc labels refs else skipG)
    (seqG (EnsureSentinelConfigMap E rc labels refs)
    (seqG (EnsureSentinelProbeConfigMap E rc labels refs) (EnsureRedisShutdownConfigMap E rc labels refs))))))"

lemma ensures_ensureObjects:
  assumes "serves E db"
  shows "ensuresG db (Pair (rs_namespace rc) ` sentinelServices rc) (Pair (rs_namespace rc) ` sentinelConfigMaps rc) {}
     (ensureObjects E rc labels refs)"
proof -
  note o = ensures_objects [OF assms, of rc labels refs]
  show ?thesis
    unfolding ensureObjects_def
    by (rule ensuresG_mono [OF ensuresG_seqG [OF o(1) ensuresG_seqG [OF o(2) ensuresG_seqG [OF o(3) ensuresG_seqG [OF o(4)
          ensuresG_seqG [OF o(5) ensuresG_seqG [OF o(6,7)]]]]]]])
       (auto simp: sentinelServices_def sentinelConfigMaps_def)
qed

lemma sentinel_Ensure_split:
  assumes "w_rs w p = rc" and "sentinel_Ensure E p labels refs w = (Ok (), w')"
  obtains w1 w2 where "ensureObjects E rc labels refs w = (Ok (), w1)" "w_rs w1 p = rc"
    "EnsureRedisStatefulset E p labels refs w1 = (Ok (), w2)"
    "EnsureSentinelStatefulset E (w_rs w2 p) labels refs w2 = (Ok (), w')"
    "rs_namespace (w_rs w2 p) = rs_namespace rc" "rs_name (w_rs w2 p) = rs_name rc"
proof -
  obtain w1 w2 where r: "ensureObjects E rc labels refs w = (Ok (), w1)"
    "EnsureRedisStatefulset E p labels refs w1 = (Ok (), w2)"
    "EnsureSentinelStatefulset E (w_rs w2 p) labels refs w2 = (Ok (), w')"
    using assms unfolding sentinel_Ensure_def ensureObjects_def getRs_def readG_run by (auto simp: seqG_Ok_iff)
  have ext: "keeps extOnly (ensureObjects E rc labels refs)"
    unfolding ensureObjects_def EnsureRedisService_def EnsureSentinelService_def EnsureSentinelHeadlessService_def
      EnsureRedisMonitorService_def EnsureSentinelConfigMap_def EnsureSentinelProbeConfigMap_def
      EnsureRedisShutdownConfigMap_def
    by (intro keeps_extOnly_comb keeps_if wrappers_extOnly)
  have rc: "w_rs w1 p = rc"
    using keepsD [OF ext r(1)] assms(1) by (metis extOnly_def world.select_convs(3) world.surjective world.update_convs(1))
  have "metaKey (rs_meta (w_rs w2 p)) = metaKey (rs_meta rc)"
    using keeps_sameD [OF gauge_EnsureRedisStatefulset r(2)] rc by (simp add: gaugeView_def rsKey_def)
  then show thesis using that [OF r(1) rc r(2,3)] by (simp add: metaKey_def)
qed

lemma sentinel_Ensure_grows:
  assumes "serves E db" and "w_rs w p = rc" and "sentinel_Ensure E p labels refs w = (Ok (), w')"
  shows "grown db (Pair (rs_namespace rc) ` sentinelServices rc) (Pair (rs_namespace rc) ` sentinelConfigMaps rc)
     {(rs_namespace rc, sentinel_GetRedisName rc), (rs_namespace rc, GetSentinelName rc)} (w_ext w) (w_ext w')"
proof -
  obtain w1 w2 where r: "ensureObjects E rc labels refs w = (Ok (), w1)" "w_rs w1 p = rc"
    "EnsureRedisStatefulset E p labels refs w1 = (Ok (), w2)"
    "EnsureSentinelStatefulset E (w_rs w2 p) labels refs w2 = (Ok (), w')"
    "rs_namespace (w_rs w2 p) = rs_namespace rc" "rs_name (w_rs w2 p) = rs_name rc"
    by (rule sentinel_Ensure_split [OF assms(2,3)])
  then have name: "GetSentinelName (w_rs w2 p) = GetSentinelName rc" by (simp add: GetSentinelName_def)
  have "grown db (Pair (rs_namespace rc) ` sentinelServices rc \<union> {} \<union> {})
      (Pair (rs_namespace rc) ` sentinelConfigMaps rc \<union> {} \<union> {})
      ({} \<union> {(rs_namespace rc, sentinel_GetRedisName rc)} \<union> {(rs_namespace rc, GetSentinelName rc)}) (w_ext w) (w_ext w')"
    by (rule grown_trans [OF grown_trans [OF ensuresGD [OF ensures_ensureObjects [OF assms(1)] r(1)]
        ensures_workloads(2) [OF assms(1) r(2,3)]] ensuresGD [OF ensures_workloads(1) [OF assms(1)] r(4), unfolded r(5) name]])
  then show ?thesis by (simp add: insert_commute)
qed


definition freshWorld :: "memApi world" where
  "freshWorld = (initWorld emptyMem)\<lparr>w_rs := \<lambda>_. sentinelNamed ''db'' ''x''\<rparr>"

lemma fresh_objects:
  assumes "sn_ShutdownConfigMap (rs_spec rc) = []"
  shows "succeedsG (lacking K rs ra) (ensureObjects memEnv rc labels refs) (lacking K rs ra)"
proof -
  let ?I = "lacking K rs ra"
  have seq: "succeedsG ?I m ?I \<Longrightarrow> succeedsG ?I n ?I \<Longrightarrow> succeedsG ?I (seqG m n) ?I" for m n :: "(memApi, unit) op"
    by (rule succeedsG_seqG)
  have shutdown: "EnsureRedisShutdownConfigMap memEnv rc labels refs =
      CreateIfNotExistsConfigMap memEnv (rs_namespace rc) (generateRedisShutdownConfigMap rc labels refs)"
    by (simp add: EnsureRedisShutdownConfigMap_def assms)
  show ?thesis
    unfolding ensureObjects_def shutdown EnsureRedisService_def EnsureSentinelService_def EnsureSentinelHeadlessService_def
      EnsureRedisMonitorService_def EnsureSentinelConfigMap_def EnsureSentinelProbeConfigMap_def
    by (intro seq succeedsG_if succeedsG_skip memEnv_succeeds) (simp_all add: generated_keys)
qed

lemma fresh_budget:
  "succeedsG (lacking K rs ra) (ensurePodDisruptionBudget memEnv rc n0 c labels refs) (lacking K rs ra)"
  unfolding ensurePodDisruptionBudget_def Let_def
  by (intro memEnv_succeeds) (simp add: generatePodDisruptionBudget_def objectMeta_def)

lemma fresh_sentinel_workload:
  "succeedsG (lacking {(rs_namespace rc, GetSentinelName rc)} rs ra)
     (EnsureSentinelStatefulset memEnv rc labels refs) (lacking {} rs ra)"
  unfolding EnsureSentinelStatefulset_def
  using memEnv_creates_workload [of "rs_namespace rc" "GetSentinelName rc" "{(rs_namespace rc, GetSentinelName rc)}"
      "generateSentinelStatefulSet rc labels refs"]
  by (intro succeedsG_seqG [OF fresh_budget]) (simp add: metaKey_def)

lemma fresh_redis_workload:
  assumes "rs p = rc" and "(rs_namespace rc, sentinel_GetRedisName rc) \<in> K"
  shows "succeedsG (lacking K rs ra) (EnsureRedisStatefulset memEnv p labels refs)
     (lacking (K - {(rs_namespace rc, sentinel_GetRedisName rc)}) (rs(p := snd (generateRedisStatefulSet rc labels refs))) ra)"
  unfolding succeedsG_def
proof (intro allI impI)
  fix w assume w: "lacking K rs ra w"
  obtain w1 where w1: "ensurePodDisruptionBudget memEnv rc UtilRedisName RedisRoleName labels refs w = (Ok (), w1)" "lacking K rs ra w1"
    using fresh_budget w unfolding succeedsG_def by blast
  have rc: "w_rs w p = rc" using w assms(1) by (simp add: lacking_def)
  show "\<exists>w'. EnsureRedisStatefulset memEnv p labels refs w = (Ok (), w') \<and>
     lacking (K - {(rs_namespace rc, sentinel_GetRedisName rc)}) (rs(p := snd (generateRedisStatefulSet rc labels refs))) ra w'"
    using w1 assms(2)
    by (simp add: EnsureRedisStatefulset_def getRs_def setRs_def readG_def rc seqG_case split_def Let_def wrapper_defs
        tryG_def bindG_def extG_def memEnv_stores memKind_def metaKey_def lacking_def modifyG_def)
qed

lemma fresh_Ensure_runs: "fst (sentinel_Ensure memEnv 0 None [] freshWorld) = Ok ()"
proof -
  let ?rc = "sentinelNamed ''db'' ''x''"
  let ?rs = "\<lambda>_. ?rc" and ?ra = "\<lambda>_. zeroStandalone" and ?r = "(''db'', sentinel_GetRedisName ?rc)" and ?s = "(''db'', GetSentinelName ?rc)"
  have ns: "rs_namespace ?rc = ''db''" "rs_namespace (snd (generateRedisStatefulSet ?rc None [])) = ''db''"
     and sn: "GetSentinelName (snd (generateRedisStatefulSet ?rc None [])) = GetSentinelName ?rc"
    by (simp_all add: resource_name_defs)
  have ne: "?r \<noteq> ?s" and sc: "sn_ShutdownConfigMap (rs_spec ?rc) = []"
    by (simp_all add: sentinelNamed_def zeroSentinel_def zeroSentinelSpec_def resource_name_defs)
  have "lacking {?r, ?s} ?rs ?ra freshWorld" by (simp add: lacking_def freshWorld_def initWorld_def emptyMem_def)
  then obtain w1 where w1: "ensureObjects memEnv ?rc None [] freshWorld = (Ok (), w1)" "lacking {?r, ?s} ?rs ?ra w1"
    using fresh_objects [OF sc] unfolding succeedsG_def by blast
  obtain w2 where w2: "EnsureRedisStatefulset memEnv 0 None [] w1 = (Ok (), w2)"
    "lacking {?s} (?rs(0 := snd (generateRedisStatefulSet ?rc None []))) ?ra w2"
    using fresh_redis_workload [of ?rs 0 ?rc "{?r, ?s}" ?ra None "[]"] w1(2) ne unfolding succeedsG_def ns by auto
  have w20: "w_rs w2 0 = snd (generateRedisStatefulSet ?rc None [])" using w2(2) by (simp add: lacking_def)
  obtain w3 where w3: "EnsureSentinelStatefulset memEnv (w_rs w2 0) None [] w2 = (Ok (), w3)"
    using fresh_sentinel_workload [of "w_rs w2 0" _ ?ra None "[]"] w2(2) unfolding succeedsG_def w20 ns sn by blast
  have "w_rs freshWorld 0 = ?rc" by (simp add: freshWorld_def)
  then have "sentinel_Ensure memEnv 0 None [] freshWorld = (Ok (), w3)"
    using w1(1) w2(1) w3 unfolding sentinel_Ensure_def ensureObjects_def getRs_def readG_run by (auto simp: seqG_Ok_iff)
  then show ?thesis by simp
qed


end
