(* ===== verification/Sentinel_Liveness.thy ===== *)
theory Sentinel_Liveness
  imports Sentinel_Control
begin

text \<open>
  Progress of the healer: in a cluster whose API server and Redis servers answer, one run of
  \<open>CheckAndHeal\<close> restores a single master, whatever becomes of its later steps.
\<close>

subsection \<open>Answers\<close>

text \<open>
  \<open>responsive E sts hosts\<close>: the API server returns the workloads it stores and lists pods, and
  the Redis servers at \<open>hosts\<close> answer \<open>INFO\<close> and obey \<open>SLAVEOF\<close>.
\<close>

definition responsive ::
  "'e env \<Rightarrow> ('e \<Rightarrow> string \<times> string \<Rightarrow> StatefulSet option) \<Rightarrow> string set \<Rightarrow> bool" where
  "responsive E sts hosts \<longleftrightarrow>
     (\<forall>ns n x ss. sts x (ns, n) = Some ss \<longrightarrow> (\<exists>y. kc_Get (E_statefulSets E) ns n x = (Inr ss, y))) \<and>
     (\<forall>ns sel x. \<exists>ps y. kc_List (E_pods E) ns sel x = (Inr ps, y)) \<and>
     (\<forall>opt x. Addr opt \<in> redisAddr ` hosts \<longrightarrow> (\<exists>s y. E_stringCmd E opt [''info'', ''replication''] x = (Inr s, y))) \<and>
     (\<forall>opt x. Addr opt \<in> redisAddr ` hosts \<longrightarrow> (\<exists>s y. E_statusCmd E opt [''slaveof'', ''NO'', ''ONE''] x = (Inr s, y))) \<and>
     (\<forall>opt h x. Addr opt \<in> redisAddr ` hosts \<and> h \<in> hosts \<longrightarrow>
        (\<exists>s y. E_statusCmd E opt [''slaveof'', h, redisPort] x = (Inr s, y)))"

text \<open>\<open>answersG m\<close>: every run of \<open>m\<close> ends in a value.\<close>

definition answersG :: "('s, 'a) go \<Rightarrow> bool" where
  "answersG m \<longleftrightarrow> (\<forall>w. \<exists>a w'. m w = (Ok a, w'))"

lemma answersGD: "answersG m \<Longrightarrow> \<exists>a w'. m w = (Ok a, w')"
  by (simp add: answersG_def)

lemma answersG_bindG: "answersG m \<Longrightarrow> (\<And>a. answersG (k a)) \<Longrightarrow> answersG (bindG m k)"
  unfolding answersG_def by (metis bindG_run(1))

lemma answersG_leaf: "answersG (retG a)" "answersG (totalG g)"
  by (simp_all add: answersG_def totalG_def split: prod.split)

lemma answersG_seqG: "answersG m \<Longrightarrow> answersG n \<Longrightarrow> answersG (seqG m n)"
  unfolding seqG_def by (rule answersG_bindG)

lemma answersG_if: "answersG m \<Longrightarrow> answersG n \<Longrightarrow> answersG (if b then m else n)"
  by simp

lemma answersG_extG: "(\<And>x. \<exists>a y. f x = (Inr a, y)) \<Longrightarrow> answersG (extG f)"
  unfolding answersG_def extG_def by (metis (mono_tags, lifting) case_prod_conv sum.case(2))

lemmas answersG_rules = answersG_bindG answersG_leaf answersG_seqG answersG_if

lemma answersG_forG: "(\<And>x. x \<in> set xs \<Longrightarrow> answersG (f x)) \<Longrightarrow> answersG (forG f xs)"
  by (induction xs) (auto intro!: answersG_rules simp del: retG_run)

lemma answersG_foldG: "(\<And>x a. x \<in> set xs \<Longrightarrow> answersG (f x a)) \<Longrightarrow> answersG (foldG f xs a)"
  by (induction xs arbitrary: a) (auto intro!: answersG_rules simp del: retG_run)

lemma redis_answers:
  assumes "responsive E sts hosts" and "ip \<in> hosts"
  shows "answersG (IsMaster E ip auth)" "answersG (MakeMaster E ip auth)"
    "h \<in> hosts \<Longrightarrow> answersG (MakeSlaveOf E ip h auth)" "answersG (GetSlaveMasterIP E ip auth)"
proof -
  have addr: "Addr (setOptions ip redisPort auth) \<in> redisAddr ` hosts" using assms(2) by simp
  note r = assms(1) [unfolded responsive_def]
  have "answersG (extG (E_stringCmd E (setOptions ip redisPort auth) [''info'', ''replication'']))"
    "answersG (extG (E_statusCmd E (setOptions ip redisPort auth) [''slaveof'', ''NO'', ''ONE'']))"
    by (rule answersG_extG, use r addr in blast)+
  moreover have "h \<in> hosts \<Longrightarrow> answersG (extG (E_statusCmd E (setOptions ip redisPort auth) [''slaveof'', h, redisPort]))"
    by (rule answersG_extG) (use r addr in blast)
  ultimately show "answersG (IsMaster E ip auth)" "answersG (MakeMaster E ip auth)"
    "h \<in> hosts \<Longrightarrow> answersG (MakeSlaveOf E ip h auth)" "answersG (GetSlaveMasterIP E ip auth)"
    unfolding IsMaster_def MakeMaster_def MakeSlaveOf_def GetSlaveMasterIP_def by (intro answersG_rules; simp)+
qed

text \<open>\<open>settlesG m\<close>: every run of \<open>m\<close> ends in a value or an error.\<close>

definition settlesG :: "('s, 'a) go \<Rightarrow> bool" where
  "settlesG m \<longleftrightarrow> (\<forall>w. (\<exists>a. fst (m w) = Ok a) \<or> (\<exists>e. fst (m w) = Fail e))"

lemma settlesG_answers: "answersG m \<Longrightarrow> settlesG m"
  unfolding answersG_def settlesG_def by (metis fst_conv)

lemma settlesG_fail: "settlesG (failG e)"
  by (simp add: settlesG_def)

lemma settlesG_bindG:
  assumes "settlesG m" "\<And>a. settlesG (k a)"
  shows "settlesG (bindG m k)"
  unfolding settlesG_def
proof
  fix w
  obtain r t where m: "m w = (r, t)" by fastforce
  then have "(\<exists>a. r = Ok a) \<or> (\<exists>e. r = Fail e)" using assms(1) unfolding settlesG_def by (metis fst_conv)
  then show "(\<exists>a. fst (bindG m k w) = Ok a) \<or> (\<exists>e. fst (bindG m k w) = Fail e)"
    using m assms(2) [unfolded settlesG_def, THEN spec, of _ t] by (cases r) (simp_all add: bindG_run)
qed

lemma settlesG_if: "settlesG m \<Longrightarrow> settlesG n \<Longrightarrow> settlesG (if b then m else n)"
  by simp

lemma settlesG_forG: "(\<And>x. x \<in> set xs \<Longrightarrow> settlesG (f x)) \<Longrightarrow> settlesG (forG f xs)"
proof (induction xs)
  case (Cons x xs)
  then show ?case unfolding forG.simps seqG_def by (intro settlesG_bindG) simp_all
qed (simp add: settlesG_answers answersG_leaf)

subsection \<open>Steps of the healer that answer\<close>

lemma pods_answer:
  assumes "cluster_laws E sts podsOf role" and "responsive E sts hosts"
    and "sts (w_ext w) (ns, n) = Some ss" and "ss_selector ss \<noteq> None"
  shows "\<exists>w'. GetStatefulSetPods E ns n w = (Ok (clusterPods sts podsOf (w_ext w) ns n), w')"
proof -
  note r = assms(2) [unfolded responsive_def]
  obtain sel where sel: "ss_selector ss = Some sel" using assms(4) by blast
  obtain y where get: "kc_Get (E_statefulSets E) ns n (w_ext w) = (Inr ss, y)" using r assms(3) by blast
  obtain ps z where list: "kc_List (E_pods E) ns (Some (entries sel)) y = (Inr ps, z)" using r by blast
  have "GetStatefulSetPods E ns n w = (Ok ps, w\<lparr>w_ext := z\<rparr>)"
    using get list sel by (simp add: GetStatefulSetPods_def GetStatefulSet_def getObj_def bindG_run extG_def derefG_def)
  with GetStatefulSetPods_Ok(1) [OF assms(1) this] show ?thesis by blast
qed

lemma after_pods:
  assumes "cluster_laws E sts podsOf role" and "responsive E sts hosts"
    and "sts (w_ext w) (ns, n) = Some ss" and "ss_selector ss \<noteq> None"
  shows "answersG (k (clusterPods sts podsOf (w_ext w) ns n)) \<Longrightarrow> \<exists>a w'. bindG (GetStatefulSetPods E ns n) k w = (Ok a, w')"
    and "settlesG (k (clusterPods sts podsOf (w_ext w) ns n)) \<Longrightarrow>
       (\<exists>a w'. bindG (GetStatefulSetPods E ns n) k w = (Ok a, w')) \<or> (\<exists>e w'. bindG (GetStatefulSetPods E ns n) k w = (Fail e, w'))"
proof -
  obtain w1 where "GetStatefulSetPods E ns n w = (Ok (clusterPods sts podsOf (w_ext w) ns n), w1)"
    using pods_answer [OF assms] by blast
  then have run: "bindG (GetStatefulSetPods E ns n) k w = k (clusterPods sts podsOf (w_ext w) ns n) w1"
    by (simp add: bindG_run)
  show "answersG (k (clusterPods sts podsOf (w_ext w) ns n)) \<Longrightarrow> \<exists>a w'. bindG (GetStatefulSetPods E ns n) k w = (Ok a, w')"
    unfolding run answersG_def by blast
  show "settlesG (k (clusterPods sts podsOf (w_ext w) ns n)) \<Longrightarrow>
       (\<exists>a w'. bindG (GetStatefulSetPods E ns n) k w = (Ok a, w')) \<or> (\<exists>e w'. bindG (GetStatefulSetPods E ns n) k w = (Fail e, w'))"
    unfolding run settlesG_def by (metis prod.collapse)
qed

lemma runningIPs_set: "set (runningIPs pods) \<subseteq> pod_ip ` set pods"
  by (auto simp: runningIPs_def)

lemma healer_answers:
  assumes "cluster_laws E sts podsOf role" and "responsive E sts (pod_ip ` set pods)"
    and "sts (w_ext w) (rs_namespace rc, sentinel_GetRedisName rc) = Some ss" and "ss_selector ss \<noteq> None"
    and pods: "pods = clusterPods sts podsOf (w_ext w) (rs_namespace rc) (sentinel_GetRedisName rc)"
  shows "\<exists>a w'. GetRedisesIPs E rc auth w = (Ok a, w')" "\<exists>n w'. GetNumberMasters E rc auth w = (Ok n, w')"
    "\<exists>ms w'. bindG (GetRedisesIPs E rc auth) (\<lambda>rips. foldG (collectMaster E auth) rips []) w = (Ok ms, w')"
    "\<exists>t w'. GetMinimumRedisPodTime E rc w = (Ok t, w')"
    "master \<in> pod_ip ` set pods \<Longrightarrow> \<exists>w'. SetMasterOnAll E master rc auth w = (Ok (), w')"
    "(\<exists>a w'. CheckAllSlavesFromMaster E master rc auth w = (Ok a, w')) \<or>
     (\<exists>e w'. CheckAllSlavesFromMaster E master rc auth w = (Fail e, w'))"
proof -
  note go = after_pods [OF assms(1-4), folded pods] and ans = redis_answers [OF assms(2)]
  have ips: "x \<in> pod_ip ` set pods" if "x \<in> set (runningIPs pods)" for x using that runningIPs_set by blast
  show "\<exists>a w'. GetRedisesIPs E rc auth w = (Ok a, w')" unfolding GetRedisesIPs_def by (intro go answersG_rules)
  show "\<exists>n w'. GetNumberMasters E rc auth w = (Ok n, w')"
    unfolding GetNumberMasters_def GetRedisesIPs_def bindG_assoc bind_ret countMaster_def
    by (intro go answersG_rules answersG_foldG ans ips) simp
  show "\<exists>ms w'. bindG (GetRedisesIPs E rc auth) (\<lambda>rips. foldG (collectMaster E auth) rips []) w = (Ok ms, w')"
    unfolding GetRedisesIPs_def bindG_assoc bind_ret collectMaster_def
    by (intro go answersG_rules answersG_foldG ans ips) simp
  show "\<exists>t w'. GetMinimumRedisPodTime E rc w = (Ok t, w')"
    unfolding GetMinimumRedisPodTime_def podAge_def nowG_def
    by (intro go answersG_foldG) (auto intro!: answersG_rules simp: Let_def simp del: retG_run split: option.split)
  show "\<exists>w'. SetMasterOnAll E master rc auth w = (Ok (), w')" if "master \<in> pod_ip ` set pods"
    using go(1) [of "forG (attachStep E master auth)"] answersG_forG [of pods "attachStep E master auth"] ans that
    by (fastforce simp: SetMasterOnAll_def attachStep_def)
  have "settlesG (forG (\<lambda>rip. bindG (GetSlaveMasterIP E rip auth) (\<lambda>slave.
      if slave \<noteq> [] \<and> slave \<noteq> master
      then failG (ErrorString (''slave '' @ rip @ sh '' don~t have the master '' @ master @ '', has '' @ slave)) else skipG)) (runningIPs pods))"
    by (intro settlesG_bindG settlesG_answers answersG_leaf settlesG_if settlesG_fail ans ips settlesG_forG) simp_all
  then show "(\<exists>a w'. CheckAllSlavesFromMaster E master rc auth w = (Ok a, w')) \<or>
     (\<exists>e w'. CheckAllSlavesFromMaster E master rc auth w = (Fail e, w'))"
    unfolding CheckAllSlavesFromMaster_def GetRedisesIPs_def bindG_assoc bind_ret by (intro go(2))
qed

lemma election_answers:
  assumes "responsive E sts hosts"
  shows "set (map pod_ip pods) \<subseteq> hosts \<Longrightarrow> m = [] \<or> m \<in> hosts \<Longrightarrow> \<exists>r w'. foldG (electStep E auth) pods m w = (Ok r, w')"
proof (induction pods arbitrary: m w)
  case (Cons p pods)
  note ans = redis_answers [OF assms]
  have ip: "pod_ip p \<in> hosts" using Cons.prems(1) by simp
  have "\<exists>r w1. electStep E auth p m w = (Ok r, w1) \<and> (r = [] \<or> r \<in> hosts)"
  proof (cases "m = []")
    case True
    then show ?thesis
      using answersGD [OF ans(2) [OF ip], of auth w] ip by (auto simp: electStep_def seqG_run)
  next
    case False
    then show ?thesis
      using answersGD [OF ans(3) [OF ip, of m], of auth w] Cons.prems(2) by (auto simp: electStep_def seqG_run)
  qed
  then show ?case using Cons.IH Cons.prems(1) by (fastforce simp: bindG_run)
qed auto

lemma SetOldestAsMaster_answers:
  assumes laws: "cluster_laws E sts podsOf role" "go_sort (E_sortPods E)" "responsive E sts (pod_ip ` set pods)"
    and ss: "sts (w_ext w) (rs_namespace rc, sentinel_GetRedisName rc) = Some ss" "ss_selector ss \<noteq> None"
    and pods: "pods = clusterPods sts podsOf (w_ext w) (rs_namespace rc) (sentinel_GetRedisName rc)" "pods \<noteq> []"
  shows "\<exists>w'. SetOldestAsMaster E rc auth w = (Ok (), w')"
proof -
  obtain w1 where w1: "GetStatefulSetPods E (rs_namespace rc) (sentinel_GetRedisName rc) w = (Ok pods, w1)"
    using pods_answer [OF laws(1,3) ss] pods(1) by blast
  have "mset (E_sortPods E olderPod pods) = mset pods"
    using go_sortD [OF laws(2), of olderPod "\<lambda>p. om_creationTimestamp (pod_meta p)" pods] by (simp add: olderPod_def)
  then have "set (map pod_ip (E_sortPods E olderPod pods)) \<subseteq> pod_ip ` set pods" by (metis list.set_map mset_eq_setD order_refl)
  then obtain r w2 where "foldG (electStep E auth) (E_sortPods E olderPod pods) [] w1 = (Ok r, w2)"
    using election_answers [OF laws(3)] by blast
  then show ?thesis using w1 pods(2) by (auto simp: SetOldestAsMaster_def bindG_run)
qed

subsection \<open>One master is restored\<close>

text \<open>
  The state of a cluster that \<open>healMasters\<close> starts from: the workload is stored, all its pods
  run, at distinct proper addresses, and everything answers.
\<close>

definition healable ::
  "'e env \<Rightarrow> ('e \<Rightarrow> string \<times> string \<Rightarrow> StatefulSet option)
     \<Rightarrow> ('e \<Rightarrow> string \<Rightarrow> (string, string) fmap option \<Rightarrow> Pod list) \<Rightarrow> ('e \<Rightarrow> string \<Rightarrow> string)
     \<Rightarrow> RedisSentinel \<Rightarrow> Pod list \<Rightarrow> 'e \<Rightarrow> bool" where
  "healable E sts podsOf role rc pods x \<longleftrightarrow> cluster_laws E sts podsOf role \<and> go_sort (E_sortPods E)
     \<and> quiet_view E sts \<and> quiet_view E podsOf \<and> quiet_view E role \<and> responsive E sts (pod_ip ` set pods)
     \<and> (\<exists>ss. sts x (rs_namespace rc, sentinel_GetRedisName rc) = Some ss \<and> ss_selector ss \<noteq> None)
     \<and> pods = clusterPods sts podsOf x (rs_namespace rc) (sentinel_GetRedisName rc) \<and> pods \<noteq> []
     \<and> distinct (map pod_ip pods) \<and> (\<forall>p \<in> set pods. pod_phase p = podRunning \<and> pod_ip p \<noteq> [] \<and> pod_ip p \<noteq> ''NO'')"

lemma healable_cong:
  assumes "healable E sts podsOf role rc pods x" and "sts y = sts x" "podsOf y = podsOf x"
  shows "healable E sts podsOf role rc pods y"
proof -
  have pods: "clusterPods sts podsOf y = clusterPods sts podsOf x" using assms(2,3) by (rule clusterPods_cong)
  show ?thesis using assms(1) unfolding healable_def assms(2,3) pods .
qed

lemma healable_running: "healable E sts podsOf role rc pods x \<Longrightarrow> runningIPs pods = map pod_ip pods"
  by (auto simp: healable_def runningIPs_def intro!: arg_cong [of _ _ "map pod_ip"] filter_True)

lemma healableD:
  assumes "healable E sts podsOf role rc pods x"
  shows "cluster_laws E sts podsOf role" "go_sort (E_sortPods E)" "quiet_view E sts" "quiet_view E podsOf" "quiet_view E role"
    "responsive E sts (pod_ip ` set pods)"
    "pods = clusterPods sts podsOf x (rs_namespace rc) (sentinel_GetRedisName rc)" "pods \<noteq> []" "distinct (map pod_ip pods)"
    "\<forall>p \<in> set pods. pod_ip p \<noteq> [] \<and> pod_ip p \<noteq> ''NO''"
  using assms unfolding healable_def by blast+

lemma healable_step:
  assumes "healable E sts podsOf role rc pods (w_ext w)" and "m w = (r, w')"
    and "\<And>v :: 'e \<Rightarrow> string \<times> string \<Rightarrow> StatefulSet option. quiet_view E v \<Longrightarrow> keepsView v m"
    and "\<And>v :: 'e \<Rightarrow> string \<Rightarrow> (string, string) fmap option \<Rightarrow> Pod list. quiet_view E v \<Longrightarrow> keepsView v m"
  shows "healable E sts podsOf role rc pods (w_ext w')"
  using keeps_sameD [OF assms(3) [OF healableD(3) [OF assms(1)]] assms(2)]
    keeps_sameD [OF assms(4) [OF healableD(4) [OF assms(1)]] assms(2)]
  by (rule healable_cong [OF assms(1)])

lemma healable_healer:
  assumes h: "healable E sts podsOf role rc pods (w_ext w)"
  shows "\<exists>a w'. GetRedisesIPs E rc auth w = (Ok a, w')" "\<exists>n w'. GetNumberMasters E rc auth w = (Ok n, w')"
    "\<exists>ms w'. bindG (GetRedisesIPs E rc auth) (\<lambda>rips. foldG (collectMaster E auth) rips []) w = (Ok ms, w')"
    "\<exists>t w'. GetMinimumRedisPodTime E rc w = (Ok t, w')"
    "master \<in> pod_ip ` set pods \<Longrightarrow> \<exists>w'. SetMasterOnAll E master rc auth w = (Ok (), w')"
    "(\<exists>a w'. CheckAllSlavesFromMaster E master rc auth w = (Ok a, w')) \<or>
     (\<exists>e w'. CheckAllSlavesFromMaster E master rc auth w = (Fail e, w'))"
    "\<exists>w'. SetOldestAsMaster E rc auth w = (Ok (), w')"
proof -
  note d = healableD [OF h]
  obtain ss where ss: "sts (w_ext w) (rs_namespace rc, sentinel_GetRedisName rc) = Some ss" "ss_selector ss \<noteq> None"
    using h unfolding healable_def by blast
  note ans = healer_answers [OF d(1,6) ss d(7)] SetOldestAsMaster_answers [OF d(1,2,6) ss d(7,8)]
  show "\<exists>a w'. GetRedisesIPs E rc auth w = (Ok a, w')" "\<exists>n w'. GetNumberMasters E rc auth w = (Ok n, w')"
    "\<exists>ms w'. bindG (GetRedisesIPs E rc auth) (\<lambda>rips. foldG (collectMaster E auth) rips []) w = (Ok ms, w')"
    "\<exists>t w'. GetMinimumRedisPodTime E rc w = (Ok t, w')"
    "master \<in> pod_ip ` set pods \<Longrightarrow> \<exists>w'. SetMasterOnAll E master rc auth w = (Ok (), w')"
    "(\<exists>a w'. CheckAllSlavesFromMaster E master rc auth w = (Ok a, w')) \<or>
     (\<exists>e w'. CheckAllSlavesFromMaster E master rc auth w = (Fail e, w'))"
    "\<exists>w'. SetOldestAsMaster E rc auth w = (Ok (), w')"
    by (fact ans)+
qed

lemma healable_answers:
  assumes h: "healable E sts podsOf role rc pods (w_ext w)"
  shows "\<exists>w'. GetRedisesIPs E rc auth w = (Ok (map pod_ip pods), w') \<and> healable E sts podsOf role rc pods (w_ext w')
       \<and> role (w_ext w') = role (w_ext w)" (is ?ips)
    and "\<exists>w'. GetNumberMasters E rc auth w = (Ok (int (length (masterIPs role (w_ext w) pods))), w')
       \<and> healable E sts podsOf role rc pods (w_ext w') \<and> role (w_ext w') = role (w_ext w)" (is ?count)
    and "\<exists>t w'. GetMinimumRedisPodTime E rc w = (Ok t, w') \<and> healable E sts podsOf role rc pods (w_ext w')" (is ?time)
proof -
  note d = healableD [OF h]
  note ans = healable_healer [OF h]
  obtain a w1 where w1: "GetRedisesIPs E rc auth w = (Ok a, w1)" using ans(1) by blast
  show ?ips
    using w1 GetRedisesIPs_Ok [OF d(1) w1] d(7) healable_running [OF h] healable_step [OF h w1 quiet_checker(11) quiet_checker(11)]
    by simp
  obtain n w2 where w2: "GetNumberMasters E rc auth w = (Ok n, w2)" using ans(2) by blast
  show ?count
    using w2 GetNumberMasters_Ok [OF d(1) w2] d(7) healable_step [OF h w2 quiet_checker(10) quiet_checker(10)] by simp
  obtain t w3 where w3: "GetMinimumRedisPodTime E rc w = (Ok t, w3)" using ans(4) by blast
  show ?time using w3 healable_step [OF h w3 quiet_checker(13) quiet_checker(13)] by blast
qed

lemma filter_eq_distinct: "distinct xs \<Longrightarrow> x \<in> set xs \<Longrightarrow> filter (\<lambda>y. y = x) xs = [x]"
  by (induction xs) (auto simp: filter_empty_conv)

lemma fixMasters_progress:
  assumes h: "healable E sts podsOf role rc pods (w_ext w)" and none: "masterIPs role (w_ext w) pods = []"
  shows "\<exists>w' m. fixMasters E rc auth 0 w = (Ok (), w') \<and> healable E sts podsOf role rc pods (w_ext w')
     \<and> masterIPs role (w_ext w') pods = [m]"
proof -
  note d = healableD [OF h]
  let ?w = "w\<lparr>w_events := w_events w @ [\<lparr>e_object = (rs_namespace rc, rs_name rc), e_type = ''Normal'',
    e_reason = ClusterConditionUpdating, e_message = ''set master''\<rparr>]\<rparr>"
  have h0: "healable E sts podsOf role rc pods (w_ext ?w)" using h by simp
  obtain w1 where w1: "GetRedisesIPs E rc auth ?w = (Ok (map pod_ip pods), w1)" "healable E sts podsOf role rc pods (w_ext w1)"
    using healable_answers(1) [OF h0] by blast
  note d1 = healableD [OF w1(2)]
  have "\<exists>w' m. (if length (map pod_ip pods) = 1
             then bindG (indexG (map pod_ip pods) 0) (\<lambda>ip. healer_MakeMaster E ip auth)
             else bindG (GetMinimumRedisPodTime E rc) (\<lambda>_. SetOldestAsMaster E rc auth)) w1 = (Ok (), w')
       \<and> masterIPs role (w_ext w') pods = [m]"
  proof (cases "length (map pod_ip pods) = 1")
    case True
    then obtain p where p: "pods = [p]" by (auto simp: length_Suc_conv)
    obtain w2 where w2: "MakeMaster E (pod_ip p) auth w1 = (Ok (), w2)"
      using answersGD [OF redis_answers(2) [OF d(6), of "pod_ip p"]] p by auto
    have "masterIPs role (w_ext w2) pods = [pod_ip p]"
      using MakeMaster_Ok [OF cluster_redis [OF d(1)] w2] healable_running [OF h] p by (simp add: masterIPs_def)
    with w2 p show ?thesis by (auto simp: bindG_run indexG_def healer_MakeMaster_def)
  next
    case False
    obtain t w2 where w2: "GetMinimumRedisPodTime E rc w1 = (Ok t, w2)" "healable E sts podsOf role rc pods (w_ext w2)"
      using healable_answers(3) [OF w1(2)] by blast
    note d2 = healableD [OF w2(2)]
    obtain w3 where w3: "SetOldestAsMaster E rc auth w2 = (Ok (), w3)" using healable_healer(7) [OF w2(2)] by blast
    obtain m where m: "m \<in> set pods" "role (w_ext w3) (redisAddr (pod_ip m)) = []"
      "\<forall>p \<in> set pods. p \<noteq> m \<longrightarrow> role (w_ext w3) (redisAddr (pod_ip p)) = pod_ip m"
      using SetOldestAsMaster_Ok [OF d2(1,2,7,9,10) w3] by blast
    have iff: "role (w_ext w3) (redisAddr ip) = [] \<longleftrightarrow> ip = pod_ip m" if "ip \<in> set (map pod_ip pods)" for ip
      using that m d(10) by force
    have "filter (\<lambda>ip. role (w_ext w3) (redisAddr ip) = []) (map pod_ip pods) = filter (\<lambda>ip. ip = pod_ip m) (map pod_ip pods)"
      by (rule filter_cong) (use iff in auto)
    also have "\<dots> = [pod_ip m]" using d(9) m(1) by (simp add: filter_eq_distinct)
    finally have "masterIPs role (w_ext w3) pods = [pod_ip m]" using healable_running [OF h] by (simp add: masterIPs_def)
    with False w2(1) w3 show ?thesis by (auto simp: bindG_run)
  qed
  then obtain w' m where run: "fixMasters E rc auth 0 w = (Ok (), w')" "masterIPs role (w_ext w') pods = [m]"
    using w1(1) by (auto simp: fixMasters_def seqG_run bindG_run EventUpdateStatus_def recordEvent_def)
  from fixMasters_pods [OF d(1,3,4) run(1)] have "healable E sts podsOf role rc pods (w_ext w')"
    using healable_cong [OF h] by blast
  with run show ?thesis by blast
qed

lemma GetMasterIP_progress:
  assumes h: "healable E sts podsOf role rc pods (w_ext w)" and one: "masterIPs role (w_ext w) pods = [m]"
  shows "\<exists>w'. GetMasterIP E rc auth w = (Ok m, w')"
proof -
  note d = healableD [OF h]
  obtain ms w1 where "bindG (GetRedisesIPs E rc auth) (\<lambda>rips. foldG (collectMaster E auth) rips []) w = (Ok ms, w1)"
    using healable_healer(3) [OF h] by blast
  then obtain ips w2 where w2: "GetRedisesIPs E rc auth w = (Ok ips, w2)" "foldG (collectMaster E auth) ips [] w2 = (Ok ms, w1)"
    by (auto simp: bindG_Ok_iff)
  have "ms = [m]"
    using collectMaster_fold [OF cluster_redis [OF d(1)] w2(2)] GetRedisesIPs_Ok [OF d(1) w2(1)] one d(7)
    by (simp add: masterIPs_def)
  with w2 show ?thesis by (simp add: GetMasterIP_def bindG_run indexG_def)
qed

lemma attach_progress:
  assumes h: "healable E sts podsOf role rc pods (w_ext w)" and m: "m \<in> pod_ip ` set pods"
  shows "\<exists>w'. tryG (CheckAllSlavesFromMaster E m rc auth) (\<lambda>_. SetMasterOnAll E m rc auth) (\<lambda>_. skipG) w = (Ok (), w')"
  using healable_healer(6) [OF h, of m auth]
proof
  assume "\<exists>e w'. CheckAllSlavesFromMaster E m rc auth w = (Fail e, w')"
  then obtain e w1 where w1: "CheckAllSlavesFromMaster E m rc auth w = (Fail e, w1)" by blast
  from healable_healer(5) [OF healable_step [OF h w1 quiet_checker(5) quiet_checker(5)] m, of auth] w1
  show ?thesis by (auto simp: tryG_run)
qed (auto simp: tryG_run)

lemma healMasters_progress:
  assumes h: "healable E sts podsOf role rc pods (w_ext w)" and few: "length (masterIPs role (w_ext w) pods) \<le> 1"
  shows "\<exists>m w'. healMasters E rc auth w = (Ok m, w')"
proof -
  let ?n = "int (length (masterIPs role (w_ext w) pods))"
  obtain w1 where w1: "GetNumberMasters E rc auth w = (Ok ?n, w1)" "healable E sts podsOf role rc pods (w_ext w1)"
    "role (w_ext w1) = role (w_ext w)" using healable_answers(2) [OF h] by blast
  have masters1: "masterIPs role (w_ext w1) pods = masterIPs role (w_ext w) pods" by (simp add: masterIPs_def w1(3))
  obtain w2 m where w2: "fixMasters E rc auth ?n w1 = (Ok (), w2)" "healable E sts podsOf role rc pods (w_ext w2)"
    "masterIPs role (w_ext w2) pods = [m]"
  proof (cases "masterIPs role (w_ext w) pods = []")
    case True
    then show ?thesis using fixMasters_progress [OF w1(2)] masters1 that by auto
  next
    case False
    then obtain m where "masterIPs role (w_ext w) pods = [m]" using few by (cases "masterIPs role (w_ext w) pods") auto
    then show ?thesis using that [of w1 m] w1(2) masters1 by (simp add: fixMasters_def)
  qed
  obtain w3 where w3: "GetMasterIP E rc auth w2 = (Ok m, w3)" using GetMasterIP_progress [OF w2(2,3)] by blast
  have "m \<in> set (masterIPs role (w_ext w2) pods)" by (simp add: w2(3))
  then have "m \<in> pod_ip ` set pods" using healable_running [OF h] by (simp add: masterIPs_def)
  from attach_progress [OF healable_step [OF w2(2) w3 quiet_checker(9) quiet_checker(9)] this, of auth]
  show ?thesis using w1(1) w2(1) w3 by (auto simp: healMasters_def bindG_run seqG_run)
qed

definition numbersMatch ::
  "('e \<Rightarrow> string \<times> string \<Rightarrow> StatefulSet option) \<Rightarrow> RedisSentinel \<Rightarrow> 'e \<Rightarrow> bool" where
  "numbersMatch sts rc x \<longleftrightarrow>
     (\<exists>ss. sts x (rs_namespace rc, sentinel_GetRedisName rc) = Some ss \<and> ss_replicas ss = Some (sn_Size (rs_spec rc))
        \<and> ss_readyReplicas ss = sn_Size (rs_spec rc)) \<and>
     (\<exists>ds. sts x (rs_namespace rc, GetSentinelName rc) = Some ds \<and> ss_replicas ds = Some (se_Replicas (rs_sentinel rc)))"

lemma number_checks_pass:
  assumes "responsive E sts hosts" and "numbersMatch sts rc (w_ext w)"
  shows "\<exists>w'. CheckRedisNumber E rc w = (Ok (), w')" "\<exists>w'. CheckSentinelNumber E rc w = (Ok (), w')"
proof -
  obtain ss where ss: "sts (w_ext w) (rs_namespace rc, sentinel_GetRedisName rc) = Some ss"
    "ss_replicas ss = Some (sn_Size (rs_spec rc))" "ss_readyReplicas ss = sn_Size (rs_spec rc)"
    using assms(2) unfolding numbersMatch_def by blast
  obtain ds where ds: "sts (w_ext w) (rs_namespace rc, GetSentinelName rc) = Some ds"
    "ss_replicas ds = Some (se_Replicas (rs_sentinel rc))"
    using assms(2) unfolding numbersMatch_def by blast
  have get: "\<exists>y. kc_Get (E_statefulSets E) ns n x = (Inr s, y)" if "sts x (ns, n) = Some s" for ns n x s
    using assms(1) that unfolding responsive_def by blast
  obtain y where y: "kc_Get (E_statefulSets E) (rs_namespace rc) (sentinel_GetRedisName rc) (w_ext w) = (Inr ss, y)"
    using get [OF ss(1)] by blast
  obtain z where z: "kc_Get (E_statefulSets E) (rs_namespace rc) (GetSentinelName rc) (w_ext w) = (Inr ds, z)"
    using get [OF ds(1)] by blast
  show "\<exists>w'. CheckRedisNumber E rc w = (Ok (), w')"
    using y ss by (simp add: CheckRedisNumber_def GetStatefulSet_def getObj_def bindG_run extG_def derefG_def)
  show "\<exists>w'. CheckSentinelNumber E rc w = (Ok (), w')"
    using z ds by (simp add: CheckSentinelNumber_def GetStatefulSet_def getObj_def bindG_run extG_def derefG_def)
qed

lemma CheckAndHeal_reaches_healing:
  assumes h: "healable E sts podsOf role rc pods (w_ext w)" and num: "numbersMatch sts rc (w_ext w)"
    and rc: "w_rs w (m_Obj (w_metas w m)) = rc"
  obtains w0 where "healable E sts podsOf role rc pods (w_ext w0)" "role (w_ext w0) = role (w_ext w)"
    "sentinel_CheckAndHeal E m w = bindG (healMasters E rc (m_Auth (w_metas w m)))
       (healSentinels E (m_State (w_metas w m)) rc (m_Auth (w_metas w m))) w0"
proof -
  note d = healableD [OF h]
  obtain w1 where w1: "CheckRedisNumber E rc w = (Ok (), w1)" using number_checks_pass(1) [OF d(6) num] by blast
  note h1 = healable_step [OF h w1 quiet_checker(2) quiet_checker(2)]
  have "numbersMatch sts rc (w_ext w1)"
    using num keeps_sameD [OF quiet_checker(2) [OF d(3)] w1] by (simp add: numbersMatch_def)
  then obtain w2 where w2: "CheckSentinelNumber E rc w1 = (Ok (), w2)" using number_checks_pass(2) [OF d(6)] by blast
  have "role (w_ext w2) = role (w_ext w)"
    using keeps_sameD [OF quiet_checker(2) [OF d(5)] w1] keeps_sameD [OF quiet_checker(3) [OF d(5)] w2] by simp
  moreover have "sentinel_CheckAndHeal E m w = bindG (healMasters E rc (m_Auth (w_metas w m)))
       (healSentinels E (m_State (w_metas w m)) rc (m_Auth (w_metas w m))) w2"
    using w1 w2 rc by (simp add: CheckAndHeal_split getMeta_def getRs_def tryG_run)
  ultimately show thesis using that healable_step [OF h1 w2 quiet_checker(3) quiet_checker(3)] by blast
qed

text \<open>
  C4. A cluster that answers is healed. When the two workloads have the requested numbers of
  replicas, all Redis pods run and are ready, and the API server and the Redis servers answer,
  a single run of \<open>CheckAndHeal\<close> leaves exactly one master that all other pods replicate, from
  any state with at most one master, whatever then becomes of the configuration and the
  sentinels. From a state with several masters it reports that a person must decide and
  changes no role.
\<close>

theorem CheckAndHeal_restores_master:
  assumes "healable E sts podsOf role rc pods (w_ext w)" and "numbersMatch sts rc (w_ext w)"
    and "w_rs w (m_Obj (w_metas w m)) = rc" and "sentinel_CheckAndHeal E m w = (r, w')"
  shows "if length (masterIPs role (w_ext w) pods) \<le> 1 then \<exists>master. oneMaster role (w_ext w') pods master
     else r = Fail (ErrorString ''more than one master, fix manually'') \<and> role (w_ext w') = role (w_ext w)"
proof -
  note d = healableD [OF assms(1)]
  let ?auth = "m_Auth (w_metas w m)"
  obtain w0 where w0: "healable E sts podsOf role rc pods (w_ext w0)" "role (w_ext w0) = role (w_ext w)"
    "bindG (healMasters E rc ?auth) (healSentinels E (m_State (w_metas w m)) rc ?auth) w0 = (r, w')"
    using CheckAndHeal_reaches_healing [OF assms(1-3)] assms(4) by metis
  note d0 = healableD [OF w0(1)]
  have masters: "masterIPs role (w_ext w0) pods = masterIPs role (w_ext w) pods" by (simp add: masterIPs_def w0(2))
  show ?thesis
  proof (cases "length (masterIPs role (w_ext w) pods) \<le> 1")
    case True
    then obtain mm w1 where w1: "healMasters E rc ?auth w0 = (Ok mm, w1)"
      using healMasters_progress [OF w0(1)] masters by metis
    have "oneMaster role (w_ext w1) pods mm"
      using healMasters_one_master [OF d(1,3,4,5) d0(7) _ w1] d(10) by blast
    moreover have "role (w_ext w') = role (w_ext w1)"
      using keeps_sameD [OF healSentinels_quiet [OF d(5)]] w0(3) w1 by (simp add: bindG_run)
    ultimately show ?thesis using True by (auto simp: oneMaster_def)
  next
    case False
    obtain w1 where w1: "GetNumberMasters E rc ?auth w0 = (Ok (int (length (masterIPs role (w_ext w0) pods))), w1)"
      "role (w_ext w1) = role (w_ext w0)"
      using healable_answers(2) [OF w0(1)] by blast
    have "fixMasters E rc ?auth (int (length (masterIPs role (w_ext w0) pods))) =
        failG (ErrorString ''more than one master, fix manually'')"
      using False masters by (auto simp: fixMasters_def)
    then have "healMasters E rc ?auth w0 = (Fail (ErrorString ''more than one master, fix manually''), w1)"
      using w1(1) by (simp add: healMasters_def bindG_run seqG_run)
    then show ?thesis using False w0(2,3) w1(2) by (simp add: bindG_run)
  qed
qed

text \<open>A cluster without a master: each of the two pods replicates the other.\<close>

definition orphanMem :: memApi where
  "orphanMem = healedMem\<lparr>ma_masters := [(redisAddr ''10.0.0.1'', ''10.0.0.2''), (redisAddr ''10.0.0.2'', ''10.0.0.1'')]\<rparr>"

definition orphanWorld :: "memApi world" where
  "orphanWorld = (initWorld orphanMem)\<lparr>w_rs := \<lambda>_. sentinelNamed ''db'' ''x''\<rparr>"

lemma memEnv_responsive:
  assumes "\<forall>h \<in> hosts. goodHost h"
  shows "responsive memEnv ma_statefulSets hosts"
proof -
  have "\<exists>s y. memStatusCmd opt [''slaveof'', h, redisPort] x = (Inr s, y)" if "h \<in> hosts" for opt h x
    using assms that by (simp add: memStatusCmd_def)
  then show ?thesis
    by (auto simp: responsive_def memEnv_kinds memEnv_cmds memKind_def memPods_def memStatusCmd_def)
qed

lemma orphan_healable:
  "healable memEnv ma_statefulSets memPodsOf memRole (sentinelNamed ''db'' ''x'')
     [samplePod ''10.0.0.1'' 5, samplePod ''10.0.0.2'' 3] orphanMem"
  "numbersMatch ma_statefulSets (sentinelNamed ''db'' ''x'') orphanMem"
  "masterIPs memRole orphanMem [samplePod ''10.0.0.1'' 5, samplePod ''10.0.0.2'' 3] = []"
proof -
  let ?pods = "[samplePod ''10.0.0.1'' 5, samplePod ''10.0.0.2'' 3]"
  have ips: "pod_ip (samplePod ip t) = ip" "pod_phase (samplePod ip t) = podRunning" for ip t
    by (simp_all add: samplePod_def podRunning_def)
  have pods: "?pods = clusterPods ma_statefulSets memPodsOf orphanMem (rs_namespace (sentinelNamed ''db'' ''x''))
      (sentinel_GetRedisName (sentinelNamed ''db'' ''x''))"
    by (simp add: sentinelNamed_x clusterPods_def orphanMem_def healedMem_def memPodsOf_def sampleCluster_def samplePod_def)
  have stored: "ma_statefulSets orphanMem (''db'', ''redis-worker-x'') =
      Some (fst (generateRedisStatefulSet (sentinelNamed ''db'' ''x'') None []))"
    "ma_statefulSets orphanMem (''db'', ''redis-sentinel-x'') =
      Some (generateSentinelStatefulSet (sentinelNamed ''db'' ''x'') None [])"
    by (simp_all add: orphanMem_def healedMem_def)
  have sel: "\<exists>ss. ma_statefulSets orphanMem (rs_namespace (sentinelNamed ''db'' ''x''),
      sentinel_GetRedisName (sentinelNamed ''db'' ''x'')) = Some ss \<and> ss_selector ss \<noteq> None"
    using stored by (simp add: sentinelNamed_x)
  have resp: "responsive memEnv ma_statefulSets (pod_ip ` set ?pods)"
    by (rule memEnv_responsive) (use sample_hosts in \<open>simp add: ips\<close>)
  show "healable memEnv ma_statefulSets memPodsOf memRole (sentinelNamed ''db'' ''x'') ?pods orphanMem"
    unfolding healable_def
    by (intro conjI memEnv_cluster memEnv_quiet resp sel pods) (simp_all add: memEnv_kinds go_sort_insertionSort ips)
  show "numbersMatch ma_statefulSets (sentinelNamed ''db'' ''x'') orphanMem"
    by (simp add: numbersMatch_def sentinelNamed_x healed_reads stored)
       (simp add: generateRedisStatefulSet_def Let_def sentinelNamed_def zeroSentinel_def zeroSentinelSpec_def)
  show "masterIPs memRole orphanMem ?pods = []"
    using sample_hosts by (simp add: masterIPs_def runningIPs_def ips memRole_def orphanMem_def JoinHostPort_def)
qed

theorem CheckAndHeal_restores_master_witness:
  "\<exists>r w' master. sentinel_CheckAndHeal memEnv 0 orphanWorld = (r, w')
     \<and> oneMaster memRole (w_ext w') [samplePod ''10.0.0.1'' 5, samplePod ''10.0.0.2'' 3] master"
proof -
  obtain r w' where run: "sentinel_CheckAndHeal memEnv 0 orphanWorld = (r, w')" by fastforce
  have w: "w_ext orphanWorld = orphanMem" "w_rs orphanWorld q = sentinelNamed ''db'' ''x''" for q
    by (simp_all add: orphanWorld_def initWorld_def)
  from CheckAndHeal_restores_master [OF _ _ w(2) run] orphan_healable run show ?thesis unfolding w by fastforce
qed


end
