(* ===== verification/Sentinel_Monitor.thy ===== *)
theory Sentinel_Monitor
  imports Sentinel_Liveness
begin

text \<open>
  What the second half of \<open>CheckAndHeal\<close> does to the sentinels: after a successful run every
  running sentinel monitors the one master of the cluster. The address a sentinel monitors is
  the view \<open>mon\<close> of the external state, and \<open>sentinel_laws\<close> states the documented behaviour of
  the commands that read and change it.
\<close>

subsection \<open>Hypotheses on Sentinel\<close>

text \<open>
  \<open>SENTINEL MASTER\<close> replies with alternating names and values, the second of which is the
  address monitored; \<open>SENTINEL MONITOR\<close> makes the sentinel monitor the given address; it and
  \<open>SENTINEL REMOVE\<close> change no other sentinel; and nothing else changes what is monitored. As
  elsewhere, this excludes that something else (here a failover) acts at the same time.
\<close>

abbreviation sentinelAddr :: "string \<Rightarrow> string" where
  "sentinelAddr ip \<equiv> JoinHostPort ip sentinelPort"

definition sentinel_laws :: "'e env \<Rightarrow> ('e \<Rightarrow> string \<Rightarrow> string) \<Rightarrow> bool" where
  "sentinel_laws E mon \<longleftrightarrow> calm_view E mon \<and>
     (\<forall>opt x res y h. E_sliceCmd E opt [''SENTINEL'', ''master'', masterName] x = (Inr res, y) \<and> 3 < length res
        \<and> res ! 3 = RString h \<longrightarrow> mon x (Addr opt) = h) \<and>
     (\<forall>opt h q x b y. E_boolCmd E opt [''SENTINEL'', ''MONITOR'', masterName, h, redisPort, q] x = (Inr b, y)
        \<longrightarrow> mon y (Addr opt) = h) \<and>
     (\<forall>opt args x a. a \<noteq> Addr opt \<longrightarrow> mon (snd (E_boolCmd E opt args x)) a = mon x a)"

lemma sentinel_lawsD:
  assumes "sentinel_laws E mon"
  shows "calm_view E mon"
    and "E_sliceCmd E opt [''SENTINEL'', ''master'', masterName] x = (Inr res, y) \<Longrightarrow> 3 < length res \<Longrightarrow>
       res ! 3 = RString h \<Longrightarrow> mon x (Addr opt) = h"
    and "E_boolCmd E opt [''SENTINEL'', ''MONITOR'', masterName, h, redisPort, q] x = (Inr b, y) \<Longrightarrow> mon y (Addr opt) = h"
    and "E_boolCmd E opt args x = (r, y) \<Longrightarrow> a \<noteq> Addr opt \<Longrightarrow> mon y a = mon x a"
proof -
  show "mon y a = mon x a" if "E_boolCmd E opt args x = (r, y)" "a \<noteq> Addr opt"
    using assms that unfolding sentinel_laws_def by (metis snd_conv)
qed (use assms in \<open>unfold sentinel_laws_def, blast+\<close>)

subsection \<open>One sentinel\<close>

lemma asString_Ok_iff: "asString v s = (Ok a, t) \<longleftrightarrow> v = RString a \<and> t = s"
  by (auto simp: asString_def split: RedisValue.splits)

lemma CheckSentinelMonitor_Ok:
  assumes laws: "sentinel_laws E mon" and run: "CheckSentinelMonitor E ip m auth w = (Ok u, w')"
  shows "mon (w_ext w) (sentinelAddr ip) = m" "mon (w_ext w') = mon (w_ext w)"
proof -
  obtain res x where "E_sliceCmd E (setOptions ip sentinelPort auth) [''SENTINEL'', ''master'', masterName] (w_ext w) = (Inr res, x)"
    "3 < length res" "res ! 3 = RString m"
    using run
    by (auto simp: CheckSentinelMonitor_def GetSentinelMonitor_def asString_Ok_iff bindG_Ok_iff extG_Ok_iff split: if_splits)
  from sentinel_lawsD(2) [OF laws this] show "mon (w_ext w) (sentinelAddr ip) = m" by (simp add: setOptions_def)
  show "mon (w_ext w') = mon (w_ext w)" by (rule keeps_sameD [OF calm_checker(8) [OF sentinel_lawsD(1) [OF laws]] run])
qed

lemma NewSentinelMonitor_Ok:
  assumes laws: "sentinel_laws E mon" and run: "NewSentinelMonitor E ip m rc auth w = (Ok u, w')"
  shows "mon (w_ext w') = (mon (w_ext w))(sentinelAddr ip := m)"
proof -
  let ?opt = "setOptions ip sentinelPort auth" and ?q = "FormatInt (sint (getQuorum rc))"
  define sets where "sets = seqG (if Password auth \<noteq> [] then sentinelSet E ?opt ''SET'' ''auth-pass'' (Password auth) else skipG)
     (seqG (sentinelSet E ?opt ''SET'' ''down-after-milliseconds'' defaultDownAfterMilliseconds)
     (seqG (sentinelSet E ?opt ''SET'' ''failover-timeout'' defaultFailovertimeout)
           (sentinelSet E ?opt ''SET'' ''parallel-syncs'' defaultParallelSyncs)))"
  have "seqG (tryG (extG (E_boolCmd E ?opt [''SENTINEL'', ''REMOVE'', masterName])) (\<lambda>_. skipG) (\<lambda>_. skipG))
      (seqG (extG (E_boolCmd E ?opt [''SENTINEL'', ''MONITOR'', masterName, m, redisPort, ?q])) sets) w = (Ok u, w')"
    using run unfolding NewSentinelMonitor_def MonitorRedis_def Let_def sets_def .
  then obtain a w1 b w2 where r: "tryG (extG (E_boolCmd E ?opt [''SENTINEL'', ''REMOVE'', masterName])) (\<lambda>_. skipG) (\<lambda>_. skipG) w = (Ok a, w1)"
    "extG (E_boolCmd E ?opt [''SENTINEL'', ''MONITOR'', masterName, m, redisPort, ?q]) w1 = (Ok b, w2)" "sets w2 = (Ok u, w')"
    unfolding seqG_Ok_iff by (elim exE conjE) (rule that)
  have opt: "Addr ?opt = sentinelAddr ip" by (simp add: setOptions_def)
  obtain r1 where "E_boolCmd E ?opt [''SENTINEL'', ''REMOVE'', masterName] (w_ext w) = (r1, w_ext w1)"
    using r(1) by (cases rule: tryG_OkE) (auto simp: extG_Ok_iff extG_Fail_iff)
  note m1 = sentinel_lawsD(4) [OF laws this, unfolded opt]
  have "E_boolCmd E ?opt [''SENTINEL'', ''MONITOR'', masterName, m, redisPort, ?q] (w_ext w1) = (Inr b, w_ext w2)"
    using r(2) by (auto simp: extG_Ok_iff)
  note m2 = sentinel_lawsD(3) [OF laws this, unfolded opt] sentinel_lawsD(4) [OF laws this, unfolded opt]
  have "keepsView mon sets"
    unfolding sets_def by (intro keepsView_intros calm_healer [OF sentinel_lawsD(1) [OF laws]])
  from keeps_sameD [OF this r(3)] show ?thesis using m1 m2 by (auto simp: fun_eq_iff)
qed

lemma monitorStep_Ok:
  assumes laws: "sentinel_laws E mon" and run: "monitorStep E m rc auth ip w = (Ok u, w')"
  shows "mon (w_ext w') = (mon (w_ext w))(sentinelAddr ip := m)"
  using run unfolding monitorStep_def
proof (cases rule: tryG_OkE)
  case (ok a t)
  then show ?thesis using CheckSentinelMonitor_Ok [OF laws ok(1)] by auto
next
  case (err e t)
  have "mon (w_ext t) = mon (w_ext w)"
    by (rule keeps_sameD [OF calm_checker(8) [OF sentinel_lawsD(1) [OF laws]] err(1)])
  with NewSentinelMonitor_Ok [OF laws err(2)] show ?thesis by simp
qed

lemma monitors_Ok:
  assumes laws: "sentinel_laws E mon" and run: "forG (monitorStep E m rc auth) ips w = (Ok u, w')"
  shows "mon (w_ext w') = (\<lambda>a. if a \<in> sentinelAddr ` set ips then m else mon (w_ext w) a)"
  using run
proof (induction ips arbitrary: w)
  case (Cons ip ips)
  then obtain w1 where w1: "monitorStep E m rc auth ip w = (Ok (), w1)" "forG (monitorStep E m rc auth) ips w1 = (Ok u, w')"
    by (auto simp: seqG_Ok_iff)
  show ?case using Cons.IH [OF w1(2)] monitorStep_Ok [OF laws w1(1)] by (auto simp: fun_eq_iff)
qed auto

subsection \<open>All sentinels\<close>

lemma healSentinels_monitors:
  assumes laws: "sentinel_laws E mon" "cluster_laws E sts podsOf role" and calm: "calm_view E sts" "calm_view E podsOf"
    and sentinels: "sentinels = clusterPods sts podsOf (w_ext w) (rs_namespace rc) (GetSentinelName rc)"
    and run: "healSentinels E st rc auth m w = (Ok u, w')"
  shows "\<forall>ip \<in> set (runningIPs sentinels). mon (w_ext w') (sentinelAddr ip) = m"
proof -
  obtain w1 ips w2 w3 where r: "sentinel_setRedisConfig E rc auth w = (Ok (), w1)" "GetSentinelsIPs E rc w1 = (Ok ips, w2)"
    "forG (monitorStep E m rc auth) ips w2 = (Ok (), w3)"
    "seqG (forG (slavesStep E rc auth) ips) (seqG (forG (sentinelsStep E rc auth) ips)
      (seqG (setSentinelConfig E st rc auth ips) (EnsureSentinelReady E rc))) w3 = (Ok u, w')"
    using run unfolding healSentinels_def bindG_Ok_iff seqG_Ok_iff [of "sentinel_setRedisConfig E rc auth"]
      seqG_Ok_iff [of "forG (monitorStep E m rc auth) _"] by auto
  have "ips = runningIPs (clusterPods sts podsOf (w_ext w1) (rs_namespace rc) (GetSentinelName rc))"
    using r(2) GetStatefulSetPods_Ok(1) [OF laws(2)] by (auto simp: GetSentinelsIPs_def bindG_Ok_iff)
  then have ips: "ips = runningIPs sentinels"
    using keeps_sameD [OF calm_rest(1) [OF calm(1)] r(1)] keeps_sameD [OF calm_rest(1) [OF calm(2)] r(1)] sentinels
    by (metis clusterPods_cong)
  note c = sentinel_lawsD(1) [OF laws(1)]
  have "keepsView mon (seqG (forG (slavesStep E rc auth) ips) (seqG (forG (sentinelsStep E rc auth) ips)
      (seqG (setSentinelConfig E st rc auth ips) (EnsureSentinelReady E rc))))"
    by (intro keepsView_intros calm_rest(2-4) [OF c] calm_checker(4) [OF c])
  from keeps_sameD [OF this r(4)] monitors_Ok [OF laws(1) r(3)] show ?thesis by (simp add: ips)
qed

text \<open>Healing the masters touches nothing that \<open>SLAVEOF\<close> does not touch.\<close>

lemma healMasters_view:
  assumes "quiet_view E v" and "\<And>opt args x. v (snd (E_statusCmd E opt args x)) = v x"
  shows "keepsView v (healMasters E rc auth)"
proof -
  have cmd: "keepsView v (extG (E_statusCmd E opt args))" for opt args by (rule keepsView_ext) (rule assms(2))
  have pods: "keepsView v (GetStatefulSetPods E ns n)" for ns n
    unfolding object_client_defs by (intro keepsView_intros quiet_ext [OF assms(1)])
  have make: "keepsView v (MakeMaster E ip auth)" "keepsView v (MakeSlaveOf E ip m auth)" for ip m
    unfolding MakeMaster_def MakeSlaveOf_def by (intro keepsView_intros cmd)+
  have elect: "keepsView v (SetOldestAsMaster E rc auth)" "keepsView v (SetMasterOnAll E m rc auth)"
    "keepsView v (healer_MakeMaster E ip auth)" for m ip
    unfolding SetOldestAsMaster_def SetMasterOnAll_def electStep_def attachStep_def healer_MakeMaster_def
    by (intro keepsView_intros pods make)+
  show ?thesis
    unfolding healMasters_def fixMasters_def EventUpdateStatus_def
    by (intro keepsView_intros elect quiet_checker [OF assms(1)])
qed

lemma healMasters_pods:
  assumes "cluster_laws E sts podsOf role" and "quiet_view E sts" "quiet_view E podsOf"
    and "healMasters E rc auth w = (Ok m, w')"
  shows "sts (w_ext w') = sts (w_ext w) \<and> podsOf (w_ext w') = podsOf (w_ext w)"
proof -
  have "sts (snd (E_statusCmd E opt args x)) = sts x" "podsOf (snd (E_statusCmd E opt args x)) = podsOf x" for opt args x
    using cluster_cmd(1) [OF assms(1)] by (metis prod.collapse)+
  with keeps_sameD [OF healMasters_view [OF assms(2)] assms(4)] keeps_sameD [OF healMasters_view [OF assms(3)] assms(4)]
  show ?thesis by blast
qed

lemma CheckAndHeal_agree:
  assumes "cluster_laws E sts podsOf role" and "quiet_view E sts" and "quiet_view E podsOf" and "quiet_view E role"
    and "sentinel_laws E mon"
    and "rc = w_rs w (m_Obj (w_metas w m))"
    and "pods = clusterPods sts podsOf (w_ext w) (rs_namespace rc) (sentinel_GetRedisName rc)"
    and "sentinels = clusterPods sts podsOf (w_ext w) (rs_namespace rc) (GetSentinelName rc)"
    and "\<forall>p \<in> set pods. pod_ip p \<noteq> ''NO''"
    and "sentinel_CheckAndHeal E m w = (Ok (), w')"
  shows "(\<exists>master. oneMaster role (w_ext w') pods master
        \<and> (\<forall>ip \<in> set (runningIPs sentinels). mon (w_ext w') (sentinelAddr ip) = master)) \<or>
     (\<exists>msg. w_events w' = w_events w @ [failedEvent rc msg] \<and> mon (w_ext w') = mon (w_ext w))"
  using assms(6,10) calm_pair [OF quiet_calm [OF assms(2)] calm_pair [OF quiet_calm [OF assms(3)] sentinel_lawsD(1) [OF assms(5)]]]
proof (cases rule: CheckAndHeal_OkE)
  case (healed w2 mm w3)
  have pods: "pods = clusterPods sts podsOf (w_ext w2) (rs_namespace rc) (sentinel_GetRedisName rc)"
    using healed(1) assms(7) clusterPods_cong by (metis prod.inject)
  have "sts (w_ext w3) = sts (w_ext w2) \<and> podsOf (w_ext w3) = podsOf (w_ext w2)"
    using healMasters_pods [OF assms(1-3) healed(2)] .
  then have sentinels: "sentinels = clusterPods sts podsOf (w_ext w3) (rs_namespace rc) (GetSentinelName rc)"
    using healed(1) assms(8) clusterPods_cong by (metis prod.inject)
  have "role (w_ext w') = role (w_ext w3)" using keeps_sameD [OF healSentinels_quiet [OF assms(4)] healed(3)] .
  moreover have "oneMaster role (w_ext w3) pods mm" by (rule healMasters_one_master [OF assms(1-4) pods assms(9) healed(2)])
  moreover note healSentinels_monitors [OF assms(5,1) quiet_calm [OF assms(2)] quiet_calm [OF assms(3)] sentinels healed(3)]
  ultimately show ?thesis by (auto simp: oneMaster_def)
qed auto

text \<open>
  C3. A healed cluster agrees on its master. Under the hypotheses of the previous property and
  with sentinels that behave as documented, a run of \<open>CheckAndHeal\<close> that reports success leaves
  one master, which all other running Redis pods replicate and which every running sentinel of
  the cluster monitors; the same exception applies.
\<close>

theorem CheckAndHeal_sentinels_agree:
  assumes "cluster_laws E sts podsOf role" and "quiet_view E sts" and "quiet_view E podsOf" and "quiet_view E role"
    and "sentinel_laws E mon"
    and "rc = w_rs w (m_Obj (w_metas w m))"
    and "pods = clusterPods sts podsOf (w_ext w) (rs_namespace rc) (sentinel_GetRedisName rc)"
    and "sentinels = clusterPods sts podsOf (w_ext w) (rs_namespace rc) (GetSentinelName rc)"
    and "\<forall>p \<in> set pods. pod_ip p \<noteq> ''NO''"
    and "sentinel_CheckAndHeal E m w = (Ok (), w')"
  shows "(\<exists>master. oneMaster role (w_ext w') pods master
        \<and> (\<forall>ip \<in> set (runningIPs sentinels). mon (w_ext w') (sentinelAddr ip) = master)) \<or>
     (\<exists>msg. w_events w' = w_events w @ [failedEvent rc msg] \<and> mon (w_ext w') = mon (w_ext w))"
  using assms by (rule CheckAndHeal_agree)


subsection \<open>A concrete cluster with a sentinel\<close>

text \<open>
  The environment of the examples with sentinels that remember what they monitor (in the
  memory's table of configurations, under their own addresses). The cluster has one Redis pod
  and one sentinel, which monitors nothing yet.
\<close>

definition memMon :: "memApi \<Rightarrow> string \<Rightarrow> string" where
  "memMon x a = (case map_of (ma_configs x a) ''ip'' of Some h \<Rightarrow> h | None \<Rightarrow> [])"

definition monEnv :: "memApi env" where
  "monEnv = memEnv\<lparr>
     E_stringCmd := (\<lambda>opt args x. (Inr (if args = [''info'', ''sentinel''] then ''status=ok,sentinels=1'' else memInfo (Addr opt) x), x)),
     E_sliceCmd := (\<lambda>opt args x. (Inr (if args = [''SENTINEL'', ''master'', masterName]
        then [RString ''name'', RString masterName, RString ''ip'', RString (memMon x (Addr opt))] else []), x)),
     E_boolCmd := (\<lambda>opt args x. (Inr True, if length args = 6 \<and> args ! 1 = ''MONITOR''
        then x\<lparr>ma_configs := (ma_configs x)(Addr opt := [(''ip'', args ! 3)])\<rparr> else x))\<rparr>"

lemma monEnv_sel:
  "E_statefulSets monEnv = E_statefulSets memEnv" "E_pods monEnv = E_pods memEnv" "E_range monEnv = E_range memEnv"
  "E_statusCmd monEnv = memStatusCmd" "E_intCmd monEnv = E_intCmd memEnv" "E_now monEnv = E_now memEnv" "E_sleep monEnv = E_sleep memEnv"
  "E_stringCmd monEnv opt args x =
     (Inr (if args = [''info'', ''sentinel''] then ''status=ok,sentinels=1'' else memInfo (Addr opt) x), x)"
  "E_sliceCmd monEnv opt args x = (Inr (if args = [''SENTINEL'', ''master'', masterName]
     then [RString ''name'', RString masterName, RString ''ip'', RString (memMon x (Addr opt))] else []), x)"
  "E_boolCmd monEnv opt args x = (Inr True, if length args = 6 \<and> args ! 1 = ''MONITOR''
     then x\<lparr>ma_configs := (ma_configs x)(Addr opt := [(''ip'', args ! 3)])\<rparr> else x)"
  by (simp_all add: monEnv_def memEnv_cmds)

lemma monEnv_laws:
  "cluster_laws monEnv ma_statefulSets memPodsOf memRole" "quiet_view monEnv ma_statefulSets" "quiet_view monEnv memPodsOf"
  "quiet_view monEnv memRole" "sentinel_laws monEnv memMon"
proof -
  have "redis_laws monEnv memRole"
    using memEnv_redis unfolding redis_laws_def by (simp add: monEnv_sel memEnv_cmds)
  then show "cluster_laws monEnv ma_statefulSets memPodsOf memRole"
    using memEnv_cluster unfolding cluster_laws_def by (auto simp: monEnv_sel memEnv_cmds)
  show "quiet_view monEnv ma_statefulSets" "quiet_view monEnv memPodsOf" "quiet_view monEnv memRole"
    using memEnv_quiet unfolding quiet_view_def calm_view_def monEnv_sel
    by (simp_all add: memEnv_cmds memPodsOf_def memRole_def fun_eq_iff)
  have "calm_view monEnv memMon"
    unfolding calm_view_def monEnv_sel
    by (auto simp: memEnv_kinds memEnv_time memKind_def memPods_def memStatusCmd_def memMon_def fun_eq_iff memEnv_range_run)
  then show "sentinel_laws monEnv memMon"
    unfolding sentinel_laws_def monEnv_sel by (auto simp: memMon_def)
qed

definition monRc :: RedisSentinel where
  "monRc = upd_rs_spec (\<lambda>sp. sp\<lparr>sn_Size := 1, sn_Sentinel := (sn_Sentinel sp)\<lparr>se_Replicas := 1\<rparr>\<rparr>) (sentinelNamed ''db'' ''x'')"

definition sentinelPod :: "string \<Rightarrow> Pod" where
  "sentinelPod ip = \<lparr>pod_meta = zeroMeta\<lparr>om_namespace := ''db'', om_name := ip, om_labels := roleLabels None SentinelRoleName ''x''\<rparr>,
     pod_phase = ''Running'', pod_ip = ip, pod_startTime = None\<rparr>"

definition monMem :: memApi where
  "monMem = emptyMem\<lparr>
     ma_statefulSets := [(''db'', ''redis-worker-x'') \<mapsto> (fst (generateRedisStatefulSet monRc None []))\<lparr>ss_readyReplicas := 1\<rparr>,
        (''db'', ''redis-sentinel-x'') \<mapsto> (generateSentinelStatefulSet monRc None [])\<lparr>ss_readyReplicas := 1\<rparr>],
     ma_pods := [samplePod ''10.0.0.1'' 5, sentinelPod ''10.0.0.9'']\<rparr>"

definition monWorld :: "(string \<Rightarrow> (string \<times> string) list) \<Rightarrow> memApi world" where
  "monWorld c = (initWorld (monMem\<lparr>ma_configs := c\<rparr>))\<lparr>w_rs := \<lambda>_. monRc\<rparr>"

lemma monWorld_sel [simp]:
  "w_ext (monWorld c) = monMem\<lparr>ma_configs := c\<rparr>" "(monWorld c)\<lparr>w_ext := monMem\<lparr>ma_configs := c'\<rparr>\<rparr> = monWorld c'"
  "w_rs (monWorld c) p = monRc" "w_metas (monWorld c) q = zeroMetaEntry"
  by (simp_all add: monWorld_def initWorld_def)

lemma monRc_sel:
  "rs_namespace monRc = ''db''" "sentinel_GetRedisName monRc = ''redis-worker-x''" "GetSentinelName monRc = ''redis-sentinel-x''"
  "rs_name monRc = ''x''" "sn_Size (rs_spec monRc) = 1" "se_Replicas (rs_sentinel monRc) = 1" "sn_Config (rs_spec monRc) = None"
  "se_CustomConfig (rs_sentinel monRc) = []"
  by (simp_all add: monRc_def upd_rs_spec_def resource_name_defs sentinelNamed_def zeroSentinel_def zeroSentinelSpec_def zeroSettings_def)

lemma mon_pods:
  "GetStatefulSetPods monEnv ''db'' ''redis-worker-x'' (monWorld c) = (Ok [samplePod ''10.0.0.1'' 5], monWorld c)"
  "GetStatefulSetPods monEnv ''db'' ''redis-sentinel-x'' (monWorld c) = (Ok [sentinelPod ''10.0.0.9''], monWorld c)"
proof -
  have "\<not> labelsMatch (Some (entries (roleLabels None SentinelRoleName ''x''))) (roleLabels None RedisRoleName ''x'')"
    "\<not> labelsMatch (Some (entries (roleLabels None RedisRoleName ''x''))) (roleLabels None SentinelRoleName ''x'')"
    by (rule notI, drule labelsMatch_lookup [OF _ roleLabels_lookup(1)], simp add: RedisRoleName_def SentinelRoleName_def)+
  then show "GetStatefulSetPods monEnv ''db'' ''redis-worker-x'' (monWorld c) = (Ok [samplePod ''10.0.0.1'' 5], monWorld c)"
    "GetStatefulSetPods monEnv ''db'' ''redis-sentinel-x'' (monWorld c) = (Ok [sentinelPod ''10.0.0.9''], monWorld c)"
    by (simp_all add: GetStatefulSetPods_def GetStatefulSet_def getObj_def bindG_run extG_def monEnv_sel memEnv_kinds memKind_def
        memPods_def monMem_def samplePod_def sentinelPod_def monRc_sel)
qed


lemma mon_checks:
  "CheckRedisNumber monEnv monRc (monWorld c) = (Ok (), monWorld c)"
  "CheckSentinelNumber monEnv monRc (monWorld c) = (Ok (), monWorld c)"
  "EnsureSentinelReady monEnv monRc (monWorld c) = (Ok (), monWorld c)"
  "GetRedisesIPs monEnv monRc auth (monWorld c) = (Ok [''10.0.0.1''], monWorld c)"
  "GetSentinelsIPs monEnv monRc (monWorld c) = (Ok [''10.0.0.9''], monWorld c)"
proof -
  have get: "GetStatefulSet monEnv ''db'' ''redis-worker-x'' (monWorld c) =
      (Ok ((fst (generateRedisStatefulSet monRc None []))\<lparr>ss_readyReplicas := 1\<rparr>), monWorld c)"
    "GetStatefulSet monEnv ''db'' ''redis-sentinel-x'' (monWorld c) =
      (Ok ((generateSentinelStatefulSet monRc None [])\<lparr>ss_readyReplicas := 1\<rparr>), monWorld c)"
    by (simp_all add: GetStatefulSet_def getObj_def extG_def monEnv_sel memEnv_kinds memKind_def monMem_def)
  show "CheckRedisNumber monEnv monRc (monWorld c) = (Ok (), monWorld c)"
    "CheckSentinelNumber monEnv monRc (monWorld c) = (Ok (), monWorld c)"
    "EnsureSentinelReady monEnv monRc (monWorld c) = (Ok (), monWorld c)"
    by (simp_all add: CheckRedisNumber_def CheckSentinelNumber_def EnsureSentinelReady_def monRc_sel bindG_run get)
  show "GetRedisesIPs monEnv monRc auth (monWorld c) = (Ok [''10.0.0.1''], monWorld c)"
    "GetSentinelsIPs monEnv monRc (monWorld c) = (Ok [''10.0.0.9''], monWorld c)"
    by (simp_all add: GetRedisesIPs_def GetSentinelsIPs_def monRc_sel bindG_run mon_pods runningIPs_def samplePod_def sentinelPod_def podRunning_def)
qed

lemma mon_masters:
  "IsMaster monEnv ''10.0.0.1'' auth (monWorld c) = (Ok True, monWorld c)"
  "GetSlaveMasterIP monEnv ''10.0.0.1'' auth (monWorld c) = (Ok [], monWorld c)"
  "CheckRedisConfig monEnv monRc ip auth (monWorld c) = (Ok (), monWorld c)"
proof -
  have role: "memRole (monMem\<lparr>ma_configs := c\<rparr>) a = []" for a by (simp add: memRole_def monMem_def emptyMem_def)
  note info = roleReply_master [OF memInfo_role] roleReply_host [OF memInfo_role]
  show "IsMaster monEnv ''10.0.0.1'' auth (monWorld c) = (Ok True, monWorld c)"
    "GetSlaveMasterIP monEnv ''10.0.0.1'' auth (monWorld c) = (Ok [], monWorld c)"
    by (simp_all add: IsMaster_def GetSlaveMasterIP_def bindG_run extG_def monEnv_sel info role)
  show "CheckRedisConfig monEnv monRc ip auth (monWorld c) = (Ok (), monWorld c)"
    by (simp add: CheckRedisConfig_def GetAllRedisConfig_def rangeG_def totalG_def bindG_run extG_def monEnv_sel
        memEnv_range_run monRc_sel)
qed

lemma mon_stages:
  "healMasters monEnv monRc auth (monWorld c) = (Ok ''10.0.0.1'', monWorld c)"
  "sentinel_setRedisConfig monEnv monRc auth (monWorld c) = (Ok (), monWorld c)"
proof -
  have "GetNumberMasters monEnv monRc auth (monWorld c) = (Ok 1, monWorld c)"
    "GetMasterIP monEnv monRc auth (monWorld c) = (Ok ''10.0.0.1'', monWorld c)"
    "CheckAllSlavesFromMaster monEnv ''10.0.0.1'' monRc auth (monWorld c) = (Ok (), monWorld c)"
    by (simp_all add: GetNumberMasters_def countMaster_def GetMasterIP_def collectMaster_def indexG_def
        CheckAllSlavesFromMaster_def tryG_def bindG_def seqG_def mon_checks mon_masters)
  then show "healMasters monEnv monRc auth (monWorld c) = (Ok ''10.0.0.1'', monWorld c)"
    by (simp add: healMasters_def fixMasters_def tryG_run bindG_run seqG_run)
  show "sentinel_setRedisConfig monEnv monRc auth (monWorld c) = (Ok (), monWorld c)"
    by (simp add: sentinel_setRedisConfig_def tryG_def bindG_def seqG_def mon_checks mon_masters)
qed

lemma mon_sentinel:
  defines "c1 \<equiv> (\<lambda>_. [])(sentinelAddr ''10.0.0.9'' := [(''ip'', ''10.0.0.1'')])"
  shows "monitorStep monEnv ''10.0.0.1'' monRc \<lparr>Password = []\<rparr> ''10.0.0.9'' (monWorld (\<lambda>_. [])) = (Ok (), monWorld c1)"
    "slavesStep monEnv monRc auth ip (monWorld c) = (Ok (), monWorld c)"
    "sentinelsStep monEnv monRc auth ip (monWorld c) = (Ok (), monWorld c)"
proof -
  have "GetSentinelMonitor monEnv ''10.0.0.9'' \<lparr>Password = []\<rparr> (monWorld (\<lambda>_. [])) = (Ok [], monWorld (\<lambda>_. []))"
    by (simp add: GetSentinelMonitor_def bindG_run extG_def monEnv_sel indexG_def asString_def memMon_def)
  then have check: "CheckSentinelMonitor monEnv ''10.0.0.9'' ''10.0.0.1'' \<lparr>Password = []\<rparr> (monWorld (\<lambda>_. [])) =
      (Fail (ErrorString ''the monitor on the sentinel config does not match with the expected one''), monWorld (\<lambda>_. []))"
    by (simp add: CheckSentinelMonitor_def bindG_run)
  have set: "sentinelSet monEnv opt verb k v (monWorld c) = (Ok (), monWorld c)" for opt verb k v c
    by (simp add: sentinelSet_def bindG_run extG_def monEnv_sel memStatusCmd_def)
  have "NewSentinelMonitor monEnv ''10.0.0.9'' ''10.0.0.1'' monRc \<lparr>Password = []\<rparr> (monWorld (\<lambda>_. [])) = (Ok (), monWorld c1)"
    by (simp add: NewSentinelMonitor_def MonitorRedis_def Let_def seqG_run tryG_run extG_def monEnv_sel set c1_def)
  with check show "monitorStep monEnv ''10.0.0.1'' monRc \<lparr>Password = []\<rparr> ''10.0.0.9'' (monWorld (\<lambda>_. [])) = (Ok (), monWorld c1)"
    by (simp add: monitorStep_def tryG_run)
  have ready: "isSentinelReady ''status=ok,sentinels=1'' = None" and num: "sentinelNumberRE ''status=ok,sentinels=1'' = Some ''1''"
    by (simp_all add: isSentinelReady_def sentinelStatusRE_def sentinelNumberRE_def isLower_def isDigit_def)
  show "slavesStep monEnv monRc auth ip (monWorld c) = (Ok (), monWorld c)"
    by (simp add: slavesStep_def CheckSentinelSlavesNumberInMemory_def GetNumberSentinelSlavesInMemory_def guardG_def ready
        bindG_run seqG_run tryG_run extG_def monEnv_sel monRc_sel)
  have atoi: "Atoi ''1'' = Inr 1" by (simp add: Atoi_def parseInt64_def splitSign_def isDigit_def digitVal_def)
  show "sentinelsStep monEnv monRc auth ip (monWorld c) = (Ok (), monWorld c)"
    by (simp add: sentinelsStep_def CheckSentinelNumberInMemory_def GetNumberSentinelsInMemory_def guardG_def ready num resultG_def atoi
        bindG_run seqG_run tryG_run extG_def monEnv_sel monRc_sel)
qed

theorem CheckAndHeal_sentinels_agree_witness:
  "\<exists>w'. sentinel_CheckAndHeal monEnv 0 (monWorld (\<lambda>_. [])) = (Ok (), w')
     \<and> (\<exists>master. oneMaster memRole (w_ext w') [samplePod ''10.0.0.1'' 5] master
          \<and> memMon (w_ext w') (sentinelAddr ''10.0.0.9'') = master)"
proof -
  let ?c1 = "(\<lambda>_. [])(sentinelAddr ''10.0.0.9'' := [(''ip'', ''10.0.0.1'')])"
  have auth: "m_Auth zeroMetaEntry = \<lparr>Password = []\<rparr>" "m_State zeroMetaEntry = Create" by (simp_all add: zeroMetaEntry_def)
  have sentinels: "healSentinels monEnv st monRc \<lparr>Password = []\<rparr> ''10.0.0.1'' (monWorld (\<lambda>_. [])) = (Ok (), monWorld ?c1)" for st
    by (simp add: healSentinels_def setSentinelConfig_def SetSentinelCustomConfig_def monRc_sel seqG_run bindG_run
        mon_checks mon_stages mon_sentinel)
  then have run: "sentinel_CheckAndHeal monEnv 0 (monWorld (\<lambda>_. [])) = (Ok (), monWorld ?c1)"
    unfolding CheckAndHeal_split ptr_defs readG_run monWorld_sel auth
    by (simp add: tryG_run bindG_run mon_checks mon_stages)
  have pods: "clusterPods ma_statefulSets memPodsOf (monMem\<lparr>ma_configs := \<lambda>_. []\<rparr>) ''db'' ''redis-worker-x'' = [samplePod ''10.0.0.1'' 5]"
    "clusterPods ma_statefulSets memPodsOf (monMem\<lparr>ma_configs := \<lambda>_. []\<rparr>) ''db'' ''redis-sentinel-x'' = [sentinelPod ''10.0.0.9'']"
    using GetStatefulSetPods_Ok(1) [OF monEnv_laws(1) mon_pods(1)] GetStatefulSetPods_Ok(1) [OF monEnv_laws(1) mon_pods(2)] by simp_all
  have quiet: "w_events (monWorld ?c1) = w_events (monWorld (\<lambda>_. []))" by (simp add: monWorld_def initWorld_def)
  from CheckAndHeal_sentinels_agree [OF monEnv_laws _ _ _ _ run, of monRc "[samplePod ''10.0.0.1'' 5]" "[sentinelPod ''10.0.0.9'']"]
  obtain master where "oneMaster memRole (w_ext (monWorld ?c1)) [samplePod ''10.0.0.1'' 5] master"
    "\<forall>ip \<in> set (runningIPs [sentinelPod ''10.0.0.9'']). memMon (w_ext (monWorld ?c1)) (sentinelAddr ip) = master"
    by (auto simp: monRc_sel pods samplePod_def quiet)
  then show ?thesis using run by (auto simp: runningIPs_def sentinelPod_def podRunning_def)
qed

end
