(* ===== verification/Standalone_Generator.thy ===== *)
theory Standalone_Generator
  imports Sentinel_Generator World
begin

text \<open>
  \<open>controllers/redisstandalone/service/generator.go\<close>: the Kubernetes objects derived from a
  RedisStandalone. The configuration file is written by a range loop over a Go map, so its
  generator is an operation: the order of the lines is the environment's.
\<close>

subsection \<open>Parts of the pod template\<close>

definition standalone_getRedisCommand :: "RedisStandalone \<Rightarrow> string list" where
  "standalone_getRedisCommand rc =
     (if length (sa_Command (ra_spec rc)) > 0 then sa_Command (ra_spec rc)
      else [''redis-server'', ''/etc/redis/redis.conf''])"

definition standalone_getRedisDataVolume :: "RedisStandalone \<Rightarrow> Volume option" where
  "standalone_getRedisDataVolume rc =
     (if st_PersistentVolumeClaim (sa_Storage (ra_spec rc)) \<noteq> None then None
      else case st_EmptyDir (sa_Storage (ra_spec rc)) of
        Some d \<Rightarrow> Some \<lparr>vol_name = RedisStorageVolumeName, vol_configMap = None, vol_emptyDir = Some d\<rparr>
      | None \<Rightarrow> Some \<lparr>vol_name = RedisStorageVolumeName, vol_configMap = None, vol_emptyDir = Some zeroEmptyDir\<rparr>)"

definition standalone_getRedisDataVolumeName :: "RedisStandalone \<Rightarrow> string" where
  "standalone_getRedisDataVolumeName rc =
     (case st_PersistentVolumeClaim (sa_Storage (ra_spec rc)) of
        Some pvc \<Rightarrow> om_name (pvc_meta pvc)
      | None \<Rightarrow> RedisStorageVolumeName)"

definition standalone_getRedisVolumeMounts :: "RedisStandalone \<Rightarrow> VolumeMount list" where
  "standalone_getRedisVolumeMounts rc =
     [\<lparr>vm_name = RedisConfigurationVolumeName, vm_mountPath = ''/etc/redis''\<rparr>,
      \<lparr>vm_name = RedisShutdownConfigurationVolumeName, vm_mountPath = ''/redis-shutdown''\<rparr>,
      \<lparr>vm_name = standalone_getRedisDataVolumeName rc, vm_mountPath = ''/data''\<rparr>]"

definition standalone_getRedisVolumes :: "RedisStandalone \<Rightarrow> Volume list" where
  "standalone_getRedisVolumes rc =
     (let volumes =
        [\<lparr>vol_name = RedisConfigurationVolumeName,
          vol_configMap = Some \<lparr>cv_name = standalone_GetRedisName rc, cv_defaultMode = Some 0x1A4\<rparr>,
          vol_emptyDir = None\<rparr>,
         \<lparr>vol_name = RedisShutdownConfigurationVolumeName,
          vol_configMap = Some \<lparr>cv_name = standalone_GetRedisShutdownConfigMapName rc, cv_defaultMode = Some 0x1E4\<rparr>,
          vol_emptyDir = None\<rparr>] in
      case standalone_getRedisDataVolume rc of None \<Rightarrow> volumes | Some v \<Rightarrow> volumes @ [v])"

definition standalone_generateSelectorLabels :: "string \<Rightarrow> string \<Rightarrow> strmap" where
  "standalone_generateSelectorLabels component name = mapLit
     [(''app.kubernetes.io/part-of'', AppLabel), (''app.kubernetes.io/component'', component),
      (''app.kubernetes.io/name'', name)]"

definition standalone_createRedisExporterContainer :: "RedisStandalone \<Rightarrow> Container" where
  "standalone_createRedisExporterContainer rc =
     (let container = zeroContainer\<lparr>
            ct_name := ExporterContainerName,
            ct_image := ex_Image (sa_Exporter (ra_spec rc)),
            ct_imagePullPolicy := PullPolicy (ex_ImagePullPolicy (sa_Exporter (ra_spec rc))),
            ct_env := [\<lparr>ev_name = ''REDIS_ALIAS'', ev_value = [], ev_fieldPath = Some ''metadata.name''\<rparr>],
            ct_ports := [\<lparr>cp_name = ExporterPortName, cp_containerPort = ExporterPort, cp_protocol = ''TCP''\<rparr>],
            ct_resources := exporterResources\<rparr> in
      if sa_Password (ra_spec rc) \<noteq> []
      then container\<lparr>ct_env := ct_env container @
             [\<lparr>ev_name = RedisPasswordEnv, ev_value = sa_Password (ra_spec rc), ev_fieldPath = None\<rparr>]\<rparr>
      else container)"

subsection \<open>Services\<close>

definition standalone_generateRedisService :: "RedisStandalone \<Rightarrow> strmap \<Rightarrow> OwnerReference list \<Rightarrow> Service" where
  "standalone_generateRedisService rc labels0 ownerRefs =
     (let labels = MergeLabels [labels0, standalone_generateSelectorLabels RedisRoleName (ra_name rc)] in
      \<lparr>svc_meta = objectMeta (standalone_GetRedisName rc) (ra_namespace rc) labels ownerRefs,
       svc_type = ''ClusterIP'', svc_clusterIP = [], svc_selector = labels,
       svc_ports = [\<lparr>sp_name = ''redis'', sp_port = 6379, sp_targetPort = FromInt 6379, sp_protocol = ''TCP''\<rparr>]\<rparr>)"

definition generateHeadlessRedisService :: "RedisStandalone \<Rightarrow> strmap \<Rightarrow> OwnerReference list \<Rightarrow> Service" where
  "generateHeadlessRedisService rc labels0 ownerRefs =
     (let labels = MergeLabels [labels0, standalone_generateSelectorLabels RedisRoleName (ra_name rc)] in
      \<lparr>svc_meta = objectMeta (standalone_GetRedisName rc @ ''-headless'') (ra_namespace rc) labels ownerRefs,
       svc_type = ''ClusterIP'', svc_clusterIP = ''None'', svc_selector = labels,
       svc_ports = [\<lparr>sp_name = ''redis'', sp_port = 6379, sp_targetPort = FromInt 6379, sp_protocol = ''TCP''\<rparr>]\<rparr>)"

definition standalone_generateRedisMonitorService ::
  "RedisStandalone \<Rightarrow> strmap \<Rightarrow> OwnerReference list \<Rightarrow> Service" where
  "standalone_generateRedisMonitorService rc labels0 ownerRefs =
     (let labels = MergeLabels [labels0, standalone_generateSelectorLabels RedisRoleName (ra_name rc)];
          monitorLabels = MergeLabels [labels, mapLit [(UseLabelKey, MonitorLabelValue)]] in
      \<lparr>svc_meta = objectMeta (standalone_GetRedisName rc @ ''-monitor'') (ra_namespace rc) monitorLabels ownerRefs,
       svc_type = ''ClusterIP'', svc_clusterIP = [], svc_selector = labels,
       svc_ports = [\<lparr>sp_name = ''prometheus'', sp_port = ExporterPort, sp_targetPort = FromInt ExporterPort,
                     sp_protocol = ''TCP''\<rparr>]\<rparr>)"

subsection \<open>Config maps\<close>

text \<open>The content of \<open>redis.conf\<close>, given the entries in the order the range loop visits them.\<close>

definition redisConf :: "string \<Rightarrow> (string \<times> string) list \<Rightarrow> string" where
  "redisConf password kvs =
     (let content = (if password \<noteq> []
         then RedisBasicConfig @ newline @ ''requirepass '' @ password @ newline @ ''masterauth '' @ password @ newline
         else RedisBasicConfig) in
      foldl (\<lambda>content (k, v). content @ newline @ k @ '' '' @ v) content kvs)"

definition standalone_generateRedisConfigMap ::
  "'e env \<Rightarrow> RedisStandalone \<Rightarrow> strmap \<Rightarrow> OwnerReference list \<Rightarrow> ('e, ConfigMap) op" where
  "standalone_generateRedisConfigMap E rc labels0 ownerRefs =
     (let labels = MergeLabels [labels0, standalone_generateSelectorLabels RedisRoleName (ra_name rc)] in
      bindG (rangeG E (sa_Config (ra_spec rc))) (\<lambda>kvs. retG
        \<lparr>cm_meta = objectMeta (standalone_GetRedisName rc) (ra_namespace rc) labels ownerRefs,
         cm_data = mapLit [(RedisConfigFileName, redisConf (sa_Password (ra_spec rc)) kvs)]\<rparr>))"

definition standalone_generateRedisShutdownConfigMap ::
  "RedisStandalone \<Rightarrow> strmap \<Rightarrow> OwnerReference list \<Rightarrow> ConfigMap" where
  "standalone_generateRedisShutdownConfigMap rc labels0 ownerRefs =
     (let labels = MergeLabels [labels0, standalone_generateSelectorLabels RedisRoleName (ra_name rc)] in
      \<lparr>cm_meta = objectMeta (standalone_GetRedisShutdownConfigMapName rc) (ra_namespace rc) labels ownerRefs,
       cm_data = mapLit [(''shutdown.sh'', ''#!/usr/bin/env sh'' @ newline @ sh ''^echo `do nothing`'')]\<rparr>)"

subsection \<open>The workload\<close>

definition standaloneContainer :: "RedisStandalone \<Rightarrow> Container" where
  "standaloneContainer rc =
     (let probeArg = (if sa_Password (ra_spec rc) \<noteq> []
                      then ''redis-cli -h $(hostname)'' @ sh '' -a ~'' @ sa_Password (ra_spec rc) @ sh ''~ ping''
                      else ''redis-cli -h $(hostname)'' @ '' ping'') in
      zeroContainer\<lparr>
        ct_name := ''redis'',
        ct_image := sa_Image (ra_spec rc),
        ct_imagePullPolicy := PullPolicy (sa_ImagePullPolicy (ra_spec rc)),
        ct_ports := [\<lparr>cp_name = ''redis'', cp_containerPort = 6379, cp_protocol = ''TCP''\<rparr>],
        ct_volumeMounts := standalone_getRedisVolumeMounts rc,
        ct_command := standalone_getRedisCommand rc,
        ct_readinessProbe := Some (shellProbe [''sh'', ''-c'', probeArg]),
        ct_livenessProbe := Some (shellProbe [''sh'', ''-c'', probeArg]),
        ct_resources := sa_Resources (ra_spec rc),
        ct_preStop := Some [''/bin/sh'', ''/redis-shutdown/shutdown.sh'']\<rparr>)"

definition standalone_generateRedisStatefulSet ::
  "RedisStandalone \<Rightarrow> strmap \<Rightarrow> OwnerReference list \<Rightarrow> StatefulSet \<times> RedisStandalone" where
  "standalone_generateRedisStatefulSet rc labels0 ownerRefs =
     (let name = standalone_GetRedisName rc;
          labels = MergeLabels [labels0, standalone_generateSelectorLabels RedisRoleName (ra_name rc)];
          rc' = (if \<not> st_KeepAfterDeletion (sa_Storage (ra_spec rc))
                 then upd_ra_spec (sa_Storage_update (st_PersistentVolumeClaim_update
                        (map_option (pvc_meta_update (om_ownerReferences_update (\<lambda>_. ownerRefs)))))) rc
                 else rc) in
      (\<lparr>ss_meta = objectMeta name (ra_namespace rc) labels ownerRefs,
        ss_serviceName = name,
        ss_replicas = Some (sa_Size (ra_spec rc)),
        ss_updateStrategy = ''RollingUpdate'',
        ss_selector = Some labels,
        ss_template = \<lparr>pt_labels = labels, pt_annotations = sa_Annotations (ra_spec rc),
          pt_spec = \<lparr>ps_affinity = GetAffinity (sa_Affinity (ra_spec rc)) labels,
            ps_tolerations = sa_ToleRations (ra_spec rc),
            ps_nodeSelector = sa_NodeSelector (ra_spec rc),
            ps_securityContext = GetSecurityContext (sa_SecurityContext (ra_spec rc)),
            ps_imagePullSecrets = sa_ImagePullSecrets (ra_spec rc),
            ps_initContainers = [],
            ps_containers = standaloneContainer rc #
              (if ex_Enabled (sa_Exporter (ra_spec rc)) then [standalone_createRedisExporterContainer rc] else []),
            ps_volumes = standalone_getRedisVolumes rc\<rparr>\<rparr>,
        ss_volumeClaimTemplates =
          (case st_PersistentVolumeClaim (sa_Storage (ra_spec rc')) of None \<Rightarrow> [] | Some pvc \<Rightarrow> [pvc]),
        ss_readyReplicas = 0\<rparr>, rc'))"

subsection \<open>The configuration file\<close>

lemma Split_snoc: "sep \<notin> set b \<Longrightarrow> Split sep (a @ sep # b) = Split sep a @ [b]"
proof (induction a)
  case Nil
  have "Split sep b = [b]" if "sep \<notin> set b" for b using that by (induction b) auto
  with Nil show ?case by simp
next
  case (Cons c a)
  have "Split sep s \<noteq> []" for s by (induction s) (auto split: list.split)
  with Cons show ?case by (auto split: list.split)
qed

definition confLine :: "string \<times> string \<Rightarrow> string" where
  "confLine = (\<lambda>(k, v). k @ '' '' @ v)"

definition passwordLines :: "string \<Rightarrow> string list" where
  "passwordLines password = (if password = [] then [] else [''requirepass '' @ password, ''masterauth '' @ password, []])"

lemma redisConf_lines:
  assumes "CHR 0x0A \<notin> set password" and "\<forall>kv \<in> set kvs. CHR 0x0A \<notin> set (confLine kv)"
  shows "Split (CHR 0x0A) (redisConf password kvs) = Split (CHR 0x0A) RedisBasicConfig @ passwordLines password @ map confLine kvs"
proof -
  have entries: "Split (CHR 0x0A) (foldl (\<lambda>content (k, v). content @ newline @ k @ '' '' @ v) content kvs)
      = Split (CHR 0x0A) content @ map confLine kvs" for content
    using assms(2)
  proof (induction kvs arbitrary: content)
    case (Cons kv kvs)
    obtain k v where kv: "kv = (k, v)" by fastforce
    have "Split (CHR 0x0A) (content @ newline @ k @ '' '' @ v) = Split (CHR 0x0A) content @ [confLine kv]"
      using Split_snoc [of "CHR 0x0A" "k @ '' '' @ v" content] Cons.prems by (simp add: newline_def confLine_def kv)
    with Cons show ?case by (simp add: kv)
  qed simp
  have pass: "Split (CHR 0x0A) (RedisBasicConfig @ newline @ ''requirepass '' @ password @ newline @ ''masterauth '' @ password @ newline)
      = Split (CHR 0x0A) RedisBasicConfig @ [''requirepass '' @ password, ''masterauth '' @ password, []]"
    using Split_snoc [of "CHR 0x0A" "''requirepass '' @ password" RedisBasicConfig]
      Split_snoc [of "CHR 0x0A" "''masterauth '' @ password" "RedisBasicConfig @ CHR 0x0A # ''requirepass '' @ password"]
      Split_snoc [of "CHR 0x0A" "[]" "RedisBasicConfig @ CHR 0x0A # ''requirepass '' @ password @ CHR 0x0A # ''masterauth '' @ password"]
      assms(1) by (simp add: newline_def)
  show ?thesis
  proof (cases "password = []")
    case True
    show ?thesis unfolding redisConf_def Let_def entries by (simp add: True passwordLines_def)
  next
    case False
    then show ?thesis unfolding redisConf_def Let_def entries by (simp only: if_True pass passwordLines_def if_False not_False_eq_True append_assoc)
  qed
qed


end
