(* ===== verification/Standalone_Service.thy ===== *)
theory Standalone_Service
  imports Standalone_Generator Sentinel_Service
begin

text \<open>
  \<open>controllers/redisstandalone/service\<close>: the client, the checker and the healer of a
  RedisStandalone. The Go package repeats several functions of its Sentinel sibling; each has
  its own definition here, and lemmas say where the two agree.
\<close>

subsection \<open>client.go\<close>

definition standalone_shouldUpdateRedis ::
  "ResourceRequirements \<Rightarrow> ResourceRequirements \<Rightarrow> int32 \<Rightarrow> int32 \<Rightarrow> bool" where
  "standalone_shouldUpdateRedis expectResource containterResource expectSize replicas =
     (if expectSize \<noteq> replicas then True
      else if Quantity_Cmp (Cpu (rr_requests containterResource)) (Cpu (rr_requests expectResource)) \<noteq> 0 then True
      else if Quantity_Cmp (Memory (rr_requests containterResource)) (Memory (rr_requests expectResource)) \<noteq> 0 then True
      else if Quantity_Cmp (Cpu (rr_limits containterResource)) (Cpu (rr_limits expectResource)) \<noteq> 0 then True
      else if Quantity_Cmp (Memory (rr_limits containterResource)) (Memory (rr_limits expectResource)) \<noteq> 0 then True
      else False)"

definition standalone_exporterChanged :: "RedisStandalone \<Rightarrow> StatefulSet \<Rightarrow> bool" where
  "standalone_exporterChanged rc sts =
     (if ex_Enabled (sa_Exporter (ra_spec rc))
      then (if list_ex (\<lambda>c. ct_name c = ExporterContainerName) (ps_containers (pt_spec (ss_template sts)))
            then False else True)
      else (if list_ex (\<lambda>c. ct_name c = ExporterContainerName) (ps_containers (pt_spec (ss_template sts)))
            then True else False))"

definition standalone_EnsureRedisStatefulset ::
  "'e env \<Rightarrow> ptr \<Rightarrow> strmap \<Rightarrow> OwnerReference list \<Rightarrow> ('e, unit) op" where
  "standalone_EnsureRedisStatefulset E p labels refs =
     getRa p (\<lambda>rc.
     tryG (GetStatefulSet E (ra_namespace rc) (standalone_GetRedisName rc))
       (\<lambda>err. if IsNotFound err
              then (let (ss, rc') = standalone_generateRedisStatefulSet rc labels refs in
                    seqG (setRa p (\<lambda>_. rc')) (CreateStatefulSet E (ra_namespace rc) ss))
              else failG err)
       (\<lambda>oldSs.
          bindG (indexG (ps_containers (pt_spec (ss_template oldSs))) 0) (\<lambda>c.
          bindG (derefG (ss_replicas oldSs)) (\<lambda>replicas.
            if standalone_shouldUpdateRedis (sa_Resources (ra_spec rc)) (ct_resources c) (sa_Size (ra_spec rc)) replicas
               \<or> standalone_exporterChanged rc oldSs
            then (let (ss, rc') = standalone_generateRedisStatefulSet rc labels refs in
                  seqG (setRa p (\<lambda>_. rc')) (UpdateStatefulSet E (ra_namespace rc) ss))
            else skipG))))"

definition standalone_EnsureRedisService ::
  "'e env \<Rightarrow> RedisStandalone \<Rightarrow> strmap \<Rightarrow> OwnerReference list \<Rightarrow> ('e, unit) op" where
  "standalone_EnsureRedisService E rc labels refs =
     CreateIfNotExistsService E (ra_namespace rc) (standalone_generateRedisService rc labels refs)"

definition EnsureRedisHeadlessService ::
  "'e env \<Rightarrow> RedisStandalone \<Rightarrow> strmap \<Rightarrow> OwnerReference list \<Rightarrow> ('e, unit) op" where
  "EnsureRedisHeadlessService E rc labels refs =
     CreateIfNotExistsService E (ra_namespace rc) (generateHeadlessRedisService rc labels refs)"

definition standalone_EnsureRedisMonitorService ::
  "'e env \<Rightarrow> RedisStandalone \<Rightarrow> strmap \<Rightarrow> OwnerReference list \<Rightarrow> ('e, unit) op" where
  "standalone_EnsureRedisMonitorService E rc labels refs =
     CreateIfNotExistsService E (ra_namespace rc) (standalone_generateRedisMonitorService rc labels refs)"

definition standalone_EnsureRedisShutdownConfigMap ::
  "'e env \<Rightarrow> RedisStandalone \<Rightarrow> strmap \<Rightarrow> OwnerReference list \<Rightarrow> ('e, unit) op" where
  "standalone_EnsureRedisShutdownConfigMap E rc labels refs =
     (if sa_ShutdownConfigMap (ra_spec rc) \<noteq> []
      then bindG (GetConfigMap E (ra_namespace rc) (sa_ShutdownConfigMap (ra_spec rc))) (\<lambda>_. skipG)
      else CreateIfNotExistsConfigMap E (ra_namespace rc) (standalone_generateRedisShutdownConfigMap rc labels refs))"

definition standalone_EnsureRedisConfigMap ::
  "'e env \<Rightarrow> RedisStandalone \<Rightarrow> strmap \<Rightarrow> OwnerReference list \<Rightarrow> ('e, unit) op" where
  "standalone_EnsureRedisConfigMap E rc labels refs =
     bindG (standalone_generateRedisConfigMap E rc labels refs) (\<lambda>cm. CreateIfNotExistsConfigMap E (ra_namespace rc) cm)"

subsection \<open>check.go\<close>

definition standalone_GetRedisesIPs :: "'e env \<Rightarrow> RedisStandalone \<Rightarrow> ('e, string list) op" where
  "standalone_GetRedisesIPs E rc =
     bindG (GetStatefulSetPods E (ra_namespace rc) (standalone_GetRedisName rc)) (\<lambda>rps. retG (runningIPs rps))"

definition standalone_CheckRedisConfig :: "'e env \<Rightarrow> RedisStandalone \<Rightarrow> string \<Rightarrow> AuthConfig \<Rightarrow> ('e, unit) op" where
  "standalone_CheckRedisConfig E rc addr auth =
     bindG (GetAllRedisConfig E \<lparr>Addr = JoinHostPort addr ''6379'', opt_Password = Password auth\<rparr>) (\<lambda>configs.
     bindG (rangeG E (sa_Config (ra_spec rc))) (\<lambda>kvs.
       forG (\<lambda>kv. guardG (configEntryConflict configs kv)) kvs))"

definition standalone_CheckRedisNumber :: "'e env \<Rightarrow> RedisStandalone \<Rightarrow> ('e, unit) op" where
  "standalone_CheckRedisNumber E rc =
     bindG (GetStatefulSet E (ra_namespace rc) (standalone_GetRedisName rc)) (\<lambda>ss.
     bindG (derefG (ss_replicas ss)) (\<lambda>replicas.
       if sa_Size (ra_spec rc) \<noteq> replicas
       then failG (ErrorString ''number of redis pods differ from specification'')
       else if sa_Size (ra_spec rc) \<noteq> ss_readyReplicas ss
       then failG (ErrorString ''waiting all of redis pods become ready'')
       else skipG))"

subsection \<open>heal.go\<close>

definition standalone_SetRedisCustomConfig :: "'e env \<Rightarrow> string \<Rightarrow> RedisStandalone \<Rightarrow> AuthConfig \<Rightarrow> ('e, unit) op" where
  "standalone_SetRedisCustomConfig E ip rc auth =
     (if entries (sa_Config (ra_spec rc)) = fmempty \<and> length (Password auth) = 0 then skipG
      else SetCustomRedisConfig E ip (sa_Config (ra_spec rc)) auth)"

subsection \<open>The workload reaches its desired state\<close>

lemma standalone_shouldUpdateRedis_eq: "standalone_shouldUpdateRedis = shouldUpdateRedis"
  by (simp add: fun_eq_iff standalone_shouldUpdateRedis_def shouldUpdateRedis_def)

lemma standalone_proj [simp]:
  "ss_replicas (fst (standalone_generateRedisStatefulSet rc labels refs)) = Some (sa_Size (ra_spec rc))"
  "om_name (ss_meta (fst (standalone_generateRedisStatefulSet rc labels refs))) = standalone_GetRedisName rc"
  "om_namespace (ss_meta (fst (standalone_generateRedisStatefulSet rc labels refs))) = ra_namespace rc"
  "ps_containers (pt_spec (ss_template (fst (standalone_generateRedisStatefulSet rc labels refs)))) = standaloneContainer rc #
     (if ex_Enabled (sa_Exporter (ra_spec rc)) then [standalone_createRedisExporterContainer rc] else [])"
  "ra_meta (snd (standalone_generateRedisStatefulSet rc labels refs)) = ra_meta rc"
  by (simp_all add: standalone_generateRedisStatefulSet_def objectMeta_def upd_ra_spec_def Let_def)

lemma standalone_containers [simp]:
  "ct_name (standaloneContainer rc) = ''redis''" "ct_resources (standaloneContainer rc) = sa_Resources (ra_spec rc)"
  "ct_name (standalone_createRedisExporterContainer rc) = ExporterContainerName"
  by (simp_all add: standaloneContainer_def standalone_createRedisExporterContainer_def Let_def)

lemma standalone_exporterChanged_view:
  assumes "containerView s = containerView s'"
  shows "standalone_exporterChanged rc s = standalone_exporterChanged rc s'"
proof -
  have "exporterChanged (upd_rs_spec (sn_Exporter_update (\<lambda>_. sa_Exporter (ra_spec rc))) zeroSentinel) t
      = standalone_exporterChanged rc t" for t
    by (simp add: exporterChanged_def standalone_exporterChanged_def upd_rs_spec_def)
  then show ?thesis using exporterChanged_view [OF assms] by metis
qed

interpretation saw: workload_ensurer E "fst (standalone_generateRedisStatefulSet rc labels refs)"
    "\<lambda>ss. workloadOutdated (sa_Resources (ra_spec rc)) (sa_Size (ra_spec rc)) ss \<or> standalone_exporterChanged rc ss"
    skipG "\<lambda>w. w\<lparr>w_ra := (w_ra w)(p := snd (standalone_generateRedisStatefulSet rc labels refs))\<rparr>"
    "\<lambda>w. w_ra w p = rc" "standalone_EnsureRedisStatefulset E p labels refs" for E rc labels refs p
proof
  let ?ss = "standalone_generateRedisStatefulSet rc labels refs"
  show "standalone_EnsureRedisStatefulset E p labels refs w = seqG skipG
      (tryG (GetStatefulSet E (om_namespace (ss_meta (fst ?ss))) (om_name (ss_meta (fst ?ss))))
        (\<lambda>err. if IsNotFound err
           then seqG (modifyG (\<lambda>w. w\<lparr>w_ra := (w_ra w)(p := snd ?ss)\<rparr>))
                  (CreateStatefulSet E (om_namespace (ss_meta (fst ?ss))) (fst ?ss)) else failG err)
        (\<lambda>old. bindG (indexG (ps_containers (pt_spec (ss_template old))) 0) (\<lambda>c.
           bindG (derefG (ss_replicas old)) (\<lambda>n.
             if workloadOutdated (sa_Resources (ra_spec rc)) (sa_Size (ra_spec rc)) old \<or> standalone_exporterChanged rc old
             then seqG (modifyG (\<lambda>w. w\<lparr>w_ra := (w_ra w)(p := snd ?ss)\<rparr>))
                    (UpdateStatefulSet E (om_namespace (ss_meta (fst ?ss))) (fst ?ss)) else skipG)))) w"
    if "w_ra w p = rc" for w
    unfolding standalone_EnsureRedisStatefulset_def getRa_def readG_run that workloadOutdated_def seqG_run retG_run
      standalone_proj setRa_def split_def Let_def standalone_shouldUpdateRedis_eq
    by (subst workload_cont_cong) (simp add: seqG_run)
  show "\<not> (workloadOutdated (sa_Resources (ra_spec rc)) (sa_Size (ra_spec rc)) (fst ?ss) \<or> standalone_exporterChanged rc (fst ?ss))"
    by (simp add: workloadOutdated_def standalone_exporterChanged_def ExporterContainerName_def)
  show "(workloadOutdated (sa_Resources (ra_spec rc)) (sa_Size (ra_spec rc)) s \<or> standalone_exporterChanged rc s)
      = (workloadOutdated (sa_Resources (ra_spec rc)) (sa_Size (ra_spec rc)) s' \<or> standalone_exporterChanged rc s')"
    if "ss_replicas s = ss_replicas s'" "containerView s = containerView s'" for s s'
    using workloadOutdated_view [OF that] standalone_exporterChanged_view [OF that(2)] by simp
qed simp_all

subsection \<open>The configuration file\<close>

text \<open>
  C30. The generated \<open>redis.conf\<close> can be read back: split at the line breaks, it is the basic
  configuration, the two lines for the password if there is one, and then one line for each
  parameter of the spec with its value, each parameter exactly once. (Hypothesis: no line
  break hides in a parameter, a value or the password; the code does not check it.)
\<close>

theorem redisConf_roundtrip:
  assumes "range_laws E" and "CHR 0x0A \<notin> set (sa_Password (ra_spec rc))"
    and "\<forall>k v. lookupM (sa_Config (ra_spec rc)) k = Some v \<longrightarrow> CHR 0x0A \<notin> set k \<and> CHR 0x0A \<notin> set v"
    and "standalone_generateRedisConfigMap E rc labels refs w = (Ok cm, w')"
  shows "\<exists>content kvs. lookupM (cm_data cm) RedisConfigFileName = Some content
     \<and> Split (CHR 0x0A) content = Split (CHR 0x0A) RedisBasicConfig @ passwordLines (sa_Password (ra_spec rc)) @ map confLine kvs
     \<and> distinct (map fst kvs) \<and> (\<forall>k v. (k, v) \<in> set kvs \<longleftrightarrow> lookupM (sa_Config (ra_spec rc)) k = Some v)"
proof -
  let ?r = "E_range E (entries (sa_Config (ra_spec rc))) (w_ext w)"
  have cm: "lookupM (cm_data cm) RedisConfigFileName = Some (redisConf (sa_Password (ra_spec rc)) (fst ?r))"
    using assms(4) by (auto simp: standalone_generateRedisConfigMap_def Let_def rangeG_def totalG_def bindG_Ok_iff lookupM_def
        entries_def split: prod.splits)
  have range: "distinct (map fst (fst ?r))" "map_of (fst ?r) = fmlookup (entries (sa_Config (ra_spec rc)))"
    using assms(1) unfolding range_laws_def by blast+
  then have entries: "(k, v) \<in> set (fst ?r) \<longleftrightarrow> lookupM (sa_Config (ra_spec rc)) k = Some v" for k v
    by (metis lookupM_def map_of_eq_Some_iff)
  have "\<forall>kv \<in> set (fst ?r). CHR 0x0A \<notin> set (confLine kv)"
    using assms(3) entries by (auto simp: confLine_def)
  from redisConf_lines [OF assms(2) this] cm range(1) entries show ?thesis by blast
qed

definition guardedStandalone :: RedisStandalone where
  "guardedStandalone = upd_ra_spec (sa_Password_update (\<lambda>_. ''s3'')) (standaloneNamed ''db'' ''x'')"

theorem redisConf_roundtrip_witness:
  "\<exists>cm w' content. standalone_generateRedisConfigMap memEnv guardedStandalone None [] (initWorld emptyMem) = (Ok cm, w')
     \<and> lookupM (cm_data cm) RedisConfigFileName = Some content
     \<and> Split (CHR 0x0A) content = Split (CHR 0x0A) RedisBasicConfig @ [''requirepass s3'', ''masterauth s3'', []]"
proof -
  have cfg: "lookupM (sa_Config (ra_spec guardedStandalone)) k = None" "sa_Password (ra_spec guardedStandalone) = ''s3''" for k
    by (simp_all add: guardedStandalone_def upd_ra_spec_def standaloneNamed_def zeroStandalone_def zeroStandaloneSpec_def
        lookupM_def entries_def)
  obtain cm w' where run: "standalone_generateRedisConfigMap memEnv guardedStandalone None [] (initWorld emptyMem) = (Ok cm, w')"
    by (simp add: standalone_generateRedisConfigMap_def Let_def rangeG_def totalG_def bindG_run memEnv_range_run)
  have "CHR 0x0A \<notin> set (sa_Password (ra_spec guardedStandalone))" by (simp add: cfg)
  from redisConf_roundtrip [OF memEnv_range this _ run] obtain content kvs where
    c: "lookupM (cm_data cm) RedisConfigFileName = Some content" "\<forall>k v. (k, v) \<notin> set kvs"
    "Split (CHR 0x0A) content = Split (CHR 0x0A) RedisBasicConfig @ passwordLines ''s3'' @ map confLine kvs"
    unfolding cfg by auto
  have "kvs = []" using c(2) by (cases kvs) auto
  with c run show ?thesis by (auto simp: passwordLines_def)
qed

end
