(* ===== verification/Standalone_Handler.thy ===== *)
theory Standalone_Handler
  imports Standalone_Service Sentinel_Control
begin

text \<open>
  The controller of RedisStandalone: \<open>controllers/redisstandalone_handler.go\<close> and
  \<open>controllers/redisstandalone_controller.go\<close>. There are no sentinels to look after: healing
  waits for the pod and writes the custom configuration.
\<close>

subsection \<open>Owner references, labels, status\<close>

definition standalone_createOwnerReferences :: "RedisStandalone \<Rightarrow> OwnerReference list" where
  "standalone_createOwnerReferences rc = [NewControllerRef (ra_meta rc) (VersionKind RedisStandaloneKind)]"

definition standalone_getLabels :: "RedisStandalone \<Rightarrow> strmap" where
  "standalone_getLabels rc =
     (let dynLabels = mapLit [(LabelNameKey, ra_namespace rc @ ''_'' @ ra_name rc)] in
      MergeLabels [DefaultLabels, dynLabels, om_labels (ra_meta rc)])"

text \<open>The \<open>switch meta.Status\<close> of \<open>updateStatus\<close>.\<close>

definition standalone_announce :: "'e env \<Rightarrow> Meta \<Rightarrow> ObjectMeta \<Rightarrow> ('e, unit) op" where
  "standalone_announce E meta om =
     (let p = m_Obj meta; msg = m_Message meta in
      if m_Status meta = ClusterConditionCreating
      then seqG (CreateCluster om) (standalone_SetConditionG E p SetCreateCondition msg)
      else if m_Status meta = ClusterConditionScaling
      then seqG (NewSlaveAdd om msg) (standalone_SetConditionG E p SetScalingUpCondition msg)
      else if m_Status meta = ClusterConditionScalingDown
      then seqG (SlaveRemove om msg) (standalone_SetConditionG E p SetScalingDownCondition msg)
      else if m_Status meta = ClusterConditionUpgrading
      then seqG (EventUpdateStatus om msg) (standalone_SetConditionG E p SetUpgradingCondition msg)
      else seqG (EventUpdateStatus om msg) (standalone_SetConditionG E p SetUpdatingCondition msg))"

definition standalone_updateStatus :: "'e env \<Rightarrow> ptr \<Rightarrow> ('e, unit) op" where
  "standalone_updateStatus E m =
     getMeta m (\<lambda>meta.
     if m_State meta \<noteq> Check
     then getRa (m_Obj meta) (\<lambda>rc.
       seqG (standalone_announce E meta (ra_meta rc)) (UpdateStandaloneStatus E (ra_namespace rc) (m_Obj meta)))
     else skipG)"

subsection \<open>Objects\<close>

definition standalone_Ensure :: "'e env \<Rightarrow> ptr \<Rightarrow> strmap \<Rightarrow> OwnerReference list \<Rightarrow> ('e, unit) op" where
  "standalone_Ensure E p labels refs =
     getRa p (\<lambda>rc.
     seqG (standalone_EnsureRedisService E rc labels refs)
    (seqG (EnsureRedisHeadlessService E rc labels refs)
    (seqG (standalone_EnsureRedisConfigMap E rc labels refs)
    (seqG (standalone_EnsureRedisShutdownConfigMap E rc labels refs)
    (seqG (if ex_Enabled (sa_Exporter (ra_spec rc)) then standalone_EnsureRedisMonitorService E rc labels refs else skipG)
          (standalone_EnsureRedisStatefulset E p labels refs))))))"

subsection \<open>Checking and healing\<close>

definition standalone_setRedisConfig :: "'e env \<Rightarrow> RedisStandalone \<Rightarrow> AuthConfig \<Rightarrow> ('e, unit) op" where
  "standalone_setRedisConfig E rc auth =
     bindG (standalone_GetRedisesIPs E rc) (\<lambda>redises.
       forG (\<lambda>rip. tryG (standalone_CheckRedisConfig E rc rip auth)
               (\<lambda>_. seqG (EventUpdateStatus (ra_meta rc) ''set custom config for redis server'')
                         (standalone_SetRedisCustomConfig E rip rc auth))
               (\<lambda>_. skipG)) redises)"

definition standalone_CheckAndHeal :: "'e env \<Rightarrow> ptr \<Rightarrow> ('e, unit) op" where
  "standalone_CheckAndHeal E m =
     getMeta m (\<lambda>meta. getRa (m_Obj meta) (\<lambda>rc.
     tryG (standalone_CheckRedisNumber E rc)
       (\<lambda>_. seqG (EventUpdateStatus (ra_meta rc) ''wait for all redis server start'') (failG ErrNeedRequeue))
       (\<lambda>_. standalone_setRedisConfig E rc (m_Auth meta))))"

subsection \<open>Do\<close>

definition standalone_reportFailed :: "'e env \<Rightarrow> ptr \<Rightarrow> GoErr \<Rightarrow> ('e, unit) op" where
  "standalone_reportFailed E p err =
     getRa p (\<lambda>rc.
     seqG (FailedCluster (ra_meta rc) (ErrorMsg err))
    (seqG (standalone_SetConditionG E p SetFailedCondition (ErrorMsg err))
          (UpdateStandaloneStatus E (ra_namespace rc) p)))"

definition standalone_setError :: "ptr \<Rightarrow> ('e, unit) op" where
  "standalone_setError p = getRa p (\<lambda>rc. SetClusterError (ra_namespace rc) (ra_name rc))"

text \<open>What \<open>Do\<close> does with the error of \<open>CheckAndHeal\<close>.\<close>

definition standalone_checkFailed :: "'e env \<Rightarrow> ptr \<Rightarrow> GoErr \<Rightarrow> ('e, unit) op" where
  "standalone_checkFailed E p err =
     seqG (standalone_setError p)
    (if ErrorMsg err \<noteq> NeedRequeueMsg
     then seqG (standalone_reportFailed E p err) (failG err)
     else getRa p (\<lambda>rc. let status = sas_Conditions (ra_status rc) in
       if length status > 0 \<and> c_Type (status ! 0) = ClusterConditionHealthy
       then seqG (CreateCluster (ra_meta rc))
           (seqG (standalone_SetConditionG E p SetCreateCondition ''redis server or sentinel server be removed by user, restart'')
           (seqG (UpdateStandaloneStatus E (ra_namespace rc) p) (failG err)))
       else failG err))"

definition standalone_reportHealthy :: "'e env \<Rightarrow> ptr \<Rightarrow> ('e, unit) op" where
  "standalone_reportHealthy E p =
     getRa p (\<lambda>rc.
     seqG (HealthCluster (ra_meta rc))
    (seqG (standalone_SetConditionG E p SetReadyCondition ''Cluster ok'')
    (seqG (UpdateStandaloneStatus E (ra_namespace rc) p)
          (getRa p (\<lambda>rc'. SetClusterOK (ra_namespace rc') (ra_name rc'))))))"

definition standalone_Do :: "'e env \<Rightarrow> ptr \<Rightarrow> ('e, unit) op" where
  "standalone_Do E p =
     tryG (onRa p standalone_Validate)
       (\<lambda>err. seqG (standalone_setError p) (failG err))
       (\<lambda>modified.
          if modified
          then getRa p (\<lambda>rc. seqG (UpdateStandaloneSpec E (ra_namespace rc) p) (failG ErrNeedRequeueImmediately))
          else bindG (standalone_Cache p) (\<lambda>m.
            seqG (standalone_updateStatus E m)
           (getRa p (\<lambda>rc. getMeta m (\<lambda>meta.
            seqG (EnsureCluster (ra_meta rc))
           (tryG (standalone_Ensure E (m_Obj meta) (standalone_getLabels rc) (standalone_createOwnerReferences rc))
              (\<lambda>err. seqG (standalone_reportFailed E p err) (seqG (standalone_setError p) (failG err)))
              (\<lambda>_. getRa p (\<lambda>rc'.
                 seqG (CheckCluster (ra_meta rc'))
                (tryG (standalone_CheckAndHeal E m) (standalone_checkFailed E p)
                   (\<lambda>_. standalone_reportHealthy E p))))))))))"

subsection \<open>The reconciler\<close>

definition standalone_Reconcile :: "'e env \<Rightarrow> int \<Rightarrow> string \<Rightarrow> string \<Rightarrow> ('e, Result) op" where
  "standalone_Reconcile E ReconcileTime ns n =
     tryG (extG (kc_Get (E_standalones E) ns n))
       (\<lambda>err. if IsNotFound err
              then seqG (standalone_Del (zeroMeta\<lparr>om_namespace := ns, om_name := n\<rparr>)) (retG zeroResult)
              else failG err)
       (\<lambda>inst. bindG (allocRa inst) (\<lambda>p.
          tryG (standalone_Do E p)
            (\<lambda>err. if ErrorMsg err = NeedRequeueImmediatelyMsg then retG (zeroResult\<lparr>Requeue := True\<rparr>)
                   else if ErrorMsg err = NeedRequeueMsg then retG (zeroResult\<lparr>RequeueAfter := ReconcileTime * second\<rparr>)
                   else failG err)
            (\<lambda>_. retG (zeroResult\<lparr>RequeueAfter := ReconcileTime * second\<rparr>))))"

text \<open>The event filter that \<open>SetupWithManager\<close> installs; unlike its sibling it drops no metric.\<close>

definition standalone_CreateFunc :: "ObjectMeta \<Rightarrow> bool" where
  "standalone_CreateFunc obj = (if \<not> ShouldManage obj then False else True)"

definition standalone_DeleteFunc :: "ObjectMeta \<Rightarrow> bool \<Rightarrow> bool" where
  "standalone_DeleteFunc obj DeleteStateUnknown = (if \<not> ShouldManage obj then False else \<not> DeleteStateUnknown)"

definition standalone_UpdateFunc :: "ObjectMeta \<Rightarrow> ObjectMeta \<Rightarrow> bool" where
  "standalone_UpdateFunc objOld objNew =
     (if \<not> ShouldManage objNew then False
      else if om_generation objOld \<noteq> om_generation objNew then True else False)"

subsection \<open>A reconcile ends\<close>

lemma standalone_service_returns [go_returns]:
  "returnsG (standalone_GetRedisesIPs E rc)" "returnsG (standalone_CheckRedisConfig E rc ip auth)"
  "returnsG (standalone_CheckRedisNumber E rc)" "returnsG (standalone_SetRedisCustomConfig E ip rc auth)"
  unfolding standalone_GetRedisesIPs_def standalone_CheckRedisConfig_def standalone_CheckRedisNumber_def
    standalone_SetRedisCustomConfig_def redis_client_defs object_client_defs Let_def split_def
  by (intro go_returns)+

lemmas standalone_client_defs = standalone_EnsureRedisService_def EnsureRedisHeadlessService_def
  standalone_EnsureRedisConfigMap_def standalone_generateRedisConfigMap_def standalone_EnsureRedisShutdownConfigMap_def
  standalone_EnsureRedisMonitorService_def

lemma standalone_Ensure_returns [go_returns]: "returnsG (standalone_Ensure E p labels refs)"
  unfolding standalone_Ensure_def standalone_client_defs standalone_EnsureRedisStatefulset_def
    object_client_defs ptr_defs Let_def split_def rangeG_def
  by (intro go_returns)

lemma standalone_status_returns [go_returns]:
  "returnsG (standalone_SetConditionG E p k msg)" "returnsG (UpdateStandaloneStatus E ns p)"
  "returnsG (UpdateStandaloneSpec E ns p)" "returnsG (standalone_Cache p)"
  unfolding standalone_SetConditionG_def UpdateStandaloneStatus_def UpdateStandaloneSpec_def ptr_defs Let_def nowG_def
    split_def standalone_Cache_def standalone_Add_def standalone_Update_def standalone_Get_def
  by (intro go_returns | simp add: returnsG_def)+

lemma standalone_Validate_returns [go_returns]: "returnsG standalone_Validate"
  unfolding standalone_Validate_def standalone_onConfig_def enablePersistence_def disablePersistence_def
    setConfigMapIfNotExist_def
  by (intro go_returns)

lemma standalone_Do_returns [go_returns]: "returnsG (standalone_Do E p)"
  unfolding standalone_Do_def standalone_checkFailed_def standalone_reportFailed_def standalone_reportHealthy_def
    standalone_setError_def standalone_updateStatus_def standalone_announce_def standalone_CheckAndHeal_def
    standalone_setRedisConfig_def onRa_def ptr_defs Let_def event_defs
  by (intro go_returns)



subsection \<open>The gauge\<close>

definition raKey :: "ptr \<Rightarrow> 'e world \<Rightarrow> string \<times> string" where
  "raKey p w = metaKey (ra_meta (w_ra w p))"

definition standalone_identity_laws :: "'e env \<Rightarrow> bool" where
  "standalone_identity_laws E \<longleftrightarrow>
     (\<forall>rc x rc' y. kc_StatusUpdate (E_standalones E) rc x = (Inr rc', y) \<longrightarrow> metaKey (ra_meta rc') = metaKey (ra_meta rc)) \<and>
     (\<forall>rc x rc' y. kc_Update (E_standalones E) rc x = (Inr rc', y) \<longrightarrow> metaKey (ra_meta rc') = metaKey (ra_meta rc))"

abbreviation raView :: "ptr \<Rightarrow> 'e world \<Rightarrow> (string \<times> string \<rightharpoonup> int) \<times> string \<times> string" where
  "raView p \<equiv> gaugeView (raKey p)"

lemma raView_keyed: "keyedRa (raView p)"
  by (simp add: keyedRa_def internal_def gaugeView_def raKey_def)

lemmas raView_internal = keyed_internal(2) [OF raView_keyed]

lemma keyedRa_SetCondition: "keyedRa v \<Longrightarrow> keeps (same v) (standalone_SetConditionG E q k msg)"
  unfolding standalone_SetConditionG_def Let_def nowG_def getRa_def split_def
  by (intro internal_intros internal_prims keyed_internal(2) keyed_set(2)) simp_all

lemma keyedRa_updates:
  assumes "keyedRa v" and "standalone_identity_laws E"
  shows "keeps (same v) (UpdateStandaloneStatus E ns q)" "keeps (same v) (UpdateStandaloneSpec E ns q)"
proof -
  show "keeps (same v) (UpdateStandaloneStatus E ns q)"
    unfolding UpdateStandaloneStatus_def
    by (intro keeps_seqG same_order keyed_set(2) keyed_replyRa assms(1)) (use assms(2) [unfolded standalone_identity_laws_def] in auto)
  show "keeps (same v) (UpdateStandaloneSpec E ns q)"
    unfolding UpdateStandaloneSpec_def
    by (intro keyed_replyRa assms(1)) (use assms(2) [unfolded standalone_identity_laws_def] in blast)
qed

lemma keyedRa_Validate:
  assumes "keyedRa v"
  shows "keeps (same v) (onRa p standalone_Validate)"
proof -
  have "keeps (same ra_meta) standalone_Validate"
    unfolding standalone_Validate_def
    by (intro keeps_readG keeps_seqG keeps_whenG keeps_ifG keeps_leaf keeps_modifyG same_order)
       (auto simp: same_def keeps_def standalone_onConfig_def zoomG_def upd_ra_spec_def split_def)
  then show ?thesis using assms by (auto simp: keeps_def same_def onRa_def zoomG_def keyedRa_def split_def)
qed

lemma raView_cache: "keeps (same (raView p)) (standalone_Cache q)"
  unfolding standalone_Cache_def standalone_Add_def standalone_Update_def standalone_Get_def ptr_defs
  by (intro internal_intros) (auto simp: keeps_def same_def gaugeView_def raKey_def bindG_def tryG_def)

text \<open>Writing back the object that the workload client derived from the one it read.\<close>

lemma standalone_generateRedisStatefulSet_meta [simp]:
  "ra_meta (snd (standalone_generateRedisStatefulSet rc labels refs)) = ra_meta rc"
  by (simp add: standalone_generateRedisStatefulSet_def Let_def)

lemma keyedRa_EnsureRedisStatefulset:
  assumes "keyedRa v"
  shows "keeps (same v) (standalone_EnsureRedisStatefulset E q labels refs)"
proof -
  have "v w' = v w" if run: "standalone_EnsureRedisStatefulset E q labels refs w = (r, w')" for w r w'
  proof -
    let ?rc = "w_ra w q"
    let ?R = "\<lambda>a b. metaKey (ra_meta (w_ra a q)) = metaKey (ra_meta ?rc) \<longrightarrow>
       v b = v a \<and> metaKey (ra_meta (w_ra b q)) = metaKey (ra_meta ?rc)"
    have order: "reflp ?R" "transp ?R" by (auto simp: reflp_def transp_def)
    have ext: "keeps ?R (extG f)" for f :: "'a \<Rightarrow> (GoErr + 'c) \<times> 'a"
      using assms by (auto simp: keeps_def extG_def keyedRa_def internal_def split: prod.split sum.split)
    have mark: "keeps ?R (modifyG (\<lambda>w. w\<lparr>w_ra := (w_ra w)(q := snd (standalone_generateRedisStatefulSet ?rc labels refs))\<rparr>))"
      using assms by (simp add: keeps_def keyedRa_def)
    have budget: "keeps ?R skipG" by (intro keeps_leaf order)
    from saw.ensure_frame [where p = q and R = ?R, OF order budget mark ext refl run] show ?thesis by simp
  qed
  then show ?thesis unfolding keeps_def same_def by (metis prod.collapse)
qed

lemma keyedRa_Ensure:
  assumes "keyedRa v"
  shows "keeps (same v) (standalone_Ensure E q labels refs)"
  unfolding standalone_Ensure_def standalone_client_defs object_client_defs getRa_def Let_def rangeG_def
  by (intro internal_intros internal_prims [OF keyed_internal(2) [OF assms]] keyedRa_EnsureRedisStatefulset [OF assms])

lemma internal_standalone_CheckAndHeal:
  assumes "internal v"
  shows "keeps (same v) (standalone_CheckAndHeal E m)"
  unfolding standalone_CheckAndHeal_def standalone_setRedisConfig_def standalone_GetRedisesIPs_def
    standalone_CheckRedisConfig_def standalone_CheckRedisNumber_def standalone_SetRedisCustomConfig_def
    redis_client_defs object_client_defs ptr_defs event_defs Let_def split_def
  by (intro internal_intros internal_prims [OF assms])

lemma keyedRa_report:
  assumes "keyedRa v" and "standalone_identity_laws E"
  shows "keeps (same v) (standalone_reportFailed E q err)" "keeps (same v) (standalone_updateStatus E m)"
  unfolding standalone_reportFailed_def standalone_updateStatus_def standalone_announce_def getRa_def getMeta_def
    event_defs Let_def
  by (intro internal_intros internal_prims [OF keyed_internal(2) [OF assms(1)]] keyedRa_SetCondition keyedRa_updates assms)+

lemmas raView_SetCondition = keyedRa_SetCondition [OF raView_keyed]
  and raView_updates = keyedRa_updates [OF raView_keyed]
  and raView_Validate = keyedRa_Validate [OF raView_keyed]
  and raView_Ensure = keyedRa_Ensure [OF raView_keyed]
  and raView_CheckAndHeal = internal_standalone_CheckAndHeal [OF raView_internal]
  and raView_report = keyedRa_report [OF raView_keyed]

interpretation rag: gauge_reporter "raKey p" "standalone_setError p"
    "getRa p (\<lambda>rc. SetClusterOK (ra_namespace rc) (ra_name rc))" for p
  by unfold_locales (simp_all add: standalone_setError_def getRa_def SetClusterError_def SetClusterOK_def raKey_def metaKey_def)

lemma raView_checkFailed:
  assumes "standalone_identity_laws E"
  shows "gaugeOut (raKey p) (standalone_checkFailed E p err)"
  unfolding standalone_checkFailed_def event_defs getRa_def Let_def
  by (intro rag.gaugeOut_setError internal_intros internal_prims [OF raView_internal] raView_SetCondition
      raView_updates [OF assms] raView_report [OF assms] failsOnly_rules)

lemma raView_reportHealthy:
  assumes "standalone_identity_laws E"
  shows "gaugeOut (raKey p) (standalone_reportHealthy E p)"
proof -
  have "gaugeOut (raKey p) (seqG (HealthCluster (ra_meta rc)) (seqG (standalone_SetConditionG E p SetReadyCondition ''Cluster ok'')
      (seqG (UpdateStandaloneStatus E (ra_namespace rc) p)
        (getRa p (\<lambda>rc'. SetClusterOK (ra_namespace rc') (ra_name rc'))))))" for rc
    unfolding event_defs
    by (intro gaugeOut_seqG rag.gaugeOut_setOK internal_prims [OF raView_internal] raView_SetCondition raView_updates [OF assms])
  then show ?thesis unfolding standalone_reportHealthy_def getRa_def [of p] by (rule gaugeOut_readG)
qed

lemma standalone_Do_gaugeOut:
  assumes "standalone_identity_laws E"
  shows "gaugeOut (raKey p) (standalone_Do E p)"
  unfolding standalone_Do_def event_defs getRa_def getMeta_def
  by (intro gaugeOut_tryG gaugeOut_readG gaugeOut_bindG rag.gaugeOut_setError gaugeOut_seqG gaugeOut_if gaugeOut_fail
      raView_Validate raView_cache raView_Ensure raView_CheckAndHeal raView_report [OF assms]
      raView_checkFailed [OF assms] raView_reportHealthy [OF assms] raView_updates [OF assms]
      internal_prims [OF raView_internal] internal_intros failsOnly_rules)


lemma memEnv_standalones:
  "E_standalones memEnv = memStatus ra_meta (\<lambda>a b. a\<lparr>ra_spec := ra_spec b\<rparr>) ma_standalones (\<lambda>s. ma_standalones_update (\<lambda>_. s))"
  by (simp only: memEnv_def env.select_convs)

lemma memEnv_standalone_identity: "standalone_identity_laws memEnv"
  by (auto simp: standalone_identity_laws_def memEnv_standalones memStatus_def memKind_def split: option.splits)

text \<open>An object that asks for two servers is rejected.\<close>

definition bigWorld :: "memApi world" where
  "bigWorld = (initWorld emptyMem)\<lparr>w_ra := \<lambda>_. upd_ra_spec (sa_Size_update (\<lambda>_. 2)) (standaloneNamed ''db'' ''x'')\<rparr>"


subsection \<open>Every object exists\<close>

definition standaloneServices :: "RedisStandalone \<Rightarrow> string set" where
  "standaloneServices rc = {standalone_GetRedisName rc, standalone_GetRedisName rc @ ''-headless''} \<union>
     (if ex_Enabled (sa_Exporter (ra_spec rc)) then {standalone_GetRedisName rc @ ''-monitor''} else {})"

definition standaloneConfigMaps :: "RedisStandalone \<Rightarrow> string set" where
  "standaloneConfigMaps rc = {standalone_GetRedisName rc, standalone_GetRedisShutdownConfigMapName rc}"

lemma standalone_keys:
  "om_name (svc_meta (standalone_generateRedisService rc labels refs)) = standalone_GetRedisName rc"
  "om_namespace (svc_meta (standalone_generateRedisService rc labels refs)) = ra_namespace rc"
  "om_name (svc_meta (generateHeadlessRedisService rc labels refs)) = standalone_GetRedisName rc @ ''-headless''"
  "om_namespace (svc_meta (generateHeadlessRedisService rc labels refs)) = ra_namespace rc"
  "om_name (svc_meta (standalone_generateRedisMonitorService rc labels refs)) = standalone_GetRedisName rc @ ''-monitor''"
  "om_namespace (svc_meta (standalone_generateRedisMonitorService rc labels refs)) = ra_namespace rc"
  "om_name (cm_meta (standalone_generateRedisShutdownConfigMap rc labels refs)) = standalone_GetRedisShutdownConfigMapName rc"
  "om_namespace (cm_meta (standalone_generateRedisShutdownConfigMap rc labels refs)) = ra_namespace rc"
  by (simp_all add: standalone_generateRedisService_def generateHeadlessRedisService_def
      standalone_generateRedisMonitorService_def standalone_generateRedisShutdownConfigMap_def objectMeta_def Let_def)

text \<open>Reading the entries of a map does not touch the objects that are stored.\<close>

definition range_keeps :: "'e env \<Rightarrow> 'e stores \<Rightarrow> bool" where
  "range_keeps E db \<longleftrightarrow> (\<forall>m x. st_services db (snd (E_range E m x)) = st_services db x
     \<and> st_configMaps db (snd (E_range E m x)) = st_configMaps db x
     \<and> st_statefulSets db (snd (E_range E m x)) = st_statefulSets db x)"

lemma ensures_configMap_written:
  assumes "serves E db" and "range_keeps E db"
  shows "ensuresG db {} {(ra_namespace rc, standalone_GetRedisName rc)} {} (standalone_EnsureRedisConfigMap E rc labels refs)"
  unfolding ensuresG_def
proof (intro allI impI)
  fix w w'
  assume "standalone_EnsureRedisConfigMap E rc labels refs w = (Ok (), w')"
  then obtain kvs x cm where range: "E_range E (entries (sa_Config (ra_spec rc))) (w_ext w) = (kvs, x)"
    and run: "CreateIfNotExistsConfigMap E (ra_namespace rc) cm (w\<lparr>w_ext := x\<rparr>) = (Ok (), w')"
    and key: "om_namespace (cm_meta cm) = ra_namespace rc" "om_name (cm_meta cm) = standalone_GetRedisName rc"
    by (auto simp: standalone_EnsureRedisConfigMap_def standalone_generateRedisConfigMap_def rangeG_def totalG_def
        bindG_Ok_iff Let_def objectMeta_def split: prod.splits)
  from assms(2) range have "grown db {} {} {} (w_ext w) x"
    by (auto simp: range_keeps_def grown_def map_le_def) (metis snd_conv)+
  from grown_trans [OF this ensuresGD [OF ensuresG_configMap [OF assms(1) key(1)] run, simplified]]
  show "grown db {} {(ra_namespace rc, standalone_GetRedisName rc)} {} (w_ext w) (w_ext w')" using key by simp
qed

lemma ensures_standalone_objects:
  assumes "serves E db"
  shows "ensuresG db {(ra_namespace rc, standalone_GetRedisName rc)} {} {} (standalone_EnsureRedisService E rc labels refs)"
    "ensuresG db {(ra_namespace rc, standalone_GetRedisName rc @ ''-headless'')} {} {} (EnsureRedisHeadlessService E rc labels refs)"
    "ensuresG db {} {(ra_namespace rc, standalone_GetRedisShutdownConfigMapName rc)} {}
       (standalone_EnsureRedisShutdownConfigMap E rc labels refs)"
    "ensuresG db (if ex_Enabled (sa_Exporter (ra_spec rc)) then {(ra_namespace rc, standalone_GetRedisName rc @ ''-monitor'')} else {})
       {} {} (if ex_Enabled (sa_Exporter (ra_spec rc)) then standalone_EnsureRedisMonitorService E rc labels refs else skipG)"
  using ensuresG_service [OF assms, of "standalone_generateRedisService rc labels refs" "ra_namespace rc"]
    ensuresG_service [OF assms, of "generateHeadlessRedisService rc labels refs" "ra_namespace rc"]
    ensuresG_service [OF assms, of "standalone_generateRedisMonitorService rc labels refs" "ra_namespace rc"]
    ensuresG_configMap [OF assms, of "standalone_generateRedisShutdownConfigMap rc labels refs" "ra_namespace rc"]
    ensuresG_existing [OF assms, of "ra_namespace rc" "sa_ShutdownConfigMap (ra_spec rc)"]
  by (simp_all add: standalone_keys standalone_EnsureRedisService_def EnsureRedisHeadlessService_def
      standalone_EnsureRedisMonitorService_def standalone_EnsureRedisShutdownConfigMap_def
      standalone_GetRedisShutdownConfigMapName_def split: if_splits)

definition standalone_ensureObjects :: "'e env \<Rightarrow> RedisStandalone \<Rightarrow> strmap \<Rightarrow> OwnerReference list \<Rightarrow> ('e, unit) op" where
  "standalone_ensureObjects E rc labels refs =
     seqG (standalone_EnsureRedisService E rc labels refs) (seqG (EnsureRedisHeadlessService E rc labels refs)
    (seqG (standalone_EnsureRedisConfigMap E rc labels refs) (seqG (standalone_EnsureRedisShutdownConfigMap E rc labels refs)
          (if ex_Enabled (sa_Exporter (ra_spec rc)) then standalone_EnsureRedisMonitorService E rc labels refs else skipG))))"

lemma ensures_standalone_ensureObjects:
  assumes "serves E db" and "range_keeps E db"
  shows "ensuresG db (Pair (ra_namespace rc) ` standaloneServices rc) (Pair (ra_namespace rc) ` standaloneConfigMaps rc) {}
     (standalone_ensureObjects E rc labels refs)"
proof -
  note o = ensures_standalone_objects [OF assms(1), of rc labels refs]
  show ?thesis
    unfolding standalone_ensureObjects_def
    by (rule ensuresG_mono [OF ensuresG_seqG [OF o(1) ensuresG_seqG [OF o(2) ensuresG_seqG
          [OF ensures_configMap_written [OF assms] ensuresG_seqG [OF o(3,4)]]]]])
       (auto simp: standaloneServices_def standaloneConfigMaps_def)
qed

lemma standalone_Ensure_split:
  assumes "w_ra w p = rc" and "standalone_Ensure E p labels refs w = (Ok (), w')"
  obtains w1 where "standalone_ensureObjects E rc labels refs w = (Ok (), w1)" "w_ra w1 p = rc"
    "standalone_EnsureRedisStatefulset E p labels refs w1 = (Ok (), w')"
proof -
  obtain w1 where r: "standalone_ensureObjects E rc labels refs w = (Ok (), w1)"
    "standalone_EnsureRedisStatefulset E p labels refs w1 = (Ok (), w')"
    using assms unfolding standalone_Ensure_def standalone_ensureObjects_def getRa_def readG_run by (auto simp: seqG_Ok_iff)
  have ext: "keeps extOnly (standalone_ensureObjects E rc labels refs)"
    unfolding standalone_ensureObjects_def standalone_client_defs Let_def
    by (intro keeps_extOnly_comb keeps_if wrappers_extOnly)
  have "w_ra w1 p = rc"
    using keepsD [OF ext r(1)] assms(1) by (metis extOnly_def world.select_convs(4) world.surjective world.update_convs(1))
  with r that show thesis by blast
qed

lemma standalone_Ensure_stores:
  assumes "serves E db" and "range_keeps E db" and "w_ra w p = rc"
    and "stored_as_written E (fst (standalone_generateRedisStatefulSet rc labels refs))"
    and "standalone_Ensure E p labels refs w = (Ok (), w')"
  shows "Pair (ra_namespace rc) ` standaloneServices rc \<subseteq> dom (st_services db (w_ext w'))
     \<and> Pair (ra_namespace rc) ` standaloneConfigMaps rc \<subseteq> dom (st_configMaps db (w_ext w'))
     \<and> st_services db (w_ext w) \<subseteq>\<^sub>m st_services db (w_ext w')
     \<and> st_configMaps db (w_ext w) \<subseteq>\<^sub>m st_configMaps db (w_ext w')
     \<and> (\<exists>ss. st_statefulSets db (w_ext w') (ra_namespace rc, standalone_GetRedisName rc) = Some ss
          \<and> \<not> workloadOutdated (sa_Resources (ra_spec rc)) (sa_Size (ra_spec rc)) ss \<and> \<not> standalone_exporterChanged rc ss)
     \<and> dom (st_statefulSets db (w_ext w)) \<subseteq> dom (st_statefulSets db (w_ext w'))"
proof -
  obtain w1 where r: "standalone_ensureObjects E rc labels refs w = (Ok (), w1)" "w_ra w1 p = rc"
    "standalone_EnsureRedisStatefulset E p labels refs w1 = (Ok (), w')"
    using standalone_Ensure_split [OF assms(3,5)] by blast
  have "keeps (same (otherStores db)) (standalone_EnsureRedisStatefulset E p labels refs)"
  proof -
    have set: "keeps (same (otherStores db)) (setRa p f)" for f by (simp add: keeps_def same_def setRa_def)
    show ?thesis
      unfolding standalone_EnsureRedisStatefulset_def object_client_defs getRa_def Let_def split_def
      by (intro keeps_ensure keeps_readG kind_keeps_ops [OF serves_separate(4) [OF assms(1)]] set)
  qed
  from keeps_sameD [OF this r(3)] have others: "otherStores db w' = otherStores db w1" .
  obtain ss where ss: "st_statefulSets db (w_ext w') =
      (st_statefulSets db (w_ext w1))((ra_namespace rc, standalone_GetRedisName rc) \<mapsto> ss)"
    "\<not> workloadOutdated (sa_Resources (ra_spec rc)) (sa_Size (ra_spec rc)) ss \<and> \<not> standalone_exporterChanged rc ss"
    using saw.ensure_reaches [OF serves_separate(2,1) [OF assms(1)] assms(4) r(2,3)] by (auto simp: metaKey_def)
  from grown_trans [OF ensuresGD [OF ensures_standalone_ensureObjects [OF assms(1,2)] r(1)] grown_workload [OF others ss(1)]]
  show ?thesis using ss by (simp add: grown_def)
qed


definition freshStandalone :: "memApi world" where
  "freshStandalone = (initWorld emptyMem)\<lparr>w_ra := \<lambda>_. standaloneNamed ''db'' ''x''\<rparr>"

lemma fresh_configMap:
  "succeedsG (lacking K rs ra) (standalone_EnsureRedisConfigMap memEnv rc labels refs) (lacking K rs ra)"
  unfolding succeedsG_def
proof (intro allI impI)
  fix w assume w: "lacking K rs ra w"
  let ?kvs = "fst (E_range memEnv (entries (sa_Config (ra_spec rc))) (w_ext w))"
  let ?cm = "\<lparr>cm_meta = objectMeta (standalone_GetRedisName rc) (ra_namespace rc)
      (MergeLabels [labels, standalone_generateSelectorLabels RedisRoleName (ra_name rc)]) refs,
    cm_data = mapLit [(RedisConfigFileName, redisConf (sa_Password (ra_spec rc)) ?kvs)]\<rparr>"
  have key: "om_namespace (cm_meta ?cm) = ra_namespace rc" by (simp add: objectMeta_def)
  have run: "standalone_EnsureRedisConfigMap memEnv rc labels refs w = CreateIfNotExistsConfigMap memEnv (ra_namespace rc) ?cm w"
    by (simp add: standalone_EnsureRedisConfigMap_def standalone_generateRedisConfigMap_def Let_def rangeG_def totalG_def
        bindG_run memEnv_range_run)
  show "\<exists>w'. standalone_EnsureRedisConfigMap memEnv rc labels refs w = (Ok (), w') \<and> lacking K rs ra w'"
    using memEnv_succeeds(2) [OF key] w unfolding run succeedsG_def by blast
qed

lemma fresh_standalone_objects:
  assumes "sa_ShutdownConfigMap (ra_spec rc) = []"
  shows "succeedsG (lacking K rs ra) (standalone_ensureObjects memEnv rc labels refs) (lacking K rs ra)"
proof -
  let ?I = "lacking K rs ra"
  have seq: "succeedsG ?I m ?I \<Longrightarrow> succeedsG ?I n ?I \<Longrightarrow> succeedsG ?I (seqG m n) ?I" for m n :: "(memApi, unit) op"
    by (rule succeedsG_seqG)
  have shutdown: "standalone_EnsureRedisShutdownConfigMap memEnv rc labels refs =
      CreateIfNotExistsConfigMap memEnv (ra_namespace rc) (standalone_generateRedisShutdownConfigMap rc labels refs)"
    by (simp add: standalone_EnsureRedisShutdownConfigMap_def assms)
  show ?thesis
    unfolding standalone_ensureObjects_def shutdown standalone_EnsureRedisService_def EnsureRedisHeadlessService_def
      standalone_EnsureRedisMonitorService_def
    by (intro seq succeedsG_if succeedsG_skip memEnv_succeeds fresh_configMap) (simp_all add: standalone_keys)
qed

lemma fresh_standalone_runs: "fst (standalone_Ensure memEnv 0 None [] freshStandalone) = Ok ()"
proof -
  let ?rc = "standaloneNamed ''db'' ''x''"
  let ?K = "{(''db'', standalone_GetRedisName ?rc)}" and ?ra = "\<lambda>_. ?rc" and ?rs = "\<lambda>_. zeroSentinel"
  have ns: "ra_namespace ?rc = ''db''" and sc: "sa_ShutdownConfigMap (ra_spec ?rc) = []"
    by (simp_all add: standaloneNamed_def zeroStandalone_def zeroStandaloneSpec_def)
  have "lacking ?K ?rs ?ra freshStandalone" by (simp add: lacking_def freshStandalone_def initWorld_def emptyMem_def)
  then obtain w1 where w1: "standalone_ensureObjects memEnv ?rc None [] freshStandalone = (Ok (), w1)" "lacking ?K ?rs ?ra w1"
    using fresh_standalone_objects [OF sc] unfolding succeedsG_def by blast
  then obtain w2 where w2: "standalone_EnsureRedisStatefulset memEnv 0 None [] w1 = (Ok (), w2)"
    by (simp add: standalone_EnsureRedisStatefulset_def getRa_def setRa_def seqG_case split_def Let_def wrapper_defs
        tryG_def bindG_def extG_def memEnv_stores memKind_def metaKey_def lacking_def ns)
  have "w_ra freshStandalone 0 = ?rc" by (simp add: freshStandalone_def)
  then have "standalone_Ensure memEnv 0 None [] freshStandalone = (Ok (), w2)"
    using w1(1) w2 unfolding standalone_Ensure_def standalone_ensureObjects_def getRa_def readG_run by (auto simp: seqG_Ok_iff)
  then show ?thesis by simp
qed


subsection \<open>Pods of two kinds\<close>

lemma roleLabels_standalone:
  "MergeLabels [labels, standalone_generateSelectorLabels component name] = roleLabels labels component name"
  by (simp add: roleLabels_def standalone_generateSelectorLabels_def generateSelectorLabels_def)

text \<open>
  C25. A RedisSentinel and a RedisStandalone of the same name, namespace and labels select each
  other's pods: the two controllers give the pods of both Redis workloads the same labels, so
  the workload of the one matches the pods of the other, and the Sentinel controller lists,
  counts and reconfigures the standalone server as one of its own.
\<close>

theorem selectors_shared_across_kinds:
  assumes "om_namespace (ra_meta ra) = rs_namespace rc" and "ra_name ra = rs_name rc"
    and "om_labels (ra_meta ra) = om_labels (rs_meta rc)"
  shows "\<exists>sel. ss_selector (fst (generateRedisStatefulSet rc (sentinel_getLabels rc) refs)) = Some sel
     \<and> ss_selector (fst (standalone_generateRedisStatefulSet ra (standalone_getLabels ra) refs')) = Some sel
     \<and> selects sel (pt_labels (ss_template (fst (standalone_generateRedisStatefulSet ra (standalone_getLabels ra) refs'))))
     \<and> selects sel (pt_labels (ss_template (fst (generateRedisStatefulSet rc (sentinel_getLabels rc) refs))))"
proof -
  have "standalone_getLabels ra = sentinel_getLabels rc"
    using assms by (simp add: standalone_getLabels_def sentinel_getLabels_def)
  then show ?thesis
    using assms(2) by (simp add: standalone_generateRedisStatefulSet_def roleLabels_standalone Let_def)
qed

theorem selectors_shared_across_kinds_witness:
  "\<exists>sel. ss_selector (fst (standalone_generateRedisStatefulSet (standaloneNamed ''db'' ''x'')
        (standalone_getLabels (standaloneNamed ''db'' ''x'')) [])) = Some sel
     \<and> selects sel (pt_labels (ss_template (fst (generateRedisStatefulSet (sentinelNamed ''db'' ''x'')
          (sentinel_getLabels (sentinelNamed ''db'' ''x'')) []))))"
  using selectors_shared_across_kinds [of "standaloneNamed ''db'' ''x''" "sentinelNamed ''db'' ''x''" "[]" "[]"]
  by (auto simp: standaloneNamed_def sentinelNamed_def)


end
