(* ===== verification/Ensure_Stable.thy ===== *)
theory Ensure_Stable
  imports Standalone_Handler
begin

text \<open>
  One pass of \<open>Ensure\<close> is enough: a second pass over the objects that a successful pass left
  behind writes nothing. To state that no write is even attempted, the second pass is compared
  with the same pass against \<open>readOnly E\<close>, a server that refuses every write:
  \<open>agreesG I m n\<close> says that from a state of \<open>I\<close> the runs \<open>m\<close> and \<open>n\<close> are equal and stay in \<open>I\<close>.
\<close>

subsection \<open>Servers that refuse writes\<close>

definition refusing :: "('o, 'e) KindClient \<Rightarrow> ('o, 'e) KindClient" where
  "refusing kc = kc\<lparr>kc_Create := \<lambda>_ x. (Inl (ErrorString ''read only''), x),
     kc_Update := \<lambda>_ x. (Inl (ErrorString ''read only''), x),
     kc_StatusUpdate := \<lambda>_ x. (Inl (ErrorString ''read only''), x),
     kc_Delete := \<lambda>_ x. (Inl (ErrorString ''read only''), x)\<rparr>"

definition readOnly :: "'e env \<Rightarrow> 'e env" where
  "readOnly E = E\<lparr>E_services := refusing (E_services E), E_configMaps := refusing (E_configMaps E),
     E_statefulSets := refusing (E_statefulSets E), E_pdbs := refusing (E_pdbs E)\<rparr>"

lemma readOnly_simps [simp]:
  "kc_Get (refusing kc) = kc_Get kc"
  "E_services (readOnly E) = refusing (E_services E)" "E_configMaps (readOnly E) = refusing (E_configMaps E)"
  "E_statefulSets (readOnly E) = refusing (E_statefulSets E)" "E_pdbs (readOnly E) = refusing (E_pdbs E)"
  "E_range (readOnly E) = E_range E"
  by (simp_all add: refusing_def readOnly_def)

definition agreesG :: "('s \<Rightarrow> bool) \<Rightarrow> ('s, 'a) go \<Rightarrow> ('s, 'a) go \<Rightarrow> bool" where
  "agreesG I m n \<longleftrightarrow> (\<forall>s. I s \<longrightarrow> m s = n s \<and> I (snd (m s)))"

lemma agreesGD: "agreesG I m n \<Longrightarrow> I s \<Longrightarrow> m s = n s" "agreesG I m n \<Longrightarrow> I s \<Longrightarrow> I (snd (m s))"
  by (auto simp: agreesG_def)

lemma agreesG_leaf:
  "agreesG I (retG a) (retG a)" "agreesG I (failG e) (failG e)" "agreesG I (derefG q) (derefG q)"
  "agreesG I (indexG xs i) (indexG xs i)"
  by (auto simp: agreesG_def derefG_def indexG_def split: option.splits)

lemma agreesG_tryG:
  assumes "agreesG I m n" "\<And>e. agreesG I (h e) (h' e)" "\<And>a. agreesG I (k a) (k' a)"
  shows "agreesG I (tryG m h k) (tryG n h' k')"
  unfolding agreesG_def
proof (intro allI impI)
  fix s assume I: "I s"
  obtain r t where m: "m s = (r, t)" by (cases "m s")
  have t: "I t" using agreesGD(2) [OF assms(1) I] by (simp add: m)
  have n: "n s = (r, t)" using agreesGD(1) [OF assms(1) I] m by simp
  note eqs = agreesGD(1) [OF assms(2) t] agreesGD(1) [OF assms(3) t] and keep = agreesGD(2) [OF assms(2) t] agreesGD(2) [OF assms(3) t]
  show "tryG m h k s = tryG n h' k' s \<and> I (snd (tryG m h k s))"
    using eqs keep t by (cases r) (simp_all add: tryG_def m n)
qed

lemma agreesG_seq:
  "agreesG I m n \<Longrightarrow> (\<And>a. agreesG I (k a) (k' a)) \<Longrightarrow> agreesG I (bindG m k) (bindG n k')"
  "agreesG I m n \<Longrightarrow> agreesG I m' n' \<Longrightarrow> agreesG I (seqG m m') (seqG n n')"
  unfolding seqG_def bindG_def by (intro agreesG_tryG agreesG_leaf; assumption)+

lemma agreesG_if:
  "(b \<Longrightarrow> agreesG I m n) \<Longrightarrow> (\<not> b \<Longrightarrow> agreesG I m' n') \<Longrightarrow> agreesG I (if b then m else m') (if b then n else n')"
  by simp

lemma agreesG_readG:
  "(\<And>s. I s \<Longrightarrow> f s = a) \<Longrightarrow> agreesG I (k a) (k' a) \<Longrightarrow> agreesG I (readG f k) (readG f k')"
  by (auto simp: agreesG_def)

subsection \<open>Objects that are present\<close>

text \<open>
  \<open>serves_all E db pdbs\<close> adds the disruption budgets \<open>pdbs\<close> to the stores of \<open>serves\<close>;
  \<open>settled db pdbs V P w\<close> says that the stored objects are exactly \<open>V\<close> and that the custom
  resources in memory satisfy \<open>P\<close>.
\<close>

definition serves_all :: "'e env \<Rightarrow> 'e stores \<Rightarrow> ('e \<Rightarrow> string \<times> string \<Rightarrow> PodDisruptionBudget option) \<Rightarrow> bool" where
  "serves_all E db pdbs \<longleftrightarrow> serves E db \<and> api_laws (E_pdbs E) pdb_meta pdbs \<and>
     kind_keeps (E_services E) pdbs \<and> kind_keeps (E_configMaps E) pdbs \<and> kind_keeps (E_statefulSets E) pdbs"

definition allStores :: "'e stores \<Rightarrow> ('e \<Rightarrow> string \<times> string \<Rightarrow> PodDisruptionBudget option) \<Rightarrow> 'e \<Rightarrow>
    (string \<times> string \<Rightarrow> Service option) \<times> (string \<times> string \<Rightarrow> ConfigMap option) \<times>
    (string \<times> string \<Rightarrow> StatefulSet option) \<times> (string \<times> string \<Rightarrow> PodDisruptionBudget option)" where
  "allStores db pdbs x = (st_services db x, st_configMaps db x, st_statefulSets db x, pdbs x)"

lemma get_keeps_stores:
  fixes E :: "'a env"
  assumes "serves_all E db pdbs"
  shows "allStores db pdbs (snd (kc_Get (E_services E) ns n x)) = allStores db pdbs x"
    "allStores db pdbs (snd (kc_Get (E_configMaps E) ns n x)) = allStores db pdbs x"
    "allStores db pdbs (snd (kc_Get (E_statefulSets E) ns n x)) = allStores db pdbs x"
    "allStores db pdbs (snd (kc_Get (E_pdbs E) ns n x)) = allStores db pdbs x"
proof -
  have own: "store (snd (kc_Get kc ns n x)) = store x" if "api_laws kc meta store"
    for kc :: "('o, 'a) KindClient" and meta store
    using api_lawsD(1) [OF that] by (cases "kc_Get kc ns n x") simp
  note laws = assms [unfolded serves_all_def api_server_def kind_keeps_def]
  show "allStores db pdbs (snd (kc_Get (E_services E) ns n x)) = allStores db pdbs x"
    using laws own [of "E_services E" svc_meta] by (simp add: allStores_def)
  show "allStores db pdbs (snd (kc_Get (E_configMaps E) ns n x)) = allStores db pdbs x"
    using laws own [of "E_configMaps E" cm_meta] by (simp add: allStores_def)
  show "allStores db pdbs (snd (kc_Get (E_statefulSets E) ns n x)) = allStores db pdbs x"
    using laws own [of "E_statefulSets E" ss_meta] by (simp add: allStores_def)
  show "allStores db pdbs (snd (kc_Get (E_pdbs E) ns n x)) = allStores db pdbs x"
    using laws own [of "E_pdbs E" pdb_meta] by (simp add: allStores_def)
qed

text \<open>
  What makes a second pass silent: a get of an object that is stored cannot report \<open>NotFound\<close>,
  so that the branch that creates the object is dead.
\<close>

lemma get_silent:
  assumes laws: "api_laws kc meta store"
    and I: "\<And>w. I w \<Longrightarrow> store (w_ext w) (ns, n) = Some o1"
      "\<And>w. I w \<Longrightarrow> I (w\<lparr>w_ext := snd (kc_Get kc ns n (w_ext w))\<rparr>)"
    and k: "agreesG I (k o1) (k' o1)"
  shows "agreesG I
     (tryG (getObj kc ns n) (\<lambda>err. if IsNotFound err then c else failG err) k)
     (tryG (getObj (refusing kc) ns n) (\<lambda>err. if IsNotFound err then c' else failG err) k')"
  unfolding agreesG_def
proof (intro allI impI)
  fix w assume w: "I w"
  obtain r x where get: "kc_Get kc ns n (w_ext w) = (r, x)" by (cases "kc_Get kc ns n (w_ext w)")
  have stay: "I (w\<lparr>w_ext := x\<rparr>)" using I(2) [OF w] get by simp
  show "tryG (getObj kc ns n) (\<lambda>err. if IsNotFound err then c else failG err) k w =
      tryG (getObj (refusing kc) ns n) (\<lambda>err. if IsNotFound err then c' else failG err) k' w \<and>
      I (snd (tryG (getObj kc ns n) (\<lambda>err. if IsNotFound err then c else failG err) k w))"
  proof (cases r)
    case (Inl e)
    then have "\<not> IsNotFound e" using api_lawsD(3) [OF laws] get I(1) [OF w] by fastforce
    then show ?thesis using stay by (simp add: tryG_def getObj_def extG_def get Inl)
  next
    case (Inr a)
    then have "a = o1" using api_lawsD(2) [OF laws] get I(1) [OF w] by fastforce
    then show ?thesis using agreesGD [OF k stay] by (simp add: tryG_def getObj_def extG_def get Inr)
  qed
qed

definition settled :: "'e stores \<Rightarrow> ('e \<Rightarrow> string \<times> string \<Rightarrow> PodDisruptionBudget option) \<Rightarrow> 'e \<Rightarrow> ('e world \<Rightarrow> bool)
    \<Rightarrow> 'e world \<Rightarrow> bool" where
  "settled db pdbs x P w \<longleftrightarrow> allStores db pdbs (w_ext w) = allStores db pdbs x \<and> P w"

lemma settledD:
  assumes "settled db pdbs x P w"
  shows "st_services db (w_ext w) = st_services db x" "st_configMaps db (w_ext w) = st_configMaps db x"
    "st_statefulSets db (w_ext w) = st_statefulSets db x" "pdbs (w_ext w) = pdbs x" "P w"
  using assms by (simp_all add: settled_def allStores_def)

definition memoryOnly :: "('e world \<Rightarrow> bool) \<Rightarrow> bool" where
  "memoryOnly P \<longleftrightarrow> (\<forall>w x. P (w\<lparr>w_ext := x\<rparr>) = P w)"

lemma settled_get:
  assumes "serves_all E db pdbs" and "memoryOnly P" and "settled db pdbs x P w"
  shows "settled db pdbs x P (w\<lparr>w_ext := snd (kc_Get (E_services E) ns n (w_ext w))\<rparr>)"
    "settled db pdbs x P (w\<lparr>w_ext := snd (kc_Get (E_configMaps E) ns n (w_ext w))\<rparr>)"
    "settled db pdbs x P (w\<lparr>w_ext := snd (kc_Get (E_statefulSets E) ns n (w_ext w))\<rparr>)"
    "settled db pdbs x P (w\<lparr>w_ext := snd (kc_Get (E_pdbs E) ns n (w_ext w))\<rparr>)"
  using assms(2,3) by (simp_all add: settled_def get_keeps_stores [OF assms(1)] memoryOnly_def)

lemma stable_objects:
  assumes "serves_all E db pdbs" and "memoryOnly P"
  shows "(ns, om_name (svc_meta s)) \<in> dom (st_services db x) \<Longrightarrow>
      agreesG (settled db pdbs x P) (CreateIfNotExistsService E ns s) (CreateIfNotExistsService (readOnly E) ns s)"
    "(ns, om_name (cm_meta c)) \<in> dom (st_configMaps db x) \<Longrightarrow>
      agreesG (settled db pdbs x P) (CreateIfNotExistsConfigMap E ns c) (CreateIfNotExistsConfigMap (readOnly E) ns c)"
    "(ns, om_name (pdb_meta b)) \<in> dom (pdbs x) \<Longrightarrow>
      agreesG (settled db pdbs x P) (CreateIfNotExistsPodDisruptionBudget E ns b)
        (CreateIfNotExistsPodDisruptionBudget (readOnly E) ns b)"
proof -
  note laws = assms(1) [unfolded serves_all_def api_server_def] and get = settled_get [OF assms]
  show "agreesG (settled db pdbs x P) (CreateIfNotExistsService E ns s) (CreateIfNotExistsService (readOnly E) ns s)"
    if "(ns, om_name (svc_meta s)) \<in> dom (st_services db x)"
    using that laws unfolding CreateIfNotExistsService_def GetService_def readOnly_simps
    by (auto intro!: get_silent agreesG_leaf get dest: settledD(1))
  show "agreesG (settled db pdbs x P) (CreateIfNotExistsConfigMap E ns c) (CreateIfNotExistsConfigMap (readOnly E) ns c)"
    if "(ns, om_name (cm_meta c)) \<in> dom (st_configMaps db x)"
    using that laws unfolding CreateIfNotExistsConfigMap_def GetConfigMap_def readOnly_simps
    by (auto intro!: get_silent agreesG_leaf get dest: settledD(2))
  show "agreesG (settled db pdbs x P) (CreateIfNotExistsPodDisruptionBudget E ns b)
        (CreateIfNotExistsPodDisruptionBudget (readOnly E) ns b)"
    if "(ns, om_name (pdb_meta b)) \<in> dom (pdbs x)"
    using that laws unfolding CreateIfNotExistsPodDisruptionBudget_def GetPodDisruptionBudget_def readOnly_simps
    by (auto intro!: get_silent agreesG_leaf get dest: settledD(4))
qed

lemma stable_read:
  assumes "serves_all E db pdbs" and "memoryOnly P"
  shows "agreesG (settled db pdbs x P) (GetConfigMap E ns n) (GetConfigMap (readOnly E) ns n)"
  using settled_get(2) [OF assms]
  by (auto simp: agreesG_def GetConfigMap_def getObj_def extG_def split: prod.splits sum.splits) (metis snd_conv)+

text \<open>A workload that is not outdated is left alone.\<close>

lemma stable_workload:
  assumes "serves_all E db pdbs" and "memoryOnly P" and "st_statefulSets db x (ns, n) = Some ss" and "\<not> outdated ss"
  shows "agreesG (settled db pdbs x P)
    (tryG (GetStatefulSet E ns n) (\<lambda>err. if IsNotFound err then c else failG err)
       (\<lambda>old. bindG (indexG (ps_containers (pt_spec (ss_template old))) 0) (\<lambda>c.
          bindG (derefG (ss_replicas old)) (\<lambda>n. if outdated old then u else skipG))))
    (tryG (GetStatefulSet (readOnly E) ns n) (\<lambda>err. if IsNotFound err then c' else failG err)
       (\<lambda>old. bindG (indexG (ps_containers (pt_spec (ss_template old))) 0) (\<lambda>c.
          bindG (derefG (ss_replicas old)) (\<lambda>n. if outdated old then u' else skipG))))"
proof -
  note laws = assms(1) [unfolded serves_all_def api_server_def] and get = settled_get [OF assms(1,2)]
  show ?thesis
    unfolding GetStatefulSet_def readOnly_simps using laws assms(3)
    by (intro get_silent [where store = "st_statefulSets db" and meta = ss_meta and ?o1.0 = ss] agreesG_seq agreesG_leaf get)
       (auto simp: assms(4) agreesG_leaf dest: settledD(3))
qed


lemma stable_ensurer:
  assumes "serves_all E db pdbs" and "memoryOnly P" and "st_statefulSets db x (ns, n) = Some ss" and "\<not> outdated ss"
    and "agreesG (settled db pdbs x P) b b'"
    and run: "\<And>w. P w \<Longrightarrow> m w = seqG b (tryG (GetStatefulSet E ns n) (\<lambda>err. if IsNotFound err then c else failG err)
       (\<lambda>old. bindG (indexG (ps_containers (pt_spec (ss_template old))) 0) (\<lambda>_.
          bindG (derefG (ss_replicas old)) (\<lambda>_. if outdated old then u else skipG)))) w"
    and run': "\<And>w. P w \<Longrightarrow> m' w = seqG b' (tryG (GetStatefulSet (readOnly E) ns n) (\<lambda>err. if IsNotFound err then c' else failG err)
       (\<lambda>old. bindG (indexG (ps_containers (pt_spec (ss_template old))) 0) (\<lambda>_.
          bindG (derefG (ss_replicas old)) (\<lambda>_. if outdated old then u' else skipG)))) w"
  shows "agreesG (settled db pdbs x P) m m'"
proof -
  have "P w" if "settled db pdbs x P w" for w using that by (rule settledD(5))
  with agreesG_seq(2) [OF assms(5) stable_workload [where outdated = outdated, OF assms(1-4)]]
  show ?thesis unfolding agreesG_def by (simp add: run run')
qed

subsection \<open>RedisSentinel\<close>

text \<open>What a settled cluster has stored, for the resource \<open>rc\<close>.\<close>

definition budgetName :: "RedisSentinel \<Rightarrow> string \<Rightarrow> string \<times> string" where
  "budgetName rc n = (rs_namespace rc, GenerateName n (rs_name rc))"

definition sentinelSettled ::
  "'e stores \<Rightarrow> ('e \<Rightarrow> string \<times> string \<Rightarrow> PodDisruptionBudget option) \<Rightarrow> RedisSentinel \<Rightarrow> 'e \<Rightarrow> bool" where
  "sentinelSettled db pdbs rc x \<longleftrightarrow>
     Pair (rs_namespace rc) ` sentinelServices rc \<subseteq> dom (st_services db x) \<and>
     Pair (rs_namespace rc) ` sentinelConfigMaps rc \<subseteq> dom (st_configMaps db x) \<and>
     {budgetName rc UtilRedisName, budgetName rc SentinelName} \<subseteq> dom (pdbs x) \<and>
     (\<exists>ss. st_statefulSets db x (rs_namespace rc, sentinel_GetRedisName rc) = Some ss
        \<and> \<not> (workloadOutdated (sn_Resources (rs_spec rc)) (sn_Size (rs_spec rc)) ss \<or> exporterChanged rc ss)) \<and>
     (\<exists>ss. st_statefulSets db x (rs_namespace rc, GetSentinelName rc) = Some ss
        \<and> \<not> workloadOutdated (se_Resources (rs_sentinel rc)) (se_Replicas (rs_sentinel rc)) ss)"

lemma memoryOnly_rs [simp]: "memoryOnly (\<lambda>w. w_rs w p = rc)"
  by (simp add: memoryOnly_def)

lemma stable_ensureObjects:
  assumes "serves_all E db pdbs" and "memoryOnly P" and "sentinelSettled db pdbs rc x"
  shows "agreesG (settled db pdbs x P) (ensureObjects E rc labels refs) (ensureObjects (readOnly E) rc labels refs)"
proof -
  have svc: "(rs_namespace rc, n) \<in> dom (st_services db x)" if "n \<in> sentinelServices rc" for n
    using assms(3) that unfolding sentinelSettled_def by blast
  have cm: "(rs_namespace rc, n) \<in> dom (st_configMaps db x)" if "n \<in> sentinelConfigMaps rc" for n
    using assms(3) that unfolding sentinelSettled_def by blast
  show ?thesis
    unfolding ensureObjects_def EnsureRedisService_def EnsureSentinelService_def EnsureSentinelHeadlessService_def
      EnsureRedisMonitorService_def EnsureSentinelConfigMap_def EnsureSentinelProbeConfigMap_def
      EnsureRedisShutdownConfigMap_def
    by (intro agreesG_seq agreesG_if agreesG_leaf stable_objects [OF assms(1,2)] stable_read [OF assms(1,2)] svc cm)
       (simp_all add: generated_keys sentinelServices_def sentinelConfigMaps_def)
qed

lemma stable_budget:
  assumes "serves_all E db pdbs" and "memoryOnly P" and "budgetName rc n \<in> dom (pdbs x)"
  shows "agreesG (settled db pdbs x P) (ensurePodDisruptionBudget E rc n c labels refs)
     (ensurePodDisruptionBudget (readOnly E) rc n c labels refs)"
  unfolding ensurePodDisruptionBudget_def Let_def
  by (rule stable_objects(3) [OF assms(1,2)])
     (use assms(3) in \<open>simp add: budgetName_def generatePodDisruptionBudget_def objectMeta_def\<close>)

lemma stable_workloads:
  assumes "serves_all E db pdbs" and "sentinelSettled db pdbs rc x"
  shows "agreesG (settled db pdbs x (\<lambda>w. w_rs w p = rc)) (EnsureRedisStatefulset E p labels refs)
      (EnsureRedisStatefulset (readOnly E) p labels refs)"
    "agreesG (settled db pdbs x (\<lambda>w. w_rs w p = rc)) (EnsureSentinelStatefulset E rc labels refs)
      (EnsureSentinelStatefulset (readOnly E) rc labels refs)"
proof -
  let ?P = "\<lambda>w. w_rs w p = rc" and ?out2 = "workloadOutdated (se_Resources (rs_sentinel rc)) (se_Replicas (rs_sentinel rc))"
    and ?out1 = "\<lambda>ss. workloadOutdated (sn_Resources (rs_spec rc)) (sn_Size (rs_spec rc)) ss \<or> exporterChanged rc ss"
  let ?I = "settled db pdbs x ?P"
  note keys = assms(2) [unfolded sentinelSettled_def]
  obtain ss1 where ss1: "st_statefulSets db x (rs_namespace rc, sentinel_GetRedisName rc) = Some ss1"
    "\<not> (workloadOutdated (sn_Resources (rs_spec rc)) (sn_Size (rs_spec rc)) ss1 \<or> exporterChanged rc ss1)"
    using keys by blast
  obtain ss2 where ss2: "st_statefulSets db x (rs_namespace rc, GetSentinelName rc) = Some ss2"
    "\<not> workloadOutdated (se_Resources (rs_sentinel rc)) (se_Replicas (rs_sentinel rc)) ss2"
    using keys by blast
  have "budgetName rc UtilRedisName \<in> dom (pdbs x)" "budgetName rc SentinelName \<in> dom (pdbs x)" using keys by blast+
  note b = this [THEN stable_budget [OF assms(1) memoryOnly_rs]]
  show "agreesG ?I (EnsureSentinelStatefulset E rc labels refs) (EnsureSentinelStatefulset (readOnly E) rc labels refs)"
    by (rule stable_ensurer [where outdated = ?out2 and P = ?P, OF assms(1) memoryOnly_rs ss2 b(2)])
       (rule ssw.ensure_run [OF TrueI, unfolded generateSentinelStatefulSet_proj])+
  show "agreesG ?I (EnsureRedisStatefulset E p labels refs) (EnsureRedisStatefulset (readOnly E) p labels refs)"
    by (rule stable_ensurer [where outdated = ?out1 and P = ?P, OF assms(1) memoryOnly_rs ss1 b(1)])
       (rule rsw.ensure_run [unfolded generateRedisStatefulSet_proj], assumption)+
qed

lemma sentinel_Ensure_stable:
  assumes "serves_all E db pdbs" and "sentinelSettled db pdbs rc x"
  shows "agreesG (settled db pdbs x (\<lambda>w. w_rs w p = rc)) (sentinel_Ensure E p labels refs) (sentinel_Ensure (readOnly E) p labels refs)"
proof -
  let ?I = "settled db pdbs x (\<lambda>w. w_rs w p = rc)"
  have split: "sentinel_Ensure E' p labels refs = getRs p (\<lambda>rc. seqG (ensureObjects E' rc labels refs)
      (seqG (EnsureRedisStatefulset E' p labels refs) (getRs p (\<lambda>rc'. EnsureSentinelStatefulset E' rc' labels refs))))" for E' :: "'a env"
    unfolding sentinel_Ensure_def ensureObjects_def by (simp add: seqG_assoc)
  show ?thesis
    unfolding split getRs_def
    by (intro agreesG_readG [where a = rc] agreesG_seq stable_ensureObjects [OF assms(1) memoryOnly_rs assms(2)]
        stable_workloads [OF assms]) (auto dest: settledD(5))
qed


text \<open>A pass changes nothing of the resource in memory but the storage section.\<close>

lemma generateRedisStatefulSet_resource:
  obtains f where "snd (generateRedisStatefulSet rc labels refs) = upd_rs_spec (sn_Storage_update f) rc"
proof (cases "st_KeepAfterDeletion (sn_Storage (rs_spec rc))")
  case True
  then show ?thesis by (intro that [of "\<lambda>s. s"]) (simp add: generateRedisStatefulSet_def upd_rs_spec_def Let_def)
next
  case False
  then show ?thesis by (intro that) (simp add: generateRedisStatefulSet_def Let_def)
qed

lemma storage_projections [simp]:
  fixes rc :: RedisSentinel and f
  defines "rc' \<equiv> upd_rs_spec (sn_Storage_update f) rc"
  shows "rs_namespace rc' = rs_namespace rc" "rs_name rc' = rs_name rc"
    "sentinel_GetRedisName rc' = sentinel_GetRedisName rc" "GetSentinelName rc' = GetSentinelName rc"
    "GetSentinelHeadlessSvc rc' = GetSentinelHeadlessSvc rc" "GetSentinelReadinessCm rc' = GetSentinelReadinessCm rc"
    "sentinel_GetRedisShutdownConfigMapName rc' = sentinel_GetRedisShutdownConfigMapName rc"
    "rs_sentinel rc' = rs_sentinel rc" "sn_Resources (rs_spec rc') = sn_Resources (rs_spec rc)"
    "sn_Size (rs_spec rc') = sn_Size (rs_spec rc)" "sn_Exporter (rs_spec rc') = sn_Exporter (rs_spec rc)"
  by (simp_all add: rc'_def upd_rs_spec_def resource_name_defs sentinel_GetRedisShutdownConfigMapName_def)

lemma sentinelSettled_storage [simp]:
  "sentinelSettled db pdbs (upd_rs_spec (sn_Storage_update f) rc) x = sentinelSettled db pdbs rc x"
  unfolding sentinelSettled_def sentinelServices_def sentinelConfigMaps_def budgetName_def exporterChanged_def
    storage_projections by (rule refl)

lemma budget_stored:
  assumes "serves_all E db pdbs" and "ensurePodDisruptionBudget E rc n c labels refs w = (Ok (), w')"
  shows "\<exists>b. pdbs (w_ext w') = (pdbs (w_ext w))(budgetName rc n \<mapsto> b)"
  using assms pdb.ensure_stores [of E pdbs "generatePodDisruptionBudget (GenerateName n (rs_name rc)) (rs_namespace rc)
      (MergeLabels [labels, generateSelectorLabels c (rs_name rc)]) refs (FromInt 2)" "rs_namespace rc" w w']
  by (auto simp: ensurePodDisruptionBudget_def Let_def serves_all_def budgetName_def metaKey_def
      generatePodDisruptionBudget_def objectMeta_def)


text \<open>After its disruption budget, a workload is ensured by calls about workloads only.\<close>

context workload_ensurer
begin

lemma ensure_after_budget:
  assumes "ready w" and "ensure w = (Ok u, w')" and "kind_keeps (E_statefulSets E) v"
  obtains w1 where "budget w = (Ok (), w1)" "v (w_ext w') = v (w_ext w1)"
proof -
  let ?v = "same (\<lambda>w. v (w_ext w))"
  have mark: "keeps ?v (modifyG mark)" by (simp add: keeps_def same_def mark_ext)
  let ?ns = "om_namespace (ss_meta desired)"
  let ?rest = "tryG (GetStatefulSet E ?ns (om_name (ss_meta desired)))
        (\<lambda>err. if IsNotFound err then seqG (modifyG mark) (CreateStatefulSet E ?ns desired) else failG err)
        (\<lambda>old. bindG (indexG (ps_containers (pt_spec (ss_template old))) 0) (\<lambda>c. bindG (derefG (ss_replicas old)) (\<lambda>n.
           if outdated old then seqG (modifyG mark) (UpdateStatefulSet E ?ns desired) else skipG)))"
  have keep: "keeps ?v ?rest"
    unfolding object_client_defs by (intro keeps_ensure kind_keeps_ops [OF assms(3)] mark)
  obtain w1 where "budget w = (Ok (), w1)" "?rest w1 = (Ok u, w')"
    using assms(2) unfolding ensure_run [OF assms(1)] by (auto simp: seqG_Ok_iff)
  then show thesis using that keeps_sameD [OF keep] by blast
qed

end

lemma workload_budgets:
  assumes "serves_all E db pdbs"
  shows "EnsureSentinelStatefulset E rc labels refs w = (Ok (), w') \<Longrightarrow>
      \<exists>b. pdbs (w_ext w') = (pdbs (w_ext w))(budgetName rc SentinelName \<mapsto> b)"
    "w_rs w p = rc \<Longrightarrow> EnsureRedisStatefulset E p labels refs w = (Ok (), w') \<Longrightarrow>
      \<exists>b. pdbs (w_ext w') = (pdbs (w_ext w))(budgetName rc UtilRedisName \<mapsto> b)"
proof -
  have keep: "kind_keeps (E_statefulSets E) pdbs" using assms by (simp add: serves_all_def)
  show "EnsureSentinelStatefulset E rc labels refs w = (Ok (), w') \<Longrightarrow>
      \<exists>b. pdbs (w_ext w') = (pdbs (w_ext w))(budgetName rc SentinelName \<mapsto> b)"
    by (rule ssw.ensure_after_budget [OF TrueI _ keep], assumption) (use budget_stored [OF assms] in auto)
  show "w_rs w p = rc \<Longrightarrow> EnsureRedisStatefulset E p labels refs w = (Ok (), w') \<Longrightarrow>
      \<exists>b. pdbs (w_ext w') = (pdbs (w_ext w))(budgetName rc UtilRedisName \<mapsto> b)"
    by (rule rsw.ensure_after_budget [OF _ _ keep], assumption, assumption) (use budget_stored [OF assms] in auto)
qed

lemma EnsureRedisStatefulset_resource:
  assumes "w_rs w p = rc" and "EnsureRedisStatefulset E p labels refs w = (Ok (), w')"
  obtains f where "w_rs w' p = upd_rs_spec (sn_Storage_update f) rc"
proof -
  have id: "rc = upd_rs_spec (sn_Storage_update (\<lambda>s. s)) rc" by (simp add: upd_rs_spec_def)
  let ?R = "\<lambda>v v'. w_rs v' p = w_rs v p \<or> w_rs v' p = snd (generateRedisStatefulSet rc labels refs)"
  have order: "reflp ?R" "transp ?R" by (auto simp: reflp_def transp_def)
  have ext: "keeps ?R (extG f)" for f :: "'a \<Rightarrow> (GoErr + 'b) \<times> 'a"
    by (auto simp: keeps_def extG_def split: prod.split sum.split)
  have "keeps ?R (ensurePodDisruptionBudget E rc UtilRedisName RedisRoleName labels refs)"
    unfolding ensurePodDisruptionBudget_def object_client_defs Let_def
    by (intro keeps_tryG keeps_bindG keeps_if keeps_leaf order ext)
  from rsw.ensure_frame [where p = p and R = ?R, OF order this _ ext assms]
  have "w_rs w' p = rc \<or> w_rs w' p = snd (generateRedisStatefulSet rc labels refs)"
    using assms(1) by (simp add: keeps_def)
  then show thesis using id that generateRedisStatefulSet_resource by metis
qed

text \<open>A successful pass settles the cluster.\<close>

lemma sentinel_Ensure_settles:
  assumes laws: "serves_all E db pdbs" "\<forall>ss. stored_as_written E ss"
    and run: "sentinel_Ensure E p labels refs w = (Ok (), w')"
  shows "sentinelSettled db pdbs (w_rs w' p) (w_ext w')"
proof -
  define rc where "rc = w_rs w p"
  obtain w1 w2 where r: "ensureObjects E rc labels refs w = (Ok (), w1)" "w_rs w1 p = rc"
    "EnsureRedisStatefulset E p labels refs w1 = (Ok (), w2)"
    "EnsureSentinelStatefulset E (w_rs w2 p) labels refs w2 = (Ok (), w')"
    by (rule sentinel_Ensure_split [OF rc_def [symmetric] run])
  obtain f where rc2: "w_rs w2 p = upd_rs_spec (sn_Storage_update f) rc"
    by (rule EnsureRedisStatefulset_resource [OF r(2,3)])
  have "keeps extOnly (EnsureSentinelStatefulset E rc' labels refs)" for rc'
    unfolding EnsureSentinelStatefulset_def ensurePodDisruptionBudget_def object_client_defs Let_def
    by (intro keeps_tryG keeps_bindG keeps_seqG keeps_if keeps_leaf extOnly_order extOnly_ext)
  from keepsD [OF this r(4)] have rc': "w_rs w' p = upd_rs_spec (sn_Storage_update f) rc"
    using rc2 by (metis extOnly_def world.select_convs(3) world.surjective world.update_convs(1))
  have serves: "serves E db" using laws(1) by (simp add: serves_all_def)
  note sts = serves_separate(2,1) [OF serves] laws(2) [THEN spec]
  have "grown db (Pair (rs_namespace rc) ` sentinelServices rc) (Pair (rs_namespace rc) ` sentinelConfigMaps rc)
     {(rs_namespace rc, sentinel_GetRedisName rc), (rs_namespace rc, GetSentinelName rc)} (w_ext w) (w_ext w')"
    by (rule sentinel_Ensure_grows [OF serves rc_def [symmetric] run])
  then have objs: "Pair (rs_namespace rc) ` sentinelServices rc \<subseteq> dom (st_services db (w_ext w'))"
    "Pair (rs_namespace rc) ` sentinelConfigMaps rc \<subseteq> dom (st_configMaps db (w_ext w'))"
    unfolding grown_def by blast+
  have "{budgetName rc UtilRedisName, budgetName rc SentinelName} \<subseteq> dom (pdbs (w_ext w'))"
    using workload_budgets(2) [OF laws(1) r(2,3)] workload_budgets(1) [OF laws(1) r(4)]
    by (auto simp: rc2 budgetName_def)
  moreover obtain ss1 where ss1: "st_statefulSets db (w_ext w2) (rs_namespace rc, sentinel_GetRedisName rc) = Some ss1"
    "\<not> (workloadOutdated (sn_Resources (rs_spec rc)) (sn_Size (rs_spec rc)) ss1 \<or> exporterChanged rc ss1)"
    using rsw.ensure_reaches [OF sts r(2,3)] by (auto simp: metaKey_def)
  moreover obtain ss2 where ss2: "st_statefulSets db (w_ext w') =
      (st_statefulSets db (w_ext w2))((rs_namespace rc, GetSentinelName rc) \<mapsto> ss2)"
    "\<not> workloadOutdated (se_Resources (rs_sentinel rc)) (se_Replicas (rs_sentinel rc)) ss2"
    using ssw.ensure_reaches [OF sts TrueI r(4)] by (auto simp: metaKey_def rc2)
  moreover have "sentinel_GetRedisName rc \<noteq> GetSentinelName rc" by (simp add: resource_name_defs)
  ultimately have "sentinelSettled db pdbs rc (w_ext w')"
    unfolding sentinelSettled_def using objs by simp
  then show ?thesis by (simp add: rc')
qed


text \<open>
  C10. One pass of \<open>Ensure\<close> is enough: after a pass that reports success, a second pass over the
  same resource attempts no write at all (it runs exactly as it would against a server that
  refuses every write), leaves all stored services, config maps, workloads and disruption
  budgets as they are, and does not change the resource in memory.
\<close>

theorem sentinel_Ensure_idempotent:
  assumes "serves_all E db pdbs" and "\<forall>ss. stored_as_written E ss"
    and "sentinel_Ensure E p labels refs w = (Ok (), w')"
  shows "sentinel_Ensure (readOnly E) p labels refs w' = sentinel_Ensure E p labels refs w'
     \<and> allStores db pdbs (w_ext (snd (sentinel_Ensure E p labels refs w'))) = allStores db pdbs (w_ext w')
     \<and> w_rs (snd (sentinel_Ensure E p labels refs w')) p = w_rs w' p"
proof -
  let ?I = "settled db pdbs (w_ext w') (\<lambda>v. w_rs v p = w_rs w' p)"
  have stable: "agreesG ?I (sentinel_Ensure E p labels refs) (sentinel_Ensure (readOnly E) p labels refs)"
    by (rule sentinel_Ensure_stable [OF assms(1) sentinel_Ensure_settles [OF assms]])
  have "?I w'" by (simp add: settled_def)
  from agreesGD [OF stable this] show ?thesis by (simp add: settled_def)
qed

lemma memEnv_serves_all: "serves_all memEnv memStores ma_pdbs"
  unfolding serves_all_def
  by (intro conjI memEnv_serves memEnv_laws) (simp_all add: kind_keeps_def memEnv_stores memKind_def split: option.split)

theorem sentinel_Ensure_idempotent_witness:
  "\<exists>w'. sentinel_Ensure memEnv 0 None [] freshWorld = (Ok (), w')
     \<and> sentinel_Ensure (readOnly memEnv) 0 None [] w' = sentinel_Ensure memEnv 0 None [] w'
     \<and> ma_statefulSets (w_ext (snd (sentinel_Ensure memEnv 0 None [] w'))) = ma_statefulSets (w_ext w')"
proof -
  obtain w' where run: "sentinel_Ensure memEnv 0 None [] freshWorld = (Ok (), w')"
    using fresh_Ensure_runs by (metis prod.collapse)
  have "\<forall>ss. stored_as_written memEnv ss" using memEnv_stored(1) by blast
  from sentinel_Ensure_idempotent [OF memEnv_serves_all this run]
  show ?thesis using run by (auto simp: allStores_def memStores_def)
qed

subsection \<open>RedisStandalone\<close>

definition standaloneSettled :: "'e stores \<Rightarrow> RedisStandalone \<Rightarrow> 'e \<Rightarrow> bool" where
  "standaloneSettled db rc x \<longleftrightarrow>
     Pair (ra_namespace rc) ` standaloneServices rc \<subseteq> dom (st_services db x) \<and>
     Pair (ra_namespace rc) ` standaloneConfigMaps rc \<subseteq> dom (st_configMaps db x) \<and>
     (\<exists>ss. st_statefulSets db x (ra_namespace rc, standalone_GetRedisName rc) = Some ss
        \<and> \<not> (workloadOutdated (sa_Resources (ra_spec rc)) (sa_Size (ra_spec rc)) ss \<or> standalone_exporterChanged rc ss))"

lemma memoryOnly_ra [simp]: "memoryOnly (\<lambda>w. w_ra w p = rc)"
  by (simp add: memoryOnly_def)

definition range_keeps_all :: "'e env \<Rightarrow> 'e stores \<Rightarrow> ('e \<Rightarrow> string \<times> string \<Rightarrow> PodDisruptionBudget option) \<Rightarrow> bool" where
  "range_keeps_all E db pdbs \<longleftrightarrow> (\<forall>m x. allStores db pdbs (snd (E_range E m x)) = allStores db pdbs x)"

lemma stable_configMap:
  assumes "serves_all E db pdbs" and "range_keeps_all E db pdbs" and "memoryOnly P"
    and "(ra_namespace rc, standalone_GetRedisName rc) \<in> dom (st_configMaps db x)"
  shows "agreesG (settled db pdbs x P) (standalone_EnsureRedisConfigMap E rc labels refs)
     (standalone_EnsureRedisConfigMap (readOnly E) rc labels refs)"
proof -
  have range: "agreesG (settled db pdbs x P) (rangeG E m) (rangeG (readOnly E) m)" for m
    using assms(2,3)
    by (auto simp: agreesG_def rangeG_def totalG_def settled_def range_keeps_all_def memoryOnly_def split: prod.splits) (metis snd_conv)+
  have ret: "bindG (retG a) k = k a" for a :: ConfigMap and k :: "ConfigMap \<Rightarrow> ('a, unit) op"
    by (simp add: fun_eq_iff bindG_run)
  show ?thesis
    unfolding standalone_EnsureRedisConfigMap_def standalone_generateRedisConfigMap_def Let_def bindG_assoc ret
    by (intro agreesG_seq range stable_objects(2) [OF assms(1,3)]) (use assms(4) in \<open>simp add: objectMeta_def\<close>)
qed

lemma standalone_Ensure_stable:
  assumes "serves_all E db pdbs" and "range_keeps_all E db pdbs" and "standaloneSettled db rc x"
  shows "agreesG (settled db pdbs x (\<lambda>w. w_ra w p = rc)) (standalone_Ensure E p labels refs)
     (standalone_Ensure (readOnly E) p labels refs)"
proof -
  let ?P = "\<lambda>w. w_ra w p = rc"
    and ?out = "\<lambda>ss. workloadOutdated (sa_Resources (ra_spec rc)) (sa_Size (ra_spec rc)) ss \<or> standalone_exporterChanged rc ss"
  let ?I = "settled db pdbs x ?P"
  note keys = assms(3) [unfolded standaloneSettled_def] and stable = stable_objects [OF assms(1) memoryOnly_ra]
  have svc: "(ra_namespace rc, n) \<in> dom (st_services db x)" if "n \<in> standaloneServices rc" for n
    using keys that by blast
  have cm: "(ra_namespace rc, n) \<in> dom (st_configMaps db x)" if "n \<in> standaloneConfigMaps rc" for n
    using keys that by blast
  obtain ss where ss: "st_statefulSets db x (ra_namespace rc, standalone_GetRedisName rc) = Some ss" "\<not> ?out ss"
    using keys by blast
  have workload: "agreesG ?I (standalone_EnsureRedisStatefulset E p labels refs)
      (standalone_EnsureRedisStatefulset (readOnly E) p labels refs)"
    by (rule stable_ensurer [where outdated = ?out and P = ?P, OF assms(1) memoryOnly_ra ss agreesG_leaf(1)])
       (rule saw.ensure_run [unfolded standalone_proj], assumption)+
  show ?thesis
    unfolding standalone_Ensure_def standalone_EnsureRedisService_def EnsureRedisHeadlessService_def
      standalone_EnsureRedisShutdownConfigMap_def standalone_EnsureRedisMonitorService_def getRa_def
    by (intro agreesG_readG [where a = rc] agreesG_seq agreesG_if agreesG_leaf stable stable_read [OF assms(1) memoryOnly_ra]
        stable_configMap [OF assms(1,2) memoryOnly_ra] svc cm workload)
       (auto simp: standalone_keys standaloneServices_def standaloneConfigMaps_def dest: settledD(5))
qed

lemma standalone_EnsureRedisStatefulset_resource:
  assumes "w_ra w p = rc" and "standalone_EnsureRedisStatefulset E p labels refs w = (Ok (), w')"
  obtains f where "w_ra w' p = upd_ra_spec (sa_Storage_update f) rc"
proof -
  let ?g = "snd (standalone_generateRedisStatefulSet rc labels refs)"
  have id: "rc = upd_ra_spec (sa_Storage_update (\<lambda>s. s)) rc" by (simp add: upd_ra_spec_def)
  have g: "\<exists>f. ?g = upd_ra_spec (sa_Storage_update f) rc"
  proof (cases "st_KeepAfterDeletion (sa_Storage (ra_spec rc))")
    case True
    then have "?g = rc" by (simp add: standalone_generateRedisStatefulSet_def Let_def)
    with id show ?thesis by metis
  next
    case False
    then show ?thesis by (auto simp: standalone_generateRedisStatefulSet_def Let_def)
  qed
  let ?R = "\<lambda>v v'. w_ra v' p = w_ra v p \<or> w_ra v' p = ?g"
  have order: "reflp ?R" "transp ?R" by (auto simp: reflp_def transp_def)
  have ext: "keeps ?R (extG f)" for f :: "'a \<Rightarrow> (GoErr + 'b) \<times> 'a"
    by (auto simp: keeps_def extG_def split: prod.split sum.split)
  from saw.ensure_frame [where p = p and R = ?R, OF order _ _ ext assms]
  have "w_ra w' p = rc \<or> w_ra w' p = ?g" using assms(1) by (simp add: keeps_def)
  then show thesis using id g that by metis
qed

lemma standalone_storage_projections [simp]:
  fixes rc :: RedisStandalone and f
  defines "rc' \<equiv> upd_ra_spec (sa_Storage_update f) rc"
  shows "ra_namespace rc' = ra_namespace rc" "standalone_GetRedisName rc' = standalone_GetRedisName rc"
    "standalone_GetRedisShutdownConfigMapName rc' = standalone_GetRedisShutdownConfigMapName rc"
    "sa_Resources (ra_spec rc') = sa_Resources (ra_spec rc)"
    "sa_Size (ra_spec rc') = sa_Size (ra_spec rc)" "sa_Exporter (ra_spec rc') = sa_Exporter (ra_spec rc)"
  by (simp_all add: rc'_def upd_ra_spec_def resource_name_defs standalone_GetRedisShutdownConfigMapName_def)

lemma standaloneSettled_storage [simp]:
  "standaloneSettled db (upd_ra_spec (sa_Storage_update f) rc) x = standaloneSettled db rc x"
  unfolding standaloneSettled_def standaloneServices_def standaloneConfigMaps_def standalone_exporterChanged_def
    standalone_storage_projections by (rule refl)

lemma standalone_Ensure_settles:
  assumes "serves E db" "range_keeps E db" "\<forall>ss. stored_as_written E ss" "standalone_Ensure E p labels refs w = (Ok (), w')"
  shows "standaloneSettled db (w_ra w' p) (w_ext w')"
proof -
  define rc where "rc = w_ra w p"
  obtain w1 where r: "w_ra w1 p = rc" "standalone_EnsureRedisStatefulset E p labels refs w1 = (Ok (), w')"
    by (rule standalone_Ensure_split [OF rc_def [symmetric] assms(4)])
  obtain f where rc': "w_ra w' p = upd_ra_spec (sa_Storage_update f) rc"
    by (rule standalone_EnsureRedisStatefulset_resource [OF r])
  have "standaloneSettled db rc (w_ext w')"
    using standalone_Ensure_stores [OF assms(1,2) rc_def [symmetric] assms(3) [THEN spec] assms(4)]
    unfolding standaloneSettled_def by simp
  then show ?thesis by (simp add: rc')
qed

text \<open>
  C18. One pass of the standalone \<open>Ensure\<close> is enough as well, whatever order the entries of the
  configuration are visited in: the config map that is there is kept, even if a second pass
  would write its lines in another order.
\<close>

theorem standalone_Ensure_idempotent:
  assumes "serves_all E db pdbs" and "range_keeps_all E db pdbs" and "\<forall>ss. stored_as_written E ss"
    and "standalone_Ensure E p labels refs w = (Ok (), w')"
  shows "standalone_Ensure (readOnly E) p labels refs w' = standalone_Ensure E p labels refs w'
     \<and> allStores db pdbs (w_ext (snd (standalone_Ensure E p labels refs w'))) = allStores db pdbs (w_ext w')
     \<and> w_ra (snd (standalone_Ensure E p labels refs w')) p = w_ra w' p"
proof -
  have serves: "serves E db" using assms(1) by (simp add: serves_all_def)
  have range: "range_keeps E db" using assms(2) by (simp add: range_keeps_all_def range_keeps_def allStores_def)
  note settled = standalone_Ensure_settles [OF serves range assms(3,4)]
  let ?I = "settled db pdbs (w_ext w') (\<lambda>v. w_ra v p = w_ra w' p)"
  have stable: "agreesG ?I (standalone_Ensure E p labels refs) (standalone_Ensure (readOnly E) p labels refs)"
    by (rule standalone_Ensure_stable [OF assms(1,2) settled])
  have "?I w'" by (simp add: settled_def)
  from agreesGD [OF stable this] show ?thesis by (simp add: settled_def)
qed

theorem standalone_Ensure_idempotent_witness:
  "\<exists>w'. standalone_Ensure memEnv 0 None [] freshStandalone = (Ok (), w')
     \<and> standalone_Ensure (readOnly memEnv) 0 None [] w' = standalone_Ensure memEnv 0 None [] w'
     \<and> ma_configMaps (w_ext (snd (standalone_Ensure memEnv 0 None [] w'))) = ma_configMaps (w_ext w')"
proof -
  obtain w' where run: "standalone_Ensure memEnv 0 None [] freshStandalone = (Ok (), w')"
    using fresh_standalone_runs by (metis prod.collapse)
  have "\<forall>ss. stored_as_written memEnv ss" using memEnv_stored(1) by blast
  moreover have "range_keeps_all memEnv memStores ma_pdbs" by (simp add: range_keeps_all_def memEnv_range_run)
  ultimately show ?thesis
    using standalone_Ensure_idempotent [OF memEnv_serves_all _ _ run] run by (auto simp: allStores_def memStores_def)
qed

end
