(* ===== verification/Operator.thy ===== *)
theory Operator
  imports Standalone_Handler
begin

text \<open>
  The operator as a state machine: both controllers run on one process state, their reconciles
  and the delete events follow each other in any order, the cluster changes in between as it
  likes, and the process may be restarted. The invariant is what the pointers of the metadata
  caches rely on. Reconciles are steps of the machine: the work queue never runs two reconciles
  of one object at once, and the two caches are locked maps; races between reconciles of
  different objects are outside the model.
\<close>

subsection \<open>The steps\<close>

inductive operatorStep :: "'e env \<Rightarrow> int \<Rightarrow> 'e world \<Rightarrow> 'e world \<Rightarrow> bool" for E T where
  sentinel: "sentinel_Reconcile E T ns n w = (r, w') \<Longrightarrow> operatorStep E T w w'"
| standalone: "standalone_Reconcile E T ns n w = (r, w') \<Longrightarrow> operatorStep E T w w'"
| deleted: "sentinel_DeleteFunc obj unknown w = (r, w') \<Longrightarrow> operatorStep E T w w'"
| cluster: "operatorStep E T w (w\<lparr>w_ext := x\<rparr>)"
| restart: "operatorStep E T w (initWorld x)"

inductive operatorReach :: "'e env \<Rightarrow> int \<Rightarrow> 'e world \<Rightarrow> bool" for E T where
  start: "operatorReach E T (initWorld x)"
| step: "operatorReach E T w \<Longrightarrow> operatorStep E T w w' \<Longrightarrow> operatorReach E T w'"

inductive_cases operatorStepE: "operatorStep E T w w'"

subsection \<open>Caches that hold what their keys say\<close>

text \<open>
  \<open>soundIn n key metas c\<close>: the entries of the cache \<open>c\<close> point to allocated metadata, which point to
  allocated objects, and the object behind a key is one with that key.
\<close>

definition soundIn :: "ptr \<Rightarrow> (ptr \<Rightarrow> string) \<Rightarrow> (ptr \<Rightarrow> Meta) \<Rightarrow> (string \<rightharpoonup> ptr) \<Rightarrow> bool" where
  "soundIn n key metas c \<longleftrightarrow>
     (\<forall>k m. c k = Some m \<longrightarrow> m < n \<and> m_Obj (metas m) < n \<and> key (m_Obj (metas m)) = k)"

definition cachesSound :: "'e world \<Rightarrow> bool" where
  "cachesSound w \<longleftrightarrow>
     soundIn (w_next w) (\<lambda>p. sentinelKey (w_rs w p)) (w_metas w) (w_snCache w) \<and>
     soundIn (w_next w) (\<lambda>p. standaloneKey (w_ra w p)) (w_metas w) (w_saCache w) \<and>
     ran (w_snCache w) \<inter> ran (w_saCache w) = {}"

definition operatorInv :: "'e world \<Rightarrow> bool" where
  "operatorInv w \<longleftrightarrow> cachesSound w \<and> ran (w_metrics w) \<subseteq> {0, 1}"

lemma soundIn_alloc: "soundIn n key ms c \<Longrightarrow> (\<And>q. q < n \<Longrightarrow> key' q = key q) \<Longrightarrow> soundIn (Suc n) key' ms c"
  by (fastforce simp: soundIn_def)

lemma ran_upd_subset: "ran g \<subseteq> S \<Longrightarrow> v \<in> S \<Longrightarrow> ran (g(k \<mapsto> v)) \<subseteq> S" "ran g \<subseteq> S \<Longrightarrow> ran (g(k := None)) \<subseteq> S"
  by (auto simp: ran_def subset_iff split: if_splits)

lemma soundIn_del: "soundIn n key ms c \<Longrightarrow> soundIn n key ms (c(k := None))"
  by (auto simp: soundIn_def)

text \<open>
  What observing the object \<open>p\<close> does to a cache: it adds a fresh entry for the object's key, or
  it changes the entry that is there, whose object stays or becomes \<open>p\<close>. Both keep the cache,
  and every other cache on the same heap.
\<close>

definition observed :: "ptr \<Rightarrow> (ptr \<Rightarrow> string) \<Rightarrow> ptr \<times> (ptr \<Rightarrow> Meta) \<times> (string \<rightharpoonup> ptr) \<Rightarrow> ptr \<times> (ptr \<Rightarrow> Meta) \<times> (string \<rightharpoonup> ptr) \<Rightarrow> bool" where
  "observed p key = (\<lambda>(n, ms, c) (n', ms', c').
     (c (key p) = None \<and> n' = n + 1 \<and> c' = c(key p \<mapsto> n) \<and> (\<exists>e. ms' = ms(n := e) \<and> m_Obj e = p)) \<or>
     (\<exists>m e. c (key p) = Some m \<and> n' = n \<and> c' = c \<and> ms' = ms(m := e) \<and> (m_Obj e = p \<or> m_Obj e = m_Obj (ms m))))"

lemma observedE:
  assumes "observed p key (n, ms, c) (n', ms', c')"
  obtains (new) e where "c (key p) = None" "n' = n + 1" "c' = c(key p \<mapsto> n)" "ms' = ms(n := e)" "m_Obj e = p"
    | (old) m e where "c (key p) = Some m" "n' = n" "c' = c" "ms' = ms(m := e)" "m_Obj e = p \<or> m_Obj e = m_Obj (ms m)"
  using assms unfolding observed_def by auto

lemma observed_sound:
  assumes c: "soundIn n key ms c" and d: "soundIn n other ms d" and disj: "ran c \<inter> ran d = {}" and p: "p < n"
    and "observed p key (n, ms, c) (n', ms', c')"
  shows "soundIn n' key ms' c' \<and> soundIn n' other ms' d \<and> ran c' \<inter> ran d = {} \<and> p < n'"
  using assms(5)
proof (cases rule: observedE)
  case new
  have "n \<notin> ran d" using d by (auto simp: soundIn_def ran_def)
  moreover have "soundIn n' key ms' c'" "soundIn n' other ms' d" using c d p new by (fastforce simp: soundIn_def)+
  ultimately show ?thesis
    using disj new p by auto
next
  case (old m e)
  have m: "key (m_Obj (ms m)) = key p" "m_Obj (ms m) < n" using c old(1) by (auto simp: soundIn_def)
  have "soundIn n' key ms' c'" unfolding soundIn_def
  proof (intro allI impI)
    fix k x
    assume "c' k = Some x"
    then have "x < n" "m_Obj (ms x) < n" "key (m_Obj (ms x)) = k" using c old(3) by (auto simp: soundIn_def)
    then show "x < n' \<and> m_Obj (ms' x) < n' \<and> key (m_Obj (ms' x)) = k" using m p old(2,4,5) by auto
  qed
  moreover have "m \<notin> ran d" using disj old(1) by (auto simp: ran_def)
  then have "soundIn n' other ms' d" using d old(2,4) by (auto simp: soundIn_def ran_def)
  ultimately show ?thesis
    using old disj p by simp
qed

subsection \<open>Steps that do not touch the caches\<close>

text \<open>What the invariant reads of the operator's state.\<close>

definition opView :: "'e world \<Rightarrow> ptr \<times> (ptr \<Rightarrow> string \<times> string) \<times> (ptr \<Rightarrow> string \<times> string) \<times> (ptr \<Rightarrow> Meta)
    \<times> (string \<rightharpoonup> ptr) \<times> (string \<rightharpoonup> ptr)" where
  "opView w = (w_next w, \<lambda>p. metaKey (rs_meta (w_rs w p)), \<lambda>p. metaKey (ra_meta (w_ra w p)), w_metas w, w_snCache w, w_saCache w)"

lemma opView_keyed: "keyedRs opView" "keyedRa opView"
  by (auto simp: keyedRs_def keyedRa_def internal_def opView_def fun_eq_iff)

lemmas opView_internal = keyed_internal(1) [OF opView_keyed(1)]

lemma opView_gauge: "keeps (same opView) (sentinel_setError p)" "keeps (same opView) (standalone_setError q)"
  "keeps (same opView) (SetClusterOK ns n)" "keeps (same opView) (DeleteCluster ns n)"
  by (simp_all add: keeps_def same_def opView_def sentinel_setError_def standalone_setError_def SetClusterError_def
      SetClusterOK_def DeleteCluster_def getRs_def getRa_def)

lemma keys_of_metaKey:
  "sentinelKey rc = (\<lambda>(ns, n). getNamespacedName ns n) (metaKey (rs_meta rc))"
  "standaloneKey ra = (\<lambda>(ns, n). getNamespacedName ns n) (metaKey (ra_meta ra))"
  by (simp_all add: sentinelKey_def standaloneKey_def metaKey_def)

lemma opView_sound:
  assumes "opView w' = opView w"
  shows "cachesSound w' = cachesSound w" "w_next w' = w_next w"
proof -
  have "(\<lambda>p. sentinelKey (w_rs w' p)) = (\<lambda>p. sentinelKey (w_rs w p))"
    "(\<lambda>p. standaloneKey (w_ra w' p)) = (\<lambda>p. standaloneKey (w_ra w p))"
    using assms by (simp_all add: opView_def keys_of_metaKey fun_eq_iff)
  then show "cachesSound w' = cachesSound w" "w_next w' = w_next w"
    using assms by (simp_all add: cachesSound_def opView_def)
qed

text \<open>The relation every part of \<open>Do\<close> keeps: an object that is allocated stays so, and so does the invariant.\<close>

definition soundStep :: "ptr \<Rightarrow> 'e world \<Rightarrow> 'e world \<Rightarrow> bool" where
  "soundStep p w w' \<longleftrightarrow> (cachesSound w \<and> p < w_next w \<longrightarrow> cachesSound w' \<and> p < w_next w')"

lemma soundStep_order [simp]: "reflp (soundStep p)" "transp (soundStep p)"
  by (auto simp: soundStep_def reflp_def transp_def)

lemma soundStep_view: "same opView \<le> soundStep p"
  by (intro le_funI le_boolI) (metis opView_sound same_def soundStep_def)

subsection \<open>The caches\<close>

text \<open>Both caches observe.\<close>

lemma sentinel_Cache_observes:
  assumes "sentinel_Cache p w = (r, w')"
  shows "observed p (\<lambda>q. sentinelKey (w_rs w q)) (w_next w, w_metas w, w_snCache w) (w_next w', w_metas w', w_snCache w')"
    "(\<lambda>q. sentinelKey (w_rs w' q)) = (\<lambda>q. sentinelKey (w_rs w q))" "w_ra w' = w_ra w" "w_saCache w' = w_saCache w"
    "\<exists>m. r = Ok m \<and> w_snCache w' (sentinelKey (w_rs w p)) = Some m"
  using assms
  by (auto simp: sentinel_cache_defs seqG_case bindG_run observed_def newCluster_def fun_eq_iff split: option.splits if_splits)

lemma standalone_Cache_observes:
  assumes "standalone_Cache p w = (r, w')"
  shows "observed p (\<lambda>q. standaloneKey (w_ra w q)) (w_next w, w_metas w, w_saCache w) (w_next w', w_metas w', w_saCache w')"
    "(\<lambda>q. standaloneKey (w_ra w' q)) = (\<lambda>q. standaloneKey (w_ra w q))" "w_rs w' = w_rs w" "w_snCache w' = w_snCache w"
    "\<exists>m. r = Ok m \<and> w_saCache w' (standaloneKey (w_ra w p)) = Some m"
  using assms
  by (auto simp: standalone_cache_defs seqG_case bindG_run observed_def newStandalone_def fun_eq_iff split: option.splits if_splits)

lemma cachesSoundD:
  assumes "cachesSound w"
  shows "soundIn (w_next w) (\<lambda>p. sentinelKey (w_rs w p)) (w_metas w) (w_snCache w)"
    "soundIn (w_next w) (\<lambda>p. standaloneKey (w_ra w p)) (w_metas w) (w_saCache w)"
    "ran (w_snCache w) \<inter> ran (w_saCache w) = {}" "ran (w_saCache w) \<inter> ran (w_snCache w) = {}"
  using assms by (auto simp: cachesSound_def)

lemma sentinel_Cache_sound:
  assumes "cachesSound w" "p < w_next w" "sentinel_Cache p w = (r, w')"
  shows "cachesSound w' \<and> p < w_next w'"
proof -
  note o = sentinel_Cache_observes [OF assms(3)]
  from observed_sound [OF cachesSoundD(1,2,3) [OF assms(1)] assms(2) o(1)] show ?thesis
    by (simp add: cachesSound_def o(2-4))
qed

lemma standalone_Cache_sound:
  assumes "cachesSound w" "p < w_next w" "standalone_Cache p w = (r, w')"
  shows "cachesSound w' \<and> p < w_next w'"
proof -
  note o = standalone_Cache_observes [OF assms(3)]
  from observed_sound [OF cachesSoundD(2,1,4) [OF assms(1)] assms(2) o(1)] show ?thesis
    by (simp add: cachesSound_def o(2-4) Int_commute)
qed

lemma soundStepI:
  assumes "\<And>w r w'. cachesSound w \<Longrightarrow> p < w_next w \<Longrightarrow> m w = (r, w') \<Longrightarrow> cachesSound w' \<and> p < w_next w'"
  shows "keeps (soundStep p) m"
  unfolding keeps_def soundStep_def using assms by (metis prod.collapse)

lemma soundStep_Cache: "keeps (soundStep p) (sentinel_Cache p)" "keeps (soundStep p) (standalone_Cache p)"
  by (rule soundStepI, erule (2) sentinel_Cache_sound) (rule soundStepI, erule (2) standalone_Cache_sound)

subsection \<open>The reconciles\<close>

lemma opView_sentinel:
  assumes "identity_laws E"
  shows "keeps (same opView) (sentinel_checkFailed E p err)" "keeps (same opView) (sentinel_reportHealthy E p)"
  unfolding sentinel_checkFailed_def sentinel_reportHealthy_def event_defs getRs_def Let_def
  by (intro internal_intros internal_prims [OF opView_internal] opView_gauge keyed_report [OF opView_keyed(1) assms]
      keyed_SetCondition [OF opView_keyed(1)] keyed_updates [OF opView_keyed(1) assms])+

lemma opView_standalone:
  assumes "standalone_identity_laws E"
  shows "keeps (same opView) (standalone_checkFailed E p err)" "keeps (same opView) (standalone_reportHealthy E p)"
  unfolding standalone_checkFailed_def standalone_reportHealthy_def event_defs getRa_def Let_def
  by (intro internal_intros internal_prims [OF opView_internal] opView_gauge keyedRa_report [OF opView_keyed(2) assms]
      keyedRa_SetCondition [OF opView_keyed(2)] keyedRa_updates [OF opView_keyed(2) assms])+

text \<open>
  Of the steps of \<open>Do\<close> only the one that observes the object in the cache moves what \<open>opView\<close>
  shows, so any relation that observing keeps and that does not see past \<open>opView\<close> is kept.
\<close>

lemma keeps_view: "same opView \<le> R \<Longrightarrow> keeps (same opView) m \<Longrightarrow> keeps R m"
  by (auto simp: keeps_def)

lemma sentinel_Do_keeps:
  assumes R: "reflp R" "transp R" "same opView \<le> R" "keeps R (sentinel_Cache p)"
    and laws: "identity_laws E"
  shows "keeps R (sentinel_Do E p)"
proof -
  note same = keyed_Validate [OF opView_keyed(1)] keyed_updates [OF opView_keyed(1) laws] keyed_report [OF opView_keyed(1) laws]
    keyed_Ensure [OF opView_keyed(1)] internal_CheckAndHeal [OF opView_internal] opView_sentinel [OF laws] opView_gauge
    internal_prims [OF opView_internal]
  show ?thesis unfolding sentinel_Do_def event_defs getRs_def getMeta_def
    by (intro keeps_tryG keeps_bindG keeps_seqG keeps_if keeps_readG keeps_leaf R(1,2,4) same [THEN keeps_view [OF R(3)]])
qed

lemma standalone_Do_keeps:
  assumes R: "reflp R" "transp R" "same opView \<le> R" "keeps R (standalone_Cache p)"
    and laws: "standalone_identity_laws E"
  shows "keeps R (standalone_Do E p)"
proof -
  note same = keyedRa_Validate [OF opView_keyed(2)] keyedRa_updates [OF opView_keyed(2) laws]
    keyedRa_report [OF opView_keyed(2) laws] keyedRa_Ensure [OF opView_keyed(2)]
    internal_standalone_CheckAndHeal [OF opView_internal] opView_standalone [OF laws] opView_gauge
    internal_prims [OF opView_internal]
  show ?thesis unfolding standalone_Do_def event_defs getRa_def getMeta_def
    by (intro keeps_tryG keeps_bindG keeps_seqG keeps_if keeps_readG keeps_leaf R(1,2,4) same [THEN keeps_view [OF R(3)]])
qed

lemmas soundStep_sentinel_Do = sentinel_Do_keeps [OF soundStep_order soundStep_view soundStep_Cache(1)]
  and soundStep_standalone_Do = standalone_Do_keeps [OF soundStep_order soundStep_view soundStep_Cache(2)]

subsection \<open>The invariant\<close>

lemma operatorInv_gauge:
  assumes "ran (w_metrics w) \<subseteq> {0, 1}" and "gaugeOut key m" and "m w = (r, w')"
  shows "ran (w_metrics w') \<subseteq> {0, 1}"
proof -
  have "gaugeOutcome (w_metrics w) (key w) r (w_metrics w')" using assms(2,3) unfolding gaugeOut_def by (metis fst_conv snd_conv)
  then have "w_metrics w' = w_metrics w \<or> (\<exists>b \<in> {0, 1}. w_metrics w' = (w_metrics w)(key w \<mapsto> b))"
    by (auto simp: gaugeOutcome_def split: if_splits)
  then show ?thesis using assms(1) ran_upd_subset(1) [OF assms(1)] by metis
qed

lemma Do_operatorInv:
  assumes "operatorInv w" "p < w_next w"
  shows "identity_laws E \<Longrightarrow> sentinel_Do E p w = (r, w') \<Longrightarrow> operatorInv w'"
    and "standalone_identity_laws E \<Longrightarrow> standalone_Do E p w = (r, w') \<Longrightarrow> operatorInv w'"
  using assms operatorInv_gauge [of w _ _ r w'] sentinel_Do_gaugeOut [of E p] standalone_Do_gaugeOut [of E p]
    keepsD [OF soundStep_sentinel_Do [of E p], of w r w'] keepsD [OF soundStep_standalone_Do [of E p], of w r w']
  unfolding operatorInv_def soundStep_def by blast+

lemma operatorInv_alloc:
  assumes "operatorInv w"
  shows "operatorInv (w\<lparr>w_next := w_next w + 1, w_rs := (w_rs w)(w_next w := rc)\<rparr>)"
    "operatorInv (w\<lparr>w_next := w_next w + 1, w_ra := (w_ra w)(w_next w := ra)\<rparr>)"
  using assms unfolding operatorInv_def cachesSound_def by (auto intro!: soundIn_alloc)

text \<open>Everything but \<open>Do\<close> that a reconcile is made of.\<close>

definition invStep :: "'e world \<Rightarrow> 'e world \<Rightarrow> bool" where
  "invStep w w' \<longleftrightarrow> (operatorInv w \<longrightarrow> operatorInv w')"

lemma invStep_order [simp]: "reflp invStep" "transp invStep"
  by (auto simp: invStep_def reflp_def transp_def)

lemma operatorInv_ext [simp]: "operatorInv (w\<lparr>w_ext := x\<rparr>) = operatorInv w"
  by (simp add: operatorInv_def cachesSound_def)

lemma invStep_ext: "keeps invStep (extG f)"
  by (auto simp: keeps_def invStep_def extG_def split: prod.split sum.split)

lemma invStep_same: "keeps (same (\<lambda>w. (opView w, w_metrics w))) m \<Longrightarrow> keeps invStep m"
  using opView_sound(1) unfolding keeps_def same_def invStep_def operatorInv_def by (metis prod.inject)

lemma ran_del_disjoint:
  "ran c \<inter> ran d = {} \<Longrightarrow> ran (c(k := None)) \<inter> ran d = {}" "ran c \<inter> ran d = {} \<Longrightarrow> ran c \<inter> ran (d(k := None)) = {}"
  by (auto simp: ran_def)

lemma invStep_Del: "keeps invStep (sentinel_Del om)" "keeps invStep (standalone_Del om)"
  by (simp_all add: keeps_def invStep_def sentinel_Del_def standalone_Del_def operatorInv_def cachesSound_def soundIn_del
      ran_del_disjoint)

lemma alloc_inv:
  assumes "operatorInv w"
  shows "\<exists>w1. allocRs rc w = (Ok (w_next w), w1) \<and> operatorInv w1 \<and> w_next w < w_next w1"
    "\<exists>w1. allocRa ra w = (Ok (w_next w), w1) \<and> operatorInv w1 \<and> w_next w < w_next w1"
  using operatorInv_alloc [OF assms] by (simp_all add: allocRs_def allocRa_def)

text \<open>A reconcile copies the object it fetched to a fresh address, runs \<open>Do\<close> on it and turns the outcome into a reply.\<close>

lemma invStep_run:
  assumes alloc: "\<And>w. operatorInv w \<Longrightarrow> \<exists>w1. alloc w = (Ok (w_next w), w1) \<and> operatorInv w1 \<and> w_next w < w_next w1"
    and run: "\<And>w p r w'. operatorInv w \<Longrightarrow> p < w_next w \<Longrightarrow> body p w = (r, w') \<Longrightarrow> operatorInv w'"
    and rest: "\<And>e. keeps invStep (h e)" "\<And>p a. keeps invStep (k p a)"
  shows "keeps invStep (bindG alloc (\<lambda>p. tryG (body p) h (k p)))"
  unfolding keeps_def invStep_def
proof (intro allI impI)
  fix w :: "'a world"
  assume "operatorInv w"
  from alloc [OF this] obtain w1 where w1: "alloc w = (Ok (w_next w), w1)" "operatorInv w1" "w_next w < w_next w1" by blast
  obtain r w2 where w2: "body (w_next w) w1 = (r, w2)" by fastforce
  have "operatorInv w2" by (rule run [OF w1(2,3) w2])
  then show "operatorInv (snd (bindG alloc (\<lambda>p. tryG (body p) h (k p)) w))"
    using w1 w2 rest by (cases r) (simp_all add: bindG_run tryG_def keeps_def invStep_def)
qed

lemma invStep_replicas: "keeps invStep (CheckSentinelReadyReplicas E rc)"
proof -
  have "internal (\<lambda>w. (opView w, w_metrics w))" using opView_internal by (simp add: internal_def)
  from internal_checker(14) [OF this] show ?thesis by (rule invStep_same)
qed

lemma Reconcile_invStep:
  shows "identity_laws E \<Longrightarrow> keeps invStep (sentinel_Reconcile E T ns n)"
    and "standalone_identity_laws E \<Longrightarrow> keeps invStep (standalone_Reconcile E T ns n)"
proof -
  assume laws: "identity_laws E"
  show "keeps invStep (sentinel_Reconcile E T ns n)"
    unfolding sentinel_Reconcile_def getRs_def
    by (intro keeps_tryG [where m = "extG f" for f] invStep_run keeps_tryG [where m = "CheckSentinelReadyReplicas E rc" for rc]
        keeps_if keeps_seqG keeps_readG keeps_leaf invStep_order invStep_ext invStep_Del invStep_replicas)
      (erule alloc_inv, erule (2) Do_operatorInv(1) [OF _ _ laws])
next
  assume laws: "standalone_identity_laws E"
  show "keeps invStep (standalone_Reconcile E T ns n)"
    unfolding standalone_Reconcile_def
    by (intro keeps_tryG [where m = "extG f" for f] invStep_run
        keeps_if keeps_seqG keeps_readG keeps_leaf invStep_order invStep_ext invStep_Del)
      (erule alloc_inv, erule (2) Do_operatorInv(2) [OF _ _ laws])
qed

lemma operatorInv_init: "operatorInv (initWorld x)"
  by (simp add: operatorInv_def cachesSound_def soundIn_def initWorld_def)

lemma operatorStep_inv:
  assumes "identity_laws E" "standalone_identity_laws E" "operatorStep E T w w'" "operatorInv w"
  shows "operatorInv w'"
  using assms(3)
proof (rule operatorStepE)
  fix ns n r
  assume "sentinel_Reconcile E T ns n w = (r, w')"
  then show ?thesis using keepsD [OF Reconcile_invStep(1) [OF assms(1)]] assms(4) by (auto simp: invStep_def)
next
  fix ns n r
  assume "standalone_Reconcile E T ns n w = (r, w')"
  then show ?thesis using keepsD [OF Reconcile_invStep(2) [OF assms(2)]] assms(4) by (auto simp: invStep_def)
next
  fix obj unknown r
  assume "sentinel_DeleteFunc obj unknown w = (r, w')"
  then have "w' = w \<or> (\<exists>k. w' = w\<lparr>w_metrics := (w_metrics w)(k := None)\<rparr>)"
    by (auto simp: sentinel_DeleteFunc_def DeleteCluster_def seqG_run split: if_splits)
  then show ?thesis using assms(4)
    by (elim disjE exE) (simp_all add: operatorInv_def cachesSound_def ran_upd_subset(2))
next
  fix x
  assume "w' = w\<lparr>w_ext := x\<rparr>"
  then show ?thesis using assms(4) by simp
next
  fix x :: 'a
  assume "w' = initWorld x"
  then show ?thesis by (simp add: operatorInv_init)
qed

lemma operatorReach_inv:
  assumes "identity_laws E" and "standalone_identity_laws E" and "operatorReach E T w"
  shows "operatorInv w"
  using assms(3)
proof induction
  case (start x)
  show ?case by (rule operatorInv_init)
next
  case (step w w')
  then show ?case using operatorStep_inv [OF assms(1,2)] by blast
qed

text \<open>
  C6. In every state the operator can reach, whatever the order of reconciles, delete events,
  changes of the cluster and restarts, the two metadata caches are sound: a key leads to
  allocated metadata and from there to an object with that very name and namespace, no
  metadata belongs to both caches, and every gauge is zero or one.
\<close>

theorem operator_invariant:
  assumes "identity_laws E" and "standalone_identity_laws E" and "operatorReach E T w"
  shows "operatorInv w"
  using assms by (rule operatorReach_inv)

text \<open>A first reconcile of \<open>db/x\<close> after a start.\<close>

theorem operator_invariant_witness:
  "operatorReach memEnv 10 (snd (sentinel_Reconcile memEnv 10 ''db'' ''x'' (initWorld emptyMem)))
     \<and> operatorInv (snd (sentinel_Reconcile memEnv 10 ''db'' ''x'' (initWorld emptyMem)))"
proof -
  have "operatorReach memEnv 10 (snd (sentinel_Reconcile memEnv 10 ''db'' ''x'' (initWorld emptyMem)))"
    by (rule operatorReach.step [OF operatorReach.start operatorStep.sentinel [OF prod.collapse [symmetric]]])
  with operator_invariant [OF memEnv_identity memEnv_standalone_identity this] show ?thesis by simp
qed

subsection \<open>Reconciles do not disturb each other\<close>

lemma observed_frame:
  assumes c: "soundIn n key ms c" and d: "soundIn n other ms d" and disj: "ran c \<inter> ran d = {}"
    and "observed p key (n, ms, c) (n', ms', c')"
  shows "k \<noteq> key p \<Longrightarrow> map_option ms' (c' k) = map_option ms (c k)" and "map_option ms' (d j) = map_option ms (d j)"
proof -
  have below: "c k = Some x \<Longrightarrow> x < n \<and> key (m_Obj (ms x)) = k" "d k = Some x \<Longrightarrow> x < n" for k x
    using c d by (auto simp: soundIn_def)
  show "map_option ms' (c' k) = map_option ms (c k)" if "k \<noteq> key p"
    using assms(4)
  proof (cases rule: observedE)
    case new
    then show ?thesis using that below(1) [of k] by (cases "c k") auto
  next
    case (old m e)
    then have "c k \<noteq> Some m" using below(1) [of k m] below(1) [of "key p" m] that by auto
    then show ?thesis using old by (cases "c k") auto
  qed
  show "map_option ms' (d j) = map_option ms (d j)"
    using assms(4)
  proof (cases rule: observedE)
    case new
    then show ?thesis using below(2) [of j] by (cases "d j") auto
  next
    case (old m e)
    then have "d j \<noteq> Some m" using disj by (auto simp: ran_def)
    then show ?thesis using old by (cases "d j") auto
  qed
qed

definition ownStep :: "ptr \<Rightarrow> string \<Rightarrow> 'e world \<Rightarrow> 'e world \<Rightarrow> bool" where
  "ownStep p k0 w w' \<longleftrightarrow> (cachesSound w \<and> p < w_next w \<and> sentinelKey (w_rs w p) = k0 \<longrightarrow>
     cachesSound w' \<and> p < w_next w' \<and> sentinelKey (w_rs w' p) = k0 \<and>
     (\<forall>k. k \<noteq> k0 \<longrightarrow> sentinelEntry w' k = sentinelEntry w k) \<and> standaloneEntry w' = standaloneEntry w)"

lemma ownStep_order: "reflp (ownStep p k0)" "transp (ownStep p k0)"
  by (auto simp: ownStep_def reflp_def transp_def)

lemma opView_entries:
  assumes "opView w' = opView w"
  shows "sentinelEntry w' = sentinelEntry w" "standaloneEntry w' = standaloneEntry w"
    "sentinelKey (w_rs w' p) = sentinelKey (w_rs w p)" "standaloneKey (w_ra w' p) = standaloneKey (w_ra w p)"
proof -
  show "sentinelEntry w' = sentinelEntry w" "standaloneEntry w' = standaloneEntry w"
    using assms by (auto simp: opView_def sentinelEntry_def standaloneEntry_def)
  show "sentinelKey (w_rs w' p) = sentinelKey (w_rs w p)" "standaloneKey (w_ra w' p) = standaloneKey (w_ra w p)"
    using assms by (simp_all add: opView_def keys_of_metaKey fun_eq_iff)
qed

lemma ownStep_view: "same opView \<le> ownStep p k0"
proof (intro le_funI le_boolI)
  fix w w' :: "'a world"
  assume "same opView w w'"
  then have v: "opView w' = opView w" by (simp add: same_def)
  show "ownStep p k0 w w'" by (simp add: ownStep_def opView_sound [OF v] opView_entries [OF v])
qed

lemma ownStep_Cache: "keeps (ownStep p k0) (sentinel_Cache p)"
proof -
  have "ownStep p k0 w w'" if run: "sentinel_Cache p w = (r, w')" for w w' :: "'a world" and r
    unfolding ownStep_def
  proof (intro impI, elim conjE)
    assume w: "cachesSound w" "p < w_next w" "sentinelKey (w_rs w p) = k0"
    note o = sentinel_Cache_observes [OF run]
    note frame = observed_frame [OF cachesSoundD(1,2,3) [OF w(1)] o(1)]
    have "sentinelKey (w_rs w' p) = k0" using fun_cong [OF o(2), of p] w(3) by simp
    moreover have "\<forall>k. k \<noteq> k0 \<longrightarrow> sentinelEntry w' k = sentinelEntry w k" using frame(1) w(3) by (simp add: sentinelEntry_def)
    moreover have "standaloneEntry w' = standaloneEntry w" using frame(2) o(4) by (simp add: standaloneEntry_def fun_eq_iff)
    ultimately show "cachesSound w' \<and> p < w_next w' \<and> sentinelKey (w_rs w' p) = k0 \<and>
       (\<forall>k. k \<noteq> k0 \<longrightarrow> sentinelEntry w' k = sentinelEntry w k) \<and> standaloneEntry w' = standaloneEntry w"
      using sentinel_Cache_sound [OF w(1,2) run] by blast
  qed
  then show ?thesis unfolding keeps_def by (metis prod.collapse)
qed

lemmas ownStep_Do = sentinel_Do_keeps [OF ownStep_order ownStep_view ownStep_Cache]

text \<open>The gauges of a reconcile: only the one of the object that was fetched.\<close>

lemma sentinel_Do_otherGauge:
  assumes "identity_laws E" "sentinel_Do E p w = (r, w')" "key \<noteq> metaKey (rs_meta (w_rs w p))"
  shows "w_metrics w' key = w_metrics w key"
proof -
  have "gaugeOutcome (w_metrics w) (rsKey p w) r (w_metrics w')"
    using sentinel_Do_gaugeOut [OF assms(1), of p] assms(2) unfolding gaugeOut_def by (metis fst_conv snd_conv)
  then show ?thesis using assms(3) by (auto simp: gaugeOutcome_def rsKey_def split: if_splits)
qed

lemma replicas_frame:
  assumes "CheckSentinelReadyReplicas E rc w = (r, w')"
  shows "opView w' = opView w" "w_metrics w' = w_metrics w"
proof -
  have "internal (\<lambda>w. (opView w, w_metrics w))" using opView_internal by (simp add: internal_def)
  from keeps_sameD [OF internal_checker(14) [OF this] assms] show "opView w' = opView w" "w_metrics w' = w_metrics w" by simp_all
qed

text \<open>How a reconcile of an existing object ends: with the state after \<open>Do\<close>, but for the look at the replicas.\<close>

lemma sentinel_Reconcile_after_Do:
  assumes "kc_Get (E_sentinels E) ns n (w_ext w) = (Inr inst, x)" and "sentinel_Reconcile E T ns n w = (r, w')"
  obtains d w1 where "sentinel_Do E (w_next w)
        (w\<lparr>w_ext := x, w_next := w_next w + 1, w_rs := (w_rs w)(w_next w := inst)\<rparr>) = (d, w1)"
    "opView w' = opView w1" "w_metrics w' = w_metrics w1"
proof -
  let ?w = "w\<lparr>w_ext := x, w_next := w_next w + 1, w_rs := (w_rs w)(w_next w := inst)\<rparr>"
  obtain d w1 where d: "sentinel_Do E (w_next w) ?w = (d, w1)" by fastforce
  let ?c = "CheckSentinelReadyReplicas E (w_rs w1 (w_next w)) w1"
  have "w' = w1 \<or> w' = snd ?c"
    using assms d by (cases d; cases "fst ?c"; cases ?c)
      (auto simp: sentinel_Reconcile_def tryG_def extG_def bindG_run allocRs_def getRs_def split: if_splits)
  then have "opView w' = opView w1" "w_metrics w' = w_metrics w1"
    using replicas_frame [OF prod.collapse [symmetric], of E "w_rs w1 (w_next w)" w1] by auto
  with d show thesis by (rule that)
qed

lemma standalone_Reconcile_after_Do:
  assumes "kc_Get (E_standalones E) ns n (w_ext w) = (Inr inst, x)" and "standalone_Reconcile E T ns n w = (r, w')"
  obtains d where "standalone_Do E (w_next w)
        (w\<lparr>w_ext := x, w_next := w_next w + 1, w_ra := (w_ra w)(w_next w := inst)\<rparr>) = (d, w')"
proof (cases "standalone_Do E (w_next w) (w\<lparr>w_ext := x, w_next := w_next w + 1, w_ra := (w_ra w)(w_next w := inst)\<rparr>)")
  case (Pair d w1)
  then have "w' = w1" using assms
    by (cases d) (auto simp: standalone_Reconcile_def tryG_def extG_def bindG_run allocRa_def split: if_splits)
  then show thesis using Pair that by blast
qed

lemma sentinel_Do_isolated:
  assumes laws: "identity_laws E" and inv: "operatorInv w" and inst: "metaKey (rs_meta inst) = (ns, n)"
    and run: "sentinel_Do E (w_next w) (w\<lparr>w_ext := x, w_next := w_next w + 1, w_rs := (w_rs w)(w_next w := inst)\<rparr>) = (d, w1)"
  shows "k \<noteq> getNamespacedName ns n \<Longrightarrow> sentinelEntry w1 k = sentinelEntry w k" and "standaloneEntry w1 = standaloneEntry w"
    and "key \<noteq> (ns, n) \<Longrightarrow> w_metrics w1 key = w_metrics w key"
proof -
  let ?w = "w\<lparr>w_ext := x, w_next := w_next w + 1, w_rs := (w_rs w)(w_next w := inst)\<rparr>"
  have "cachesSound ?w" using operatorInv_alloc(1) [of "w\<lparr>w_ext := x\<rparr>" inst, unfolded operatorInv_ext, OF inv] by (simp add: operatorInv_def)
  then have "(\<forall>k. k \<noteq> getNamespacedName ns n \<longrightarrow> sentinelEntry w1 k = sentinelEntry ?w k) \<and> standaloneEntry w1 = standaloneEntry ?w"
    using keepsD [OF ownStep_Do [OF laws] run, of "getNamespacedName ns n", unfolded ownStep_def] inst
    by (simp add: keys_of_metaKey)
  then show "k \<noteq> getNamespacedName ns n \<Longrightarrow> sentinelEntry w1 k = sentinelEntry w k" "standaloneEntry w1 = standaloneEntry w"
    by (simp_all add: sentinelEntry_def standaloneEntry_def fun_eq_iff)
  show "key \<noteq> (ns, n) \<Longrightarrow> w_metrics w1 key = w_metrics w key"
    using sentinel_Do_otherGauge [OF laws run, of key] inst by simp
qed

text \<open>
  C11. Reconciles of different objects do not disturb each other. In every reachable state, a
  reconcile of \<open>ns/n\<close> leaves the cached metadata of every other RedisSentinel, and so the password
  the operator remembers for it, the metadata of every RedisStandalone, and every other gauge as
  they were, whether it succeeds, fails or finds the object gone.
\<close>

theorem sentinel_Reconcile_isolated:
  assumes "identity_laws E" and "standalone_identity_laws E" and "operatorReach E T w"
    and get: "\<forall>inst x. kc_Get (E_sentinels E) ns n (w_ext w) = (Inr inst, x) \<longrightarrow> rs_namespace inst = ns \<and> rs_name inst = n"
    and run: "sentinel_Reconcile E T ns n w = (r, w')"
  shows "(\<forall>k. k \<noteq> getNamespacedName ns n \<longrightarrow> sentinelEntry w' k = sentinelEntry w k) \<and> standaloneEntry w' = standaloneEntry w
     \<and> (\<forall>key. key \<noteq> (ns, n) \<longrightarrow> w_metrics w' key = w_metrics w key)"
proof (cases "fst (kc_Get (E_sentinels E) ns n (w_ext w))")
  case (Inl e)
  then show ?thesis using run
    by (auto simp: sentinel_Reconcile_def tryG_def extG_def seqG_run sentinel_Del_def sentinelEntry_def standaloneEntry_def
        fun_eq_iff split: prod.splits if_splits)
next
  case (Inr inst)
  then obtain x where x: "kc_Get (E_sentinels E) ns n (w_ext w) = (Inr inst, x)" by (metis prod.collapse)
  have inst: "metaKey (rs_meta inst) = (ns, n)" using get x by (auto simp: metaKey_def)
  have inv: "operatorInv w" by (rule operatorReach_inv [OF assms(1-3)])
  obtain d w1 where d: "sentinel_Do E (w_next w)
        (w\<lparr>w_ext := x, w_next := w_next w + 1, w_rs := (w_rs w)(w_next w := inst)\<rparr>) = (d, w1)"
    and w': "opView w' = opView w1" "w_metrics w' = w_metrics w1" by (rule sentinel_Reconcile_after_Do [OF x run])
  show ?thesis using sentinel_Do_isolated [OF assms(1) inv inst d] by (simp add: opView_entries [OF w'(1)] w'(2))
qed

text \<open>The gauge of another object survives the reconcile of one that is gone.\<close>

theorem sentinel_Reconcile_isolated_witness:
  "\<exists>r w'. sentinel_Reconcile memEnv 10 ''db'' ''x'' (initWorld emptyMem) = (r, w')
     \<and> sentinelEntry w' ''db/y'' = None \<and> w_metrics w' (''db'', ''y'') = None"
proof -
  obtain r w' where run: "sentinel_Reconcile memEnv 10 ''db'' ''x'' (initWorld emptyMem) = (r, w')" by fastforce
  have get: "kc_Get (E_sentinels memEnv) ''db'' ''x'' (w_ext (initWorld emptyMem)) =
      (Inl (StatusError NotFound ''x not found''), emptyMem)"
    by (simp add: memEnv_time memKind_def emptyMem_def)
  have "\<forall>inst x. kc_Get (E_sentinels memEnv) ''db'' ''x'' (w_ext (initWorld emptyMem)) = (Inr inst, x) \<longrightarrow>
      rs_namespace inst = ''db'' \<and> rs_name inst = ''x''"
    unfolding get by simp
  from sentinel_Reconcile_isolated [OF memEnv_identity memEnv_standalone_identity operatorReach.start this run]
  have "\<forall>k. k \<noteq> getNamespacedName ''db'' ''x'' \<longrightarrow> sentinelEntry w' k = sentinelEntry (initWorld emptyMem) k"
    "\<forall>key. key \<noteq> (''db'', ''x'') \<longrightarrow> w_metrics w' key = w_metrics (initWorld emptyMem) key" by blast+
  then have "sentinelEntry w' ''db/y'' = None" "w_metrics w' (''db'', ''y'') = None"
    by (simp_all add: getNamespacedName_def sentinelEntry_def initWorld_def)
  with run show ?thesis by blast
qed

end
