(* ===== verification/Steady_Cluster.thy ===== *)
theory Steady_Cluster
  imports Sentinel_Monitor Ensure_Stable Operator
begin

text \<open>
  A cluster in its steady state, as an external world without a state of its own: every object
  the operator asks for is stored, the workloads are ready, one Redis server is up and a master,
  and its sentinel monitors it and knows of all others. Writes that the steady state does not
  need are refused. The examples of whole reconciles run here.
\<close>

subsection \<open>The external world\<close>

definition fixedKind :: "(string \<times> string \<Rightarrow> 'o option) \<Rightarrow> ('o, unit) KindClient" where
  "fixedKind st = \<lparr>
     kc_Get = (\<lambda>ns n x. (case st (ns, n) of Some o1 \<Rightarrow> Inr o1 | None \<Rightarrow> Inl (StatusError NotFound n), ())),
     kc_List = (\<lambda>ns sel x. (Inr [], ())),
     kc_Create = (\<lambda>o1 x. (Inl (ErrorString ''already exists''), ())),
     kc_Update = (\<lambda>o1 x. (Inl (ErrorString ''conflict''), ())),
     kc_StatusUpdate = (\<lambda>o1 x. (Inr o1, ())),
     kc_Delete = (\<lambda>o1 x. (Inl (ErrorString ''forbidden''), ()))\<rparr>"

definition steadyRc :: RedisSentinel where
  "steadyRc = sentinelDefaults (sentinelNamed ''db'' ''x'')"

definition steadySets :: "string \<times> string \<Rightarrow> StatefulSet option" where
  "steadySets = [(''db'', ''redis-worker-x'') \<mapsto> (fst (generateRedisStatefulSet steadyRc None []))\<lparr>ss_readyReplicas := 3\<rparr>,
     (''db'', ''redis-sentinel-x'') \<mapsto> (generateSentinelStatefulSet steadyRc None [])\<lparr>ss_readyReplicas := 3\<rparr>]"

definition steadyPods :: "unit \<Rightarrow> string \<Rightarrow> (string, string) fmap option \<Rightarrow> Pod list" where
  "steadyPods x ns sel = filter (\<lambda>p. om_namespace (pod_meta p) = ns \<and> labelsMatch sel (om_labels (pod_meta p)))
     [samplePod ''10.0.0.1'' 5, sentinelPod ''10.0.0.9'']"

definition steadyStores :: "unit stores" where
  "steadyStores = \<lparr>st_services = \<lambda>_ _. Some (generateRedisService steadyRc None []),
     st_configMaps = \<lambda>_ _. Some (generateSentinelConfigMap steadyRc None []), st_statefulSets = \<lambda>_. steadySets\<rparr>"

definition steadyBudgets :: "unit \<Rightarrow> string \<times> string \<Rightarrow> PodDisruptionBudget option" where
  "steadyBudgets x k = Some (generatePodDisruptionBudget ''x'' ''db'' None [] (FromInt 2))"

definition steadySlice :: "string list \<Rightarrow> RedisValue list" where
  "steadySlice args =
     (if args = [''SENTINEL'', ''master'', masterName]
      then [RString ''name'', RString masterName, RString ''ip'', RString ''10.0.0.1'']
      else if args = [''sentinel'', ''slaves'', masterName] then [RSlice [], RSlice []] else [])"

definition steadyEnv :: "unit env" where
  "steadyEnv = \<lparr>
     E_services = fixedKind (st_services steadyStores ()), E_configMaps = fixedKind (st_configMaps steadyStores ()),
     E_statefulSets = fixedKind steadySets, E_pdbs = fixedKind (steadyBudgets ()), E_deployments = fixedKind (\<lambda>_. None),
     E_pods = (fixedKind (\<lambda>_. None))\<lparr>kc_List := \<lambda>ns sel x. (Inr (steadyPods () ns sel), ())\<rparr>,
     E_namespaces = fixedKind (\<lambda>_. None), E_sentinels = fixedKind [(''db'', ''x'') \<mapsto> steadyRc],
     E_standalones = fixedKind (\<lambda>_. None),
     E_stringCmd = (\<lambda>opt args x. (Inr (if args = [''info'', ''sentinel''] then ''status=ok,sentinels=3'' else ''role:master''), ())),
     E_statusCmd = (\<lambda>opt args x. (if take 1 args = [''slaveof''] then Inl (ErrorString ''refused'') else Inr ''OK'', ())),
     E_intCmd = (\<lambda>opt args x. (Inr 1, ())), E_boolCmd = (\<lambda>opt args x. (Inl (ErrorString ''refused''), ())),
     E_sliceCmd = (\<lambda>opt args x. (Inr (steadySlice args), ())), E_now = (\<lambda>x. (0, ())), E_sleep = (\<lambda>d x. ()),
     E_rfc3339 = FormatInt,
     E_range = (\<lambda>m x. (map (\<lambda>k. (k, the (fmlookup m k))) (sorted_list_of_set (fset (fmdom m))), ())),
     E_sortConditions = insertionSort, E_sortPods = insertionSort\<rparr>"

lemma steady_sel:
  "E_services steadyEnv = fixedKind (st_services steadyStores ())" "E_configMaps steadyEnv = fixedKind (st_configMaps steadyStores ())"
  "E_statefulSets steadyEnv = fixedKind steadySets" "E_pdbs steadyEnv = fixedKind (steadyBudgets ())"
  "E_pods steadyEnv = (fixedKind (\<lambda>_. None))\<lparr>kc_List := \<lambda>ns sel x. (Inr (steadyPods () ns sel), ())\<rparr>"
  "E_sentinels steadyEnv = fixedKind [(''db'', ''x'') \<mapsto> steadyRc]" "E_standalones steadyEnv = fixedKind (\<lambda>_. None)"
  "E_stringCmd steadyEnv = (\<lambda>opt args x. (Inr (if args = [''info'', ''sentinel''] then ''status=ok,sentinels=3'' else ''role:master''), ()))"
  "E_statusCmd steadyEnv = (\<lambda>opt args x. (if take 1 args = [''slaveof''] then Inl (ErrorString ''refused'') else Inr ''OK'', ()))"
  "E_boolCmd steadyEnv = (\<lambda>opt args x. (Inl (ErrorString ''refused''), ()))"
  "E_sliceCmd steadyEnv = (\<lambda>opt args x. (Inr (steadySlice args), ()))" "E_now steadyEnv = (\<lambda>x. (0, ()))"
  "E_range steadyEnv = (\<lambda>m x. (map (\<lambda>k. (k, the (fmlookup m k))) (sorted_list_of_set (fset (fmdom m))), ()))"
  by (simp_all only: steadyEnv_def env.select_convs)

lemma fixedKind_sel [simp]:
  "kc_Get (fixedKind st) ns n x = (case st (ns, n) of Some o1 \<Rightarrow> Inr o1 | None \<Rightarrow> Inl (StatusError NotFound n), ())"
  "kc_Create (fixedKind st) o1 x = (Inl (ErrorString ''already exists''), ())"
  "kc_Update (fixedKind st) o1 x = (Inl (ErrorString ''conflict''), ())" "kc_StatusUpdate (fixedKind st) o1 x = (Inr o1, ())"
  by (simp_all add: fixedKind_def)

subsection \<open>It behaves as documented\<close>

lemma steady_laws:
  "serves_all steadyEnv steadyStores steadyBudgets" "stored_as_written steadyEnv ss"
  "identity_laws steadyEnv" "standalone_identity_laws steadyEnv" "quiet_view steadyEnv v"
proof -
  have api: "api_laws (fixedKind st) meta (\<lambda>_. st)" for st :: "string \<times> string \<Rightarrow> 'o option" and meta
    by (auto simp: api_laws_def split: option.splits)
  show "serves_all steadyEnv steadyStores steadyBudgets"
    using api [of "st_services steadyStores ()" svc_meta] api [of "st_configMaps steadyStores ()" cm_meta]
      api [of steadySets ss_meta] api [of "steadyBudgets ()" pdb_meta]
    by (simp add: serves_all_def api_server_def kind_keeps_def steady_sel steadyStores_def)
  show "stored_as_written steadyEnv ss" "identity_laws steadyEnv" "standalone_identity_laws steadyEnv" "quiet_view steadyEnv v"
    by (simp_all add: stored_as_written_def identity_laws_def standalone_identity_laws_def quiet_view_def calm_view_def steady_sel)
qed

lemma steady_cluster:
  "cluster_laws steadyEnv (st_statefulSets steadyStores) steadyPods (\<lambda>_ _. [])" "sentinel_laws steadyEnv (\<lambda>_ _. ''10.0.0.1'')"
proof -
  have "roleReply ''role:master'' []" by (simp add: roleReply_def sublist_Cons_right)
  then have "redis_laws steadyEnv (\<lambda>_ _. [])" by (simp add: redis_laws_def steady_sel fun_upd_def)
  then show "cluster_laws steadyEnv (st_statefulSets steadyStores) steadyPods (\<lambda>_ _. [])"
    by (auto simp: cluster_laws_def steady_sel steadyStores_def split: option.splits)
  show "sentinel_laws steadyEnv (\<lambda>_ _. ''10.0.0.1'')"
    using quiet_calm [OF steady_laws(5)] by (auto simp: sentinel_laws_def steady_sel steadySlice_def)
qed

subsection \<open>Runs\<close>

lemma unit_ext [simp]: "w\<lparr>w_ext := u\<rparr> = w" for w :: "unit world"
  by (cases w) simp

lemma steadyRc_sel:
  "rs_namespace steadyRc = ''db''" "rs_name steadyRc = ''x''" "sn_Size (rs_spec steadyRc) = 3" "se_Replicas (rs_sentinel steadyRc) = 3"
  "se_CustomConfig (rs_sentinel steadyRc) = []" "sn_ShutdownConfigMap (rs_spec steadyRc) = []" "ex_Enabled (sn_Exporter (rs_spec steadyRc)) = False"
  "sn_Password (rs_spec steadyRc) = []"
  by (simp_all add: steadyRc_def sentinelDefaults_def settingsDefaults_def exporterDefaults_def upd_rs_spec_def sentinelNamed_def
      zero_defs)

lemma steady_Validate: "sentinel_Validate steadyRc = (Ok False, steadyRc)"
proof -
  have "sentinelError (sentinelNamed ''db'' ''x'') = None"
    by (simp add: sentinelError_def tooSmall_def sentinelNamed_def zero_defs)
  from sv.accepts [OF sv.defaults_accepted [OF this]] show ?thesis by (simp add: steadyRc_def sv.defaults_stable)
qed

text \<open>A resource that differs from \<open>steadyRc\<close> in its status only.\<close>

definition steady :: "RedisSentinel \<Rightarrow> bool" where
  "steady rc \<longleftrightarrow> rs_meta rc = rs_meta steadyRc \<and> rs_spec rc = rs_spec steadyRc"

lemma steady_names:
  assumes "steady rc"
  shows "rs_namespace rc = ''db''" "rs_name rc = ''x''" "sentinel_GetRedisName rc = ''redis-worker-x''" "GetSentinelName rc = ''redis-sentinel-x''"
    "rs_spec rc = rs_spec steadyRc"
  using assms steadyRc_sel(1,2) by (simp_all add: steady_def resource_name_defs)

lemma steady_gets:
  "GetService steadyEnv ns n w = (Ok (generateRedisService steadyRc None []), w)"
  "GetConfigMap steadyEnv ns n w = (Ok (generateSentinelConfigMap steadyRc None []), w)"
  "GetPodDisruptionBudget steadyEnv ns n w = (Ok (generatePodDisruptionBudget ''x'' ''db'' None [] (FromInt 2)), w)"
  "GetStatefulSet steadyEnv ''db'' ''redis-worker-x'' w = (Ok ((fst (generateRedisStatefulSet steadyRc None []))\<lparr>ss_readyReplicas := 3\<rparr>), w)"
  "GetStatefulSet steadyEnv ''db'' ''redis-sentinel-x'' w = (Ok ((generateSentinelStatefulSet steadyRc None [])\<lparr>ss_readyReplicas := 3\<rparr>), w)"
  by (simp_all add: wrapper_defs extG_def steady_sel steadyStores_def steadyBudgets_def steadySets_def)

lemma steady_workloads:
  assumes "steady rc"
  shows "EnsureSentinelStatefulset steadyEnv rc labels refs w = (Ok (), w)"
    and "w_rs w p = rc \<Longrightarrow> EnsureRedisStatefulset steadyEnv p labels refs w = (Ok (), w)"
proof -
  note n = steady_names [OF assms]
  have budget: "ensurePodDisruptionBudget steadyEnv rc n0 c labels refs w = (Ok (), w)" for n0 c
    by (simp add: ensurePodDisruptionBudget_def Let_def CreateIfNotExistsPodDisruptionBudget_def tryG_run steady_gets)
  show "EnsureSentinelStatefulset steadyEnv rc labels refs w = (Ok (), w)"
    by (simp add: EnsureSentinelStatefulset_def seqG_run budget tryG_run bindG_run n steady_gets steadyRc_sel)
  show "EnsureRedisStatefulset steadyEnv p labels refs w = (Ok (), w)" if "w_rs w p = rc"
    by (simp add: EnsureRedisStatefulset_def getRs_def that seqG_run budget tryG_run bindG_run n steady_gets steadyRc_sel
        exporterChanged_def ExporterContainerName_def)
qed

lemma steady_Ensure:
  assumes "steady (w_rs w p)"
  shows "sentinel_Ensure steadyEnv p labels refs w = (Ok (), w)"
proof -
  note n = steady_names [OF assms]
  have make: "CreateIfNotExistsService steadyEnv ns s w = (Ok (), w)" "CreateIfNotExistsConfigMap steadyEnv ns c w = (Ok (), w)" for ns s c
    by (simp_all add: CreateIfNotExistsService_def CreateIfNotExistsConfigMap_def tryG_run steady_gets)
  show ?thesis
    by (simp add: sentinel_Ensure_def getRs_def seqG_run EnsureRedisService_def EnsureSentinelService_def
        EnsureSentinelHeadlessService_def EnsureSentinelConfigMap_def EnsureSentinelProbeConfigMap_def
        EnsureRedisShutdownConfigMap_def make n steadyRc_sel steady_workloads [OF assms])
qed

lemma steady_pods:
  "GetStatefulSetPods steadyEnv ''db'' ''redis-worker-x'' w = (Ok [samplePod ''10.0.0.1'' 5], w)"
  "GetStatefulSetPods steadyEnv ''db'' ''redis-sentinel-x'' w = (Ok [sentinelPod ''10.0.0.9''], w)"
proof -
  have "\<not> labelsMatch (Some (entries (roleLabels None SentinelRoleName ''x''))) (roleLabels None RedisRoleName ''x'')"
    "\<not> labelsMatch (Some (entries (roleLabels None RedisRoleName ''x''))) (roleLabels None SentinelRoleName ''x'')"
    by (rule notI, drule labelsMatch_lookup [OF _ roleLabels_lookup(1)], simp add: RedisRoleName_def SentinelRoleName_def)+
  then show "GetStatefulSetPods steadyEnv ''db'' ''redis-worker-x'' w = (Ok [samplePod ''10.0.0.1'' 5], w)"
    "GetStatefulSetPods steadyEnv ''db'' ''redis-sentinel-x'' w = (Ok [sentinelPod ''10.0.0.9''], w)"
    by (simp_all add: GetStatefulSetPods_def steady_gets bindG_run extG_def steady_sel steadyPods_def samplePod_def sentinelPod_def
        steadyRc_sel)
qed

lemma steady_checks:
  assumes "steady rc"
  shows "CheckRedisNumber steadyEnv rc w = (Ok (), w)" "CheckSentinelNumber steadyEnv rc w = (Ok (), w)"
    "EnsureSentinelReady steadyEnv rc w = (Ok (), w)" "CheckSentinelReadyReplicas steadyEnv rc w = (Ok (), w)"
    "GetRedisesIPs steadyEnv rc auth w = (Ok [''10.0.0.1''], w)" "GetSentinelsIPs steadyEnv rc w = (Ok [''10.0.0.9''], w)"
  by (simp_all add: CheckRedisNumber_def CheckSentinelNumber_def EnsureSentinelReady_def CheckSentinelReadyReplicas_def
      GetRedisesIPs_def GetSentinelsIPs_def steady_names [OF assms] steadyRc_sel bindG_run steady_gets steady_pods
      runningIPs_def samplePod_def sentinelPod_def podRunning_def)

lemma steady_heal:
  assumes "steady rc"
  shows "healMasters steadyEnv rc auth w = (Ok ''10.0.0.1'', w)"
proof -
  have "roleReply ''role:master'' []" by (simp add: roleReply_def sublist_Cons_right)
  then have "IsMaster steadyEnv ip auth w = (Ok True, w)" "GetSlaveMasterIP steadyEnv ip auth w = (Ok [], w)" for ip
    using roleReply_master roleReply_host
    by (simp_all add: IsMaster_def GetSlaveMasterIP_def bindG_run extG_def steady_sel)
  then have "GetNumberMasters steadyEnv rc auth w = (Ok 1, w)" "GetMasterIP steadyEnv rc auth w = (Ok ''10.0.0.1'', w)"
    "CheckAllSlavesFromMaster steadyEnv ''10.0.0.1'' rc auth w = (Ok (), w)"
    by (simp_all add: GetNumberMasters_def countMaster_def GetMasterIP_def collectMaster_def indexG_def
        CheckAllSlavesFromMaster_def tryG_def bindG_def seqG_def steady_checks [OF assms])
  then show ?thesis by (simp add: healMasters_def fixMasters_def tryG_run bindG_run seqG_run)
qed

lemma guards_run: "\<exists>r. forG (\<lambda>x. guardG (g x)) xs w = (r, w) \<and> (r = Ok () \<or> (\<exists>e. r = Fail e))"
proof (induction xs)
  case (Cons x xs)
  then show ?case by (cases "g x") (auto simp: guardG_def seqG_case)
qed simp

text \<open>The configuration is compared with the live one and written where they differ, which records an event.\<close>

lemma steady_setConfig:
  assumes "steady rc"
  shows "\<exists>es. sentinel_setRedisConfig steadyEnv rc auth w = (Ok (), w\<lparr>w_events := es\<rparr>)"
proof -
  have writes: "forG (\<lambda>(param, value). applyRedisConfig steadyEnv param value opt) kvs v = (Ok (), v)" for opt kvs v
    by (induction kvs) (auto simp: applyRedisConfig_def bindG_run extG_def steady_sel seqG_run)
  have set: "SetRedisCustomConfig steadyEnv ip rc auth v = (Ok (), v)" for ip v
    by (simp add: SetRedisCustomConfig_def SetCustomRedisConfig_def rangeG_def totalG_def steady_sel bindG_run writes)
  have "\<exists>r. CheckRedisConfig steadyEnv rc ip auth w = (r, w) \<and> (r = Ok () \<or> (\<exists>e. r = Fail e))" for ip
    using guards_run by (simp add: CheckRedisConfig_def GetAllRedisConfig_def bindG_run extG_def rangeG_def totalG_def steady_sel steadySlice_def)
  then obtain r where r: "CheckRedisConfig steadyEnv rc ''10.0.0.1'' auth w = (r, w)" "r = Ok () \<or> (\<exists>e. r = Fail e)" by blast
  have same: "w = w\<lparr>w_events := w_events w\<rparr>" by simp
  show ?thesis
    using r(2)
  proof
    assume "r = Ok ()"
    then have "sentinel_setRedisConfig steadyEnv rc auth w = (Ok (), w)"
      using r(1) by (simp add: sentinel_setRedisConfig_def bindG_run steady_checks [OF assms] seqG_run tryG_run)
    then show ?thesis using same by metis
  next
    assume "\<exists>e. r = Fail e"
    then show ?thesis
      using r(1) set by (auto simp: sentinel_setRedisConfig_def bindG_run steady_checks [OF assms] seqG_run tryG_run
          EventUpdateStatus_def recordEvent_def)
  qed
qed

lemma steady_sentinels:
  assumes "steady rc"
  shows "monitorStep steadyEnv ''10.0.0.1'' rc auth ip w = (Ok (), w)" "slavesStep steadyEnv rc auth ip w = (Ok (), w)"
    "sentinelsStep steadyEnv rc auth ip w = (Ok (), w)"
proof -
  note n = steady_names(5) [OF assms]
  have ready: "isSentinelReady ''status=ok,sentinels=3'' = None" and num: "sentinelNumberRE ''status=ok,sentinels=3'' = Some ''3''"
    by (simp_all add: isSentinelReady_def sentinelStatusRE_def sentinelNumberRE_def isLower_def isDigit_def)
  have atoi: "Atoi ''3'' = Inr 3" by (simp add: Atoi_def parseInt64_def splitSign_def isDigit_def digitVal_def)
  show "monitorStep steadyEnv ''10.0.0.1'' rc auth ip w = (Ok (), w)"
    by (simp add: monitorStep_def CheckSentinelMonitor_def GetSentinelMonitor_def bindG_run extG_def steady_sel steadySlice_def
        indexG_def asString_def tryG_run)
  show "slavesStep steadyEnv rc auth ip w = (Ok (), w)"
    by (simp add: slavesStep_def CheckSentinelSlavesNumberInMemory_def GetNumberSentinelSlavesInMemory_def guardG_def ready
        bindG_run seqG_run tryG_run extG_def steady_sel steadySlice_def countSlave_def slaveInfoFieldByName_def asSlice_def n steadyRc_sel)
  show "sentinelsStep steadyEnv rc auth ip w = (Ok (), w)"
    by (simp add: sentinelsStep_def CheckSentinelNumberInMemory_def GetNumberSentinelsInMemory_def guardG_def ready num resultG_def atoi
        bindG_run seqG_run tryG_run extG_def steady_sel n steadyRc_sel)
qed

text \<open>The operator's state after the first observation of the resource.\<close>

definition steadyAt :: "unit world \<Rightarrow> bool" where
  "steadyAt w \<longleftrightarrow> steady (w_rs w 1) \<and> w_metas w 2 = newCluster steadyRc 1 \<and> w_snCache w ''db/x'' = Some 2"

lemma steady_CheckAndHeal: "succeedsG steadyAt (sentinel_CheckAndHeal steadyEnv 2) steadyAt"
  unfolding succeedsG_def
proof (intro allI impI)
  fix w
  assume w: "steadyAt w"
  then have rc: "steady (w_rs w 1)" and meta: "w_metas w 2 = newCluster steadyRc 1" by (simp_all add: steadyAt_def)
  note n = steady_names(5) [OF rc]
  have obj: "m_Obj (newCluster steadyRc 1) = 1" by (simp add: newCluster_def)
  obtain es where es: "sentinel_setRedisConfig steadyEnv (w_rs w 1) (m_Auth (newCluster steadyRc 1)) w = (Ok (), w\<lparr>w_events := es\<rparr>)"
    using steady_setConfig [OF rc] by blast
  have "sentinel_CheckAndHeal steadyEnv 2 w = (Ok (), w\<lparr>w_events := es\<rparr>)"
    unfolding CheckAndHeal_split ptr_defs readG_run meta obj
    by (simp add: tryG_run bindG_run seqG_run steady_checks [OF rc] steady_heal [OF rc] healSentinels_def es steady_sentinels [OF rc]
        setSentinelConfig_def SetSentinelCustomConfig_def n steadyRc_sel del: One_nat_def)
  moreover have "steadyAt (w\<lparr>w_events := es\<rparr>)" using w by (simp add: steadyAt_def)
  ultimately show "\<exists>w'. sentinel_CheckAndHeal steadyEnv 2 w = (Ok (), w') \<and> steadyAt w'" by blast
qed

lemma steady_status:
  "succeedsG steadyAt (SetConditionG steadyEnv 1 k msg) steadyAt" "succeedsG steadyAt (UpdateSentinelStatus steadyEnv ns 1) steadyAt"
  "succeedsG steadyAt (recordEvent om t r msg) steadyAt" "succeedsG steadyAt (SetClusterOK ns n) steadyAt"
  by (auto simp: succeedsG_def steadyAt_def steady_def SetConditionG_def UpdateSentinelStatus_def recordEvent_def SetClusterOK_def
      nowG_def totalG_def getRs_def setRs_def bindG_run seqG_run extG_def steady_sel Let_def split: option.split)

lemma steady_seq: "succeedsG steadyAt m steadyAt \<Longrightarrow> succeedsG steadyAt n steadyAt \<Longrightarrow> succeedsG steadyAt (seqG m n) steadyAt"
  by (rule succeedsG_seqG)

lemma succeedsG_readG: "(\<And>w. I w \<Longrightarrow> succeedsG I (k (f w)) J) \<Longrightarrow> succeedsG I (readG f k) J"
  by (simp add: succeedsG_def)

lemma steady_report:
  "succeedsG steadyAt (sentinel_updateStatus steadyEnv 2) steadyAt" "succeedsG steadyAt (sentinel_reportHealthy steadyEnv 1) steadyAt"
proof -
  show "succeedsG steadyAt (sentinel_reportHealthy steadyEnv 1) steadyAt"
    unfolding sentinel_reportHealthy_def getRs_def event_defs
    by (intro succeedsG_readG steady_seq steady_status)
  have "succeedsG steadyAt (seqG (sentinel_announce steadyEnv (newCluster steadyRc 1) om) (UpdateSentinelStatus steadyEnv ns 1)) steadyAt" for om ns
    unfolding sentinel_announce_def event_defs Let_def newCluster_def Meta.select_convs
    by (intro steady_seq succeedsG_if steady_status)
  note announce = this
  show "succeedsG steadyAt (sentinel_updateStatus steadyEnv 2) steadyAt"
    unfolding sentinel_updateStatus_def getMeta_def
  proof (rule succeedsG_readG)
    fix w
    assume "steadyAt w"
    then have m: "w_metas w 2 = newCluster steadyRc 1" by (simp add: steadyAt_def)
    have obj: "m_Obj (newCluster steadyRc 1) = 1" by (simp add: newCluster_def)
    show "succeedsG steadyAt (if m_State (w_metas w 2) \<noteq> Check
        then getRs (m_Obj (w_metas w 2)) (\<lambda>rc. seqG (sentinel_announce steadyEnv (w_metas w 2) (rs_meta rc))
          (UpdateSentinelStatus steadyEnv (rs_namespace rc) (m_Obj (w_metas w 2)))) else skipG) steadyAt"
      unfolding m obj getRs_def by (intro succeedsG_if succeedsG_readG announce succeedsG_skip)
  qed
qed

subsection \<open>A reconcile\<close>

lemma steady_Do:
  assumes "w = (initWorld ())\<lparr>w_next := 2, w_rs := (w_rs (initWorld ()))(1 := steadyRc)\<rparr>"
  shows "\<exists>w'. sentinel_Do steadyEnv 1 w = (Ok (), w') \<and> steadyAt w'"
proof -
  define w2 where "w2 = w\<lparr>w_next := 3, w_metas := (w_metas w)(2 := newCluster steadyRc 1),
    w_snCache := (w_snCache w)(''db/x'' \<mapsto> 2)\<rparr>"
  have rc: "w_rs w 1 = steadyRc" "w_rs w2 1 = steadyRc" by (simp_all add: assms w2_def)
  have valid: "onRs 1 sentinel_Validate w = (Ok False, w)"
    by (simp add: onRs_def zoomG_def rc steady_Validate fun_upd_idem del: One_nat_def)
  have "getNamespacedName ''db'' ''x'' = ''db/x''" by (simp add: getNamespacedName_def)
  then have cache: "sentinel_Cache 1 w = (Ok 2, w2)"
    by (simp add: sentinel_cache_defs rc steadyRc_sel seqG_case bindG_run w2_def assms initWorld_def)
  have at2: "steadyAt w2" by (simp add: steadyAt_def steady_def rc w2_def del: One_nat_def)
  obtain w3 where w3: "sentinel_updateStatus steadyEnv 2 w2 = (Ok (), w3)" "steadyAt w3"
    using steady_report(1) at2 unfolding succeedsG_def by blast
  obtain w4 where w4: "EnsureCluster (rs_meta (w_rs w3 1)) w3 = (Ok (), w4)" "steadyAt w4"
    using steady_status(3) w3(2) unfolding succeedsG_def event_defs by blast
  have obj: "m_Obj (w_metas w3 2) = 1" "steady (w_rs w4 1)" using w3(2) w4(2) by (simp_all add: steadyAt_def newCluster_def)
  obtain w5 where w5: "CheckCluster (rs_meta (w_rs w4 1)) w4 = (Ok (), w5)" "steadyAt w5"
    using steady_status(3) w4(2) unfolding succeedsG_def event_defs by blast
  obtain w6 where w6: "sentinel_CheckAndHeal steadyEnv 2 w5 = (Ok (), w6)" "steadyAt w6"
    using steady_CheckAndHeal w5(2) unfolding succeedsG_def by blast
  obtain w7 where w7: "sentinel_reportHealthy steadyEnv 1 w6 = (Ok (), w7)" "steadyAt w7"
    using steady_report(2) w6(2) unfolding succeedsG_def by blast
  have "sentinel_Do steadyEnv 1 w = (Ok (), w7)"
    unfolding sentinel_Do_def getRs_def getMeta_def
    by (subst tryG_run(1), rule valid, simp only: if_False, subst bindG_run(1), rule cache, subst seqG_run(1), rule w3(1),
        simp only: readG_run, subst seqG_run(1), rule w4(1), simp only: obj(1), subst tryG_run(1), rule steady_Ensure, rule obj(2),
        simp only: readG_run, subst seqG_run(1), rule w5(1), subst tryG_run(1), rule w6(1), rule w7(1))
  with w7(2) show ?thesis by blast
qed

lemma steady_Reconcile:
  "\<exists>w'. sentinel_Reconcile steadyEnv 10 ''db'' ''x'' (initWorld ()) = (Ok (zeroResult\<lparr>RequeueAfter := 10 * second\<rparr>), w') \<and> steadyAt w'"
proof -
  let ?w = "(initWorld ())\<lparr>w_next := 2, w_rs := (w_rs (initWorld ()))(1 := steadyRc)\<rparr>"
  obtain w' where w': "sentinel_Do steadyEnv 1 ?w = (Ok (), w')" "steadyAt w'" using steady_Do [OF refl] by blast
  have get: "extG (kc_Get (E_sentinels steadyEnv) ''db'' ''x'') (initWorld ()) = (Ok steadyRc, initWorld ())"
    by (simp add: extG_def steady_sel)
  have "allocRs steadyRc (initWorld ()) = (Ok 1, ?w)" by (simp add: allocRs_def initWorld_def)
  then have "sentinel_Reconcile steadyEnv 10 ''db'' ''x'' (initWorld ()) = (Ok (zeroResult\<lparr>RequeueAfter := 10 * second\<rparr>), w')"
    using w' by (simp add: sentinel_Reconcile_def tryG_run get bindG_run getRs_def steadyAt_def steady_checks del: One_nat_def)
  with w'(2) show ?thesis by blast
qed

end
