(* ===== verification/Reconcile_Success.thy ===== *)
theory Reconcile_Success
  imports Steady_Cluster
begin

text \<open>
  The parts put together: what holds of the cluster after a reconcile of a RedisSentinel that
  reports success, from the objects that are stored to the roles of the running servers, in the
  state in which the reconcile leaves it.
\<close>

subsection \<open>The run of a successful reconcile\<close>

lemma failsOnlyD: "failsOnly m \<Longrightarrow> m w \<noteq> (Ok u, w')"
  by (metis (full_types) failsOnly_def fst_conv old.unit.exhaust)

lemma sentinel_checkFailed_fails: "failsOnly (sentinel_checkFailed E p err)"
  unfolding sentinel_checkFailed_def getRs_def Let_def by (intro failsOnly_rules)

lemma sentinel_Do_OkE:
  assumes "sentinel_Do E p w = (Ok (), w')"
  obtains w1 m w2 w3 w4 labels refs w5 w6 w7 where
    "onRs p sentinel_Validate w = (Ok False, w1)" "sentinel_Cache p w1 = (Ok m, w2)"
    "sentinel_updateStatus E m w2 = (Ok (), w3)" "EnsureCluster (rs_meta (w_rs w3 p)) w3 = (Ok (), w4)"
    "sentinel_Ensure E (m_Obj (w_metas w3 m)) labels refs w4 = (Ok (), w5)"
    "CheckCluster (rs_meta (w_rs w5 p)) w5 = (Ok (), w6)" "sentinel_CheckAndHeal E m w6 = (Ok (), w7)"
    "sentinel_reportHealthy E p w7 = (Ok (), w')"
proof -
  obtain b w1 where v: "onRs p sentinel_Validate w = (Ok b, w1)"
    and rest: "(if b then getRs p (\<lambda>rc. seqG (UpdateSentinelSpec E (rs_namespace rc) p) (failG ErrNeedRequeueImmediately))
       else bindG (sentinel_Cache p) (\<lambda>m. seqG (sentinel_updateStatus E m) (getRs p (\<lambda>rc. getMeta m (\<lambda>meta.
            seqG (EnsureCluster (rs_meta rc))
           (tryG (sentinel_Ensure E (m_Obj meta) (sentinel_getLabels rc) (sentinel_createOwnerReferences rc))
              (\<lambda>err. seqG (sentinel_reportFailed E p err) (seqG (sentinel_setError p) (failG err)))
              (\<lambda>_. getRs p (\<lambda>rc'. seqG (CheckCluster (rs_meta rc'))
                (tryG (sentinel_CheckAndHeal E m) (sentinel_checkFailed E p)
                   (\<lambda>_. sentinel_reportHealthy E p)))))))))) w1 = (Ok (), w')"
    using assms unfolding sentinel_Do_def
    by (cases rule: tryG_OkE) (use failsOnlyD [OF failsOnly_rules(2) [OF failsOnly_rules(1)]] in blast)+
  have b: "\<not> b"
  proof
    assume "b"
    then have "failsOnly (getRs p (\<lambda>rc. seqG (UpdateSentinelSpec E (rs_namespace rc) p) (failG ErrNeedRequeueImmediately)))"
      unfolding getRs_def by (intro failsOnly_rules)
    from failsOnlyD [OF this] rest \<open>b\<close> show False by simp
  qed
  obtain m w2 w3 w4 where r: "sentinel_Cache p w1 = (Ok m, w2)" "sentinel_updateStatus E m w2 = (Ok (), w3)"
    "EnsureCluster (rs_meta (w_rs w3 p)) w3 = (Ok (), w4)"
    and ens: "tryG (sentinel_Ensure E (m_Obj (w_metas w3 m)) (sentinel_getLabels (w_rs w3 p)) (sentinel_createOwnerReferences (w_rs w3 p)))
              (\<lambda>err. seqG (sentinel_reportFailed E p err) (seqG (sentinel_setError p) (failG err)))
              (\<lambda>_. getRs p (\<lambda>rc'. seqG (CheckCluster (rs_meta rc'))
                (tryG (sentinel_CheckAndHeal E m) (sentinel_checkFailed E p)
                   (\<lambda>_. sentinel_reportHealthy E p)))) w4 = (Ok (), w')"
    using rest b by (auto simp: getRs_def getMeta_def bindG_Ok_iff seqG_Ok_iff)
  have fail: "failsOnly (seqG (sentinel_reportFailed E p err) (seqG (sentinel_setError p) (failG err)))" for err
    by (intro failsOnly_rules)
  obtain w5 where w5: "sentinel_Ensure E (m_Obj (w_metas w3 m)) (sentinel_getLabels (w_rs w3 p))
      (sentinel_createOwnerReferences (w_rs w3 p)) w4 = (Ok (), w5)"
    and after: "seqG (CheckCluster (rs_meta (w_rs w5 p))) (tryG (sentinel_CheckAndHeal E m) (sentinel_checkFailed E p)
                   (\<lambda>_. sentinel_reportHealthy E p)) w5 = (Ok (), w')"
    using ens by (cases rule: tryG_OkE) (use failsOnlyD [OF fail] in \<open>auto simp: getRs_def\<close>)
  obtain w6 where w6: "CheckCluster (rs_meta (w_rs w5 p)) w5 = (Ok (), w6)"
    and heal: "tryG (sentinel_CheckAndHeal E m) (sentinel_checkFailed E p) (\<lambda>_. sentinel_reportHealthy E p) w6 = (Ok (), w')"
    using after unfolding seqG_Ok_iff by auto
  have "sentinel_checkFailed E p e t \<noteq> (Ok (), w')" for e t by (rule failsOnlyD [OF sentinel_checkFailed_fails])
  then obtain w7 where "sentinel_CheckAndHeal E m w6 = (Ok (), w7)" "sentinel_reportHealthy E p w7 = (Ok (), w')"
    using heal by (elim tryG_OkE) auto
  with v b r w5 w6 show thesis by (intro that) simp_all
qed

subsection \<open>What the steps leave alone\<close>

text \<open>
  \<open>healing_laws\<close>: Redis and the sentinels behave as documented; no command to a server touches what
  the API server stores; and an update of the status of a RedisSentinel touches neither the
  other objects nor the servers.
\<close>

definition clusterStores ::
  "'e stores \<Rightarrow> ('e \<Rightarrow> string \<times> string \<Rightarrow> PodDisruptionBudget option)
     \<Rightarrow> ('e \<Rightarrow> string \<Rightarrow> (string, string) fmap option \<Rightarrow> Pod list) \<Rightarrow> 'e \<Rightarrow>
     ((string \<times> string \<Rightarrow> Service option) \<times> (string \<times> string \<Rightarrow> ConfigMap option) \<times>
      (string \<times> string \<Rightarrow> StatefulSet option) \<times> (string \<times> string \<Rightarrow> PodDisruptionBudget option))
     \<times> (string \<Rightarrow> (string, string) fmap option \<Rightarrow> Pod list)" where
  "clusterStores db pdbs podsOf x = (allStores db pdbs x, podsOf x)"

definition healing_laws ::
  "'e env \<Rightarrow> 'e stores \<Rightarrow> ('e \<Rightarrow> string \<times> string \<Rightarrow> PodDisruptionBudget option)
     \<Rightarrow> ('e \<Rightarrow> string \<Rightarrow> (string, string) fmap option \<Rightarrow> Pod list) \<Rightarrow> ('e \<Rightarrow> string \<Rightarrow> string) \<Rightarrow> ('e \<Rightarrow> string \<Rightarrow> string) \<Rightarrow> bool" where
  "healing_laws E db pdbs podsOf role mon \<longleftrightarrow>
     cluster_laws E (st_statefulSets db) podsOf role \<and> sentinel_laws E mon \<and> quiet_view E role \<and>
     quiet_view E (clusterStores db pdbs podsOf) \<and>
     (\<forall>opt args x. clusterStores db pdbs podsOf (snd (E_statusCmd E opt args x)) = clusterStores db pdbs podsOf x) \<and>
     (\<forall>rc x. clusterStores db pdbs podsOf (snd (kc_StatusUpdate (E_sentinels E) rc x)) = clusterStores db pdbs podsOf x
        \<and> role (snd (kc_StatusUpdate (E_sentinels E) rc x)) = role x
        \<and> mon (snd (kc_StatusUpdate (E_sentinels E) rc x)) = mon x)"

lemma healing_lawsD:
  assumes "healing_laws E db pdbs podsOf role mon"
  shows "cluster_laws E (st_statefulSets db) podsOf role" "sentinel_laws E mon" "quiet_view E role"
    "quiet_view E (clusterStores db pdbs podsOf)"
    "clusterStores db pdbs podsOf (snd (E_statusCmd E opt args x)) = clusterStores db pdbs podsOf x"
    "(clusterStores db pdbs podsOf (snd (kc_StatusUpdate (E_sentinels E) rc x)), role (snd (kc_StatusUpdate (E_sentinels E) rc x)),
       mon (snd (kc_StatusUpdate (E_sentinels E) rc x))) = (clusterStores db pdbs podsOf x, role x, mon x)"
  using assms unfolding healing_laws_def by simp_all

lemma CheckAndHeal_view:
  assumes quiet: "quiet_view E v" and cmd: "\<And>opt args x. v (snd (E_statusCmd E opt args x)) = v x"
  shows "keepsView v (sentinel_CheckAndHeal E m)"
proof -
  have status: "keepsView v (extG (E_statusCmd E opt args))" for opt args by (rule keepsView_ext) (rule cmd)
  have heal: "keepsView v (SetOldestAsMaster E rc auth)" "keepsView v (SetMasterOnAll E mm rc auth)"
    "keepsView v (healer_MakeMaster E ip auth)" for rc auth mm ip
    unfolding healer_defs MakeMaster_def MakeSlaveOf_def object_client_defs Let_def split_def
    by (intro keepsView_intros status quiet_ext [OF quiet])+
  show ?thesis
    unfolding sentinel_CheckAndHeal_def fixMasters_def ptr_defs Let_def event_defs
    by (intro keepsView_intros keeps_readG heal quiet_checker [OF quiet] quiet_rest [OF quiet])
qed

lemma reportHealthy_view:
  assumes calm: "calm_view E v" and upd: "\<And>rc x. v (snd (kc_StatusUpdate (E_sentinels E) rc x)) = v x"
  shows "keepsView v (sentinel_reportHealthy E p)"
proof -
  have ext: "keepsView v (extG (kc_StatusUpdate (E_sentinels E) rc))" for rc by (rule keepsView_ext) (rule upd)
  have own: "keepsView v (setRs p f)" "keepsView v (SetClusterOK ns n)" for f ns n
    by (simp_all add: keeps_def same_def setRs_def SetClusterOK_def)
  show ?thesis
    unfolding sentinel_reportHealthy_def UpdateSentinelStatus_def SetConditionG_def nowG_def getRs_def event_defs Let_def split_def
    by (intro keepsView_intros keeps_readG own ext calm_ext [OF calm])
qed

lemma clusterStores_eqD:
  assumes "clusterStores db pdbs podsOf y = clusterStores db pdbs podsOf x"
  shows "sentinelSettled db pdbs rc y = sentinelSettled db pdbs rc x"
    "clusterPods (st_statefulSets db) podsOf y ns n = clusterPods (st_statefulSets db) podsOf x ns n"
  using assms by (simp_all add: clusterStores_def allStores_def sentinelSettled_def clusterPods_def split: option.split)

lemma reportHealthy_events: "sentinel_reportHealthy E p w = (r, w') \<Longrightarrow> set (w_events w) \<subseteq> set (w_events w')"
proof -
  let ?R = "\<lambda>w w'. set (w_events w) \<subseteq> set (w_events w')"
  have order: "reflp ?R" "transp ?R" by (auto simp: reflp_def transp_def)
  have leaf: "keeps ?R (extG f)" "keeps ?R (totalG g)" "keeps ?R (recordEvent om t rs msg)" "keeps ?R (setRs p h)"
    "keeps ?R (SetClusterOK ns n)" for f :: "'a \<Rightarrow> (GoErr + 'b) \<times> 'a" and g :: "'a \<Rightarrow> 'c \<times> 'a" and om t rs msg h ns n
    by (auto simp: keeps_def extG_def totalG_def recordEvent_def setRs_def SetClusterOK_def split: prod.split sum.split)
  have "keeps ?R (sentinel_reportHealthy E p)"
    unfolding sentinel_reportHealthy_def UpdateSentinelStatus_def SetConditionG_def nowG_def getRs_def event_defs Let_def split_def
    by (intro keeps_bindG keeps_seqG keeps_if keeps_option keeps_readG keeps_leaf order leaf)
  then show "sentinel_reportHealthy E p w = (r, w') \<Longrightarrow> ?R w w'" by (rule keepsD)
qed

text \<open>A healthy cluster: one master, whom the other Redis pods replicate and the sentinels monitor.\<close>

definition clusterHealthy ::
  "('e \<Rightarrow> string \<times> string \<Rightarrow> StatefulSet option) \<Rightarrow> ('e \<Rightarrow> string \<Rightarrow> (string, string) fmap option \<Rightarrow> Pod list)
     \<Rightarrow> ('e \<Rightarrow> string \<Rightarrow> string) \<Rightarrow> ('e \<Rightarrow> string \<Rightarrow> string) \<Rightarrow> RedisSentinel \<Rightarrow> 'e \<Rightarrow> bool" where
  "clusterHealthy sts podsOf role mon rc x \<longleftrightarrow>
     (\<exists>master. oneMaster role x (clusterPods sts podsOf x (rs_namespace rc) (sentinel_GetRedisName rc)) master
        \<and> (\<forall>ip \<in> set (runningIPs (clusterPods sts podsOf x (rs_namespace rc) (GetSentinelName rc))).
             mon x (sentinelAddr ip) = master))"

subsection \<open>Objects and servers after a successful run\<close>

lemma healed_and_reported:
  assumes laws: "healing_laws E db pdbs podsOf role mon"
    and rc: "rc = w_rs w6 (m_Obj (w_metas w6 m))"
    and hosts: "\<forall>q \<in> set (clusterPods (st_statefulSets db) podsOf (w_ext w') (rs_namespace rc) (sentinel_GetRedisName rc)). pod_ip q \<noteq> ''NO''"
    and heal: "sentinel_CheckAndHeal E m w6 = (Ok (), w7)" and report: "sentinel_reportHealthy E p w7 = (Ok (), w')"
  shows "clusterStores db pdbs podsOf (w_ext w') = clusterStores db pdbs podsOf (w_ext w6)
     \<and> (clusterHealthy (st_statefulSets db) podsOf role mon rc (w_ext w') \<or> (\<exists>msg. failedEvent rc msg \<in> set (w_events w')))"
proof -
  note l = healing_lawsD [OF laws]
  have quiet: "quiet_view E (st_statefulSets db)" "quiet_view E podsOf"
    using l(4) by (auto simp: quiet_view_def calm_view_def clusterStores_def allStores_def)
  have calm: "calm_view E (\<lambda>x. (clusterStores db pdbs podsOf x, role x, mon x))"
    by (intro calm_pair quiet_calm l sentinel_lawsD(1))
  have w7: "clusterStores db pdbs podsOf (w_ext w7) = clusterStores db pdbs podsOf (w_ext w6)"
    by (rule keeps_sameD [OF CheckAndHeal_view [OF l(4,5)] heal])
  have w': "clusterStores db pdbs podsOf (w_ext w') = clusterStores db pdbs podsOf (w_ext w7)"
    "role (w_ext w') = role (w_ext w7)" "mon (w_ext w') = mon (w_ext w7)"
    using keeps_sameD [OF reportHealthy_view [OF calm l(6)] report] by simp_all
  note pods = clusterStores_eqD(2) [OF trans [OF w'(1) w7]]
  from CheckAndHeal_agree [OF l(1) quiet l(3,2) rc refl refl _ heal] hosts [unfolded pods]
  have "(\<exists>master. oneMaster role (w_ext w7) (clusterPods (st_statefulSets db) podsOf (w_ext w6) (rs_namespace rc) (sentinel_GetRedisName rc)) master
        \<and> (\<forall>ip \<in> set (runningIPs (clusterPods (st_statefulSets db) podsOf (w_ext w6) (rs_namespace rc) (GetSentinelName rc))).
             mon (w_ext w7) (sentinelAddr ip) = master)) \<or> (\<exists>msg. w_events w7 = w_events w6 @ [failedEvent rc msg])"
    by blast
  then have "clusterHealthy (st_statefulSets db) podsOf role mon rc (w_ext w') \<or> (\<exists>msg. failedEvent rc msg \<in> set (w_events w'))"
  proof (elim disjE)
    assume "\<exists>msg. w_events w7 = w_events w6 @ [failedEvent rc msg]"
    then show ?thesis using reportHealthy_events [OF report] by auto
  qed (simp add: clusterHealthy_def pods oneMaster_def w'(2,3))
  with w'(1) w7 show ?thesis by simp
qed

lemma event_view: "CheckCluster om w = (r, w') \<Longrightarrow> opView w' = opView w \<and> w_rs w' = w_rs w \<and> w_ext w' = w_ext w"
  "EnsureCluster om w = (r, w') \<Longrightarrow> opView w' = opView w \<and> w_rs w' = w_rs w \<and> w_ext w' = w_ext w"
  by (auto simp: event_defs recordEvent_def opView_def)

text \<open>The object whose objects are ensured and whose servers are healed: the one that the cache has for the key.\<close>

lemma sentinel_Do_target:
  assumes laws: "identity_laws E" and sound: "cachesSound w" "p < w_next w"
    and valid: "onRs p sentinel_Validate w = (Ok b, w1)" and cache: "sentinel_Cache p w1 = (Ok m, w2)"
    and v: "opView w5 = opView w2"
  shows "sentinelKey (w_rs w5 (m_Obj (w_metas w5 m))) = sentinelKey (w_rs w p)"
proof -
  have v1: "opView w1 = opView w" by (rule keeps_sameD [OF keyed_Validate [OF opView_keyed(1)] valid])
  then have sound1: "cachesSound w1" "p < w_next w1" using sound opView_sound [OF v1] by simp_all
  have sound2: "cachesSound w2" using sentinel_Cache_sound [OF sound1 cache] by simp
  have "w_snCache w2 (sentinelKey (w_rs w1 p)) = Some m" using sentinel_Cache_observes(5) [OF cache] by simp
  then have "sentinelKey (w_rs w2 (m_Obj (w_metas w2 m))) = sentinelKey (w_rs w1 p)"
    using cachesSoundD(1) [OF sound2] by (simp add: soundIn_def)
  moreover have "w_metas w5 = w_metas w2" using v by (simp add: opView_def)
  ultimately show ?thesis using opView_entries(3) [OF v] opView_entries(3) [OF v1] by simp
qed

lemma sentinel_Do_success:
  assumes laws: "serves_all E db pdbs" "\<forall>ss. stored_as_written E ss" "healing_laws E db pdbs podsOf role mon" "identity_laws E"
    and sound: "cachesSound w" "p < w_next w" and run: "sentinel_Do E p w = (Ok (), w')"
    and hosts: "\<And>ns n. \<forall>q \<in> set (clusterPods (st_statefulSets db) podsOf (w_ext w') ns n). pod_ip q \<noteq> ''NO''"
  shows "\<exists>rc. sentinelKey rc = sentinelKey (w_rs w p) \<and> sentinelSettled db pdbs rc (w_ext w') \<and>
     (clusterHealthy (st_statefulSets db) podsOf role mon rc (w_ext w') \<or> (\<exists>msg. failedEvent rc msg \<in> set (w_events w')))"
  using run
proof (cases rule: sentinel_Do_OkE)
  case (1 w1 m w2 w3 w4 labels refs w5 w6 w7)
  have v3: "opView w3 = opView w2" by (rule keeps_sameD [OF keyed_report(2) [OF opView_keyed(1) laws(4)] 1(3)])
  have v4: "opView w4 = opView w3" using event_view(2) [OF 1(4)] by simp
  have v5: "opView w5 = opView w4" by (rule keeps_sameD [OF keyed_Ensure [OF opView_keyed(1)] 1(5)])
  have w6: "opView w6 = opView w5" "w_rs w6 = w_rs w5" "w_ext w6 = w_ext w5" using event_view(1) [OF 1(6)] by simp_all
  have v: "opView w6 = opView w2" using v3 v4 v5 w6(1) by simp
  have metas: "w_metas w6 = w_metas w3" using v v3 by (simp add: opView_def)
  define rc where "rc = w_rs w6 (m_Obj (w_metas w6 m))"
  have settled: "sentinelSettled db pdbs rc (w_ext w6)"
    using sentinel_Ensure_settles [OF laws(1,2) 1(5)] by (simp add: rc_def metas w6(2,3))
  note healed = healed_and_reported [OF laws(3) rc_def hosts 1(7,8)]
  have "sentinelKey rc = sentinelKey (w_rs w p)"
    unfolding rc_def by (rule sentinel_Do_target [OF laws(4) sound 1(1,2) v])
  moreover have "sentinelSettled db pdbs rc (w_ext w')"
    using settled unfolding clusterStores_eqD(1) [OF conjunct1 [OF healed]] .
  ultimately show ?thesis using conjunct2 [OF healed] by (intro exI [of _ rc] conjI)
qed

subsection \<open>The reconcile\<close>

lemma getNamespacedName_inj:
  assumes "CHR ''/'' \<notin> set ns" "CHR ''/'' \<notin> set n" and "getNamespacedName ns' n' = getNamespacedName ns n"
  shows "ns' = ns \<and> n' = n"
proof -
  have eq: "ns' @ CHR ''/'' # n' = ns @ CHR ''/'' # n" using assms(3) by (simp add: getNamespacedName_def)
  from arg_cong [OF this, of "\<lambda>s. count_list s (CHR ''/'')"] have "CHR ''/'' \<notin> set ns'"
    using assms(1,2) by (simp add: count_list_0_iff)
  then have "takeWhile (\<lambda>c. c \<noteq> CHR ''/'') (ns' @ CHR ''/'' # n') = ns'" by (simp add: takeWhile_tail) (metis takeWhile_eq_all_conv)
  moreover have "takeWhile (\<lambda>c. c \<noteq> CHR ''/'') (ns @ CHR ''/'' # n) = ns"
    using assms(1) by (simp add: takeWhile_tail) (metis takeWhile_eq_all_conv)
  ultimately have "ns' = ns" using eq by simp
  with eq show ?thesis by simp
qed

lemma replicas_view: "calm_view E v \<Longrightarrow> keepsView v (CheckSentinelReadyReplicas E rc)"
  unfolding CheckSentinelReadyReplicas_def object_client_defs by (intro keepsView_intros calm_ext)

lemma replicas_own: "keeps extOnly (CheckSentinelReadyReplicas E rc)"
  unfolding CheckSentinelReadyReplicas_def object_client_defs
  by (intro keeps_bindG keeps_seqG keeps_if keeps_leaf extOnly_order extOnly_ext)

text \<open>Only a run of \<open>Do\<close> that succeeded leads to the regular interval.\<close>

lemma sentinel_Reconcile_regular:
  assumes get: "kc_Get (E_sentinels E) ns n (w_ext w) = (Inr inst, x)" and "T \<noteq> 20"
    and run: "sentinel_Reconcile E T ns n w = (Ok (zeroResult\<lparr>RequeueAfter := T * second\<rparr>), w')"
  obtains w1 a where "sentinel_Do E (w_next w)
        (w\<lparr>w_ext := x, w_next := w_next w + 1, w_rs := (w_rs w)(w_next w := inst)\<rparr>) = (Ok (), w1)"
    "CheckSentinelReadyReplicas E (w_rs w1 (w_next w)) w1 = (Ok a, w')"
proof -
  let ?w = "w\<lparr>w_ext := x, w_next := w_next w + 1, w_rs := (w_rs w)(w_next w := inst)\<rparr>"
  have "tryG (sentinel_Do E (w_next w))
      (\<lambda>err. if ErrorMsg err = NeedRequeueImmediatelyMsg then retG (zeroResult\<lparr>Requeue := True\<rparr>)
             else if ErrorMsg err = NeedRequeueMsg then retG (zeroResult\<lparr>RequeueAfter := 20 * second\<rparr>) else failG err)
      (\<lambda>_. getRs (w_next w) (\<lambda>rc. tryG (CheckSentinelReadyReplicas E rc)
         (\<lambda>_. retG (zeroResult\<lparr>RequeueAfter := 20 * second\<rparr>)) (\<lambda>_. retG (zeroResult\<lparr>RequeueAfter := T * second\<rparr>)))) ?w
      = (Ok (zeroResult\<lparr>RequeueAfter := T * second\<rparr>), w')"
    using run get by (simp add: sentinel_Reconcile_def tryG_run extG_def bindG_run allocRs_def)
  then show thesis
  proof (cases rule: tryG_OkE)
    case (ok a w1)
    from ok(2) [unfolded getRs_def readG_run] show thesis
    proof (cases rule: tryG_OkE)
      case (ok b w2)
      with \<open>sentinel_Do E (w_next w) ?w = (Ok a, w1)\<close> show thesis by (intro that) simp_all
    next
      case (err e w2)
      with assms(2) show thesis by (simp add: zeroResult_def second_def)
    qed
  next
    case (err e w1)
    with assms(2) show thesis by (simp add: zeroResult_def second_def split: if_splits)
  qed
qed

lemma clusterPods_listed:
  assumes "\<forall>ns sel. \<forall>q \<in> set (podsOf x ns sel). pod_ip q \<noteq> ''NO''"
  shows "\<forall>q \<in> set (clusterPods sts podsOf x ns n). pod_ip q \<noteq> ''NO''"
  using assms by (cases "sts x (ns, n)") (auto simp: clusterPods_def split: option.split)


lemma steady_healing: "healing_laws steadyEnv steadyStores steadyBudgets steadyPods (\<lambda>_ _. []) (\<lambda>_ _. ''10.0.0.1'')"
  unfolding healing_laws_def by (intro conjI steady_cluster steady_laws) simp_all


end
