(* ===== verification/Redis_Config.thy ===== *)
theory Redis_Config
  imports Standalone_Handler
begin

text \<open>
  The custom configuration takes effect: both controllers compare the live configuration of
  every running server with the one requested and write the latter where they differ. What a
  successful pass guarantees is proved once, in the locale \<open>config_setter\<close>, for both.
\<close>

subsection \<open>Hypotheses on Redis\<close>

text \<open>
  The value under which a parameter should be reported: memory sizes are reported in bytes,
  everything else as written. A memory size that the operator cannot parse is left out.
\<close>

definition wantedValue :: "string \<Rightarrow> string \<Rightarrow> string option" where
  "wantedValue k v = (if k \<in> set ParseConfigMap
     then (case ParseRedisMemConf v of Inl _ \<Rightarrow> None | Inr c \<Rightarrow> Some c) else Some v)"

text \<open>
  \<open>config_laws E conf\<close>: \<open>CONFIG GET *\<close> lists the parameters of the server and changes nothing;
  a successful \<open>CONFIG SET\<close> sets one parameter of one server, memory sizes in bytes; reading
  maps, workloads and pods changes no configuration.
\<close>

definition config_laws :: "'e env \<Rightarrow> ('e \<Rightarrow> string \<Rightarrow> string \<rightharpoonup> string) \<Rightarrow> bool" where
  "config_laws E conf \<longleftrightarrow>
     (\<forall>opt x r y. E_sliceCmd E opt [''config'', ''get'', ''*''] x = (r, y) \<longrightarrow> conf y = conf x
        \<and> (\<forall>vs. r = Inr vs \<longrightarrow> (\<exists>kvs. vs = fieldReply kvs \<and> map_of (rev kvs) = conf x (Addr opt)))) \<and>
     (\<forall>opt k v x r y. E_statusCmd E opt [''config'', ''set'', k, v] x = (Inr r, y) \<longrightarrow>
        (\<exists>s. conf y = (conf x)(Addr opt := (conf x (Addr opt))(k \<mapsto> s)) \<and> (\<forall>c. wantedValue k v = Some c \<longrightarrow> s = c))) \<and>
     (\<forall>m x. conf (snd (E_range E m x)) = conf x) \<and>
     (\<forall>ns n x. conf (snd (kc_Get (E_statefulSets E) ns n x)) = conf x) \<and>
     (\<forall>ns sel x. conf (snd (kc_List (E_pods E) ns sel x)) = conf x)"

lemma config_lawsD:
  assumes "config_laws E conf"
  shows "E_sliceCmd E opt [''config'', ''get'', ''*''] x = (r, y) \<Longrightarrow> conf y = conf x"
    "E_sliceCmd E opt [''config'', ''get'', ''*''] x = (Inr vs, y) \<Longrightarrow>
       \<exists>kvs. vs = fieldReply kvs \<and> map_of (rev kvs) = conf x (Addr opt)"
    "E_statusCmd E opt [''config'', ''set'', k, v] x = (Inr s, y) \<Longrightarrow>
       \<exists>s. conf y = (conf x)(Addr opt := (conf x (Addr opt))(k \<mapsto> s)) \<and> (\<forall>c. wantedValue k v = Some c \<longrightarrow> s = c)"
    "E_range E m x = (kvs, y) \<Longrightarrow> conf y = conf x"
    "kc_Get (E_statefulSets E) ns n x = (g, y) \<Longrightarrow> conf y = conf x"
    "kc_List (E_pods E) ns sel x = (l, y) \<Longrightarrow> conf y = conf x"
proof -
  note laws = assms [unfolded config_laws_def]
  show "E_sliceCmd E opt [''config'', ''get'', ''*''] x = (r, y) \<Longrightarrow> conf y = conf x" using laws by blast
  show "E_sliceCmd E opt [''config'', ''get'', ''*''] x = (Inr vs, y) \<Longrightarrow>
       \<exists>kvs. vs = fieldReply kvs \<and> map_of (rev kvs) = conf x (Addr opt)" using laws by blast
  show "E_statusCmd E opt [''config'', ''set'', k, v] x = (Inr s, y) \<Longrightarrow>
       \<exists>s. conf y = (conf x)(Addr opt := (conf x (Addr opt))(k \<mapsto> s)) \<and> (\<forall>c. wantedValue k v = Some c \<longrightarrow> s = c)"
    using laws by blast
  show "E_range E m x = (kvs, y) \<Longrightarrow> conf y = conf x" using laws by (metis snd_conv)
  show "kc_Get (E_statefulSets E) ns n x = (g, y) \<Longrightarrow> conf y = conf x" using laws by (metis snd_conv)
  show "kc_List (E_pods E) ns sel x = (l, y) \<Longrightarrow> conf y = conf x" using laws by (metis snd_conv)
qed

subsection \<open>Configuration in force\<close>

definition liveValue :: "(string \<rightharpoonup> string) \<Rightarrow> string \<Rightarrow> string" where
  "liveValue live k = (case live k of None \<Rightarrow> [] | Some s \<Rightarrow> s)"

definition inForce :: "strmap \<Rightarrow> (string \<rightharpoonup> string) \<Rightarrow> bool" where
  "inForce cfg live \<longleftrightarrow> (\<forall>k v c. lookupM cfg k = Some v \<and> wantedValue k v = Some c \<longrightarrow> liveValue live k = c)"

lemma configEntryConflict_None:
  "configEntryConflict configs (k, v) = None \<longleftrightarrow> (\<forall>c. wantedValue k v = Some c \<longrightarrow> liveValue (fmlookup configs) k = c)"
  by (auto simp: configEntryConflict_def wantedValue_def liveValue_def indexM_def lookupM_def entries_def Let_def
      split: sum.splits option.splits)

lemma guards_pass:
  "forG (\<lambda>kv. guardG (g kv)) kvs w = (Ok u, w') \<Longrightarrow> w' = w \<and> (\<forall>kv \<in> set kvs. g kv = None)"
proof (induction kvs)
  case (Cons kv kvs)
  then show ?case by (cases "g kv") (auto simp: guardG_def seqG_run)
qed simp

lemma range_entries:
  assumes "range_laws E" and "E_range E (entries cfg) x = (kvs, y)"
  shows "(k, v) \<in> set kvs \<longleftrightarrow> lookupM cfg k = Some v"
proof -
  have "distinct (map fst (fst (E_range E (entries cfg) x)))" "map_of (fst (E_range E (entries cfg) x)) = fmlookup (entries cfg)"
    using assms(1) unfolding range_laws_def by blast+
  then have "distinct (map fst kvs)" "map_of kvs = fmlookup (entries cfg)" using assms(2) by simp_all
  then show ?thesis by (metis lookupM_def map_of_eq_Some_iff)
qed

subsection \<open>Writing the configuration\<close>

text \<open>One entry of the requested configuration that a server reports as wanted.\<close>

definition entryInForce :: "strmap \<Rightarrow> (string \<rightharpoonup> string) \<Rightarrow> string \<Rightarrow> bool" where
  "entryInForce cfg live k \<longleftrightarrow> (\<forall>v c. lookupM cfg k = Some v \<and> wantedValue k v = Some c \<longrightarrow> liveValue live k = c)"

lemma inForce_entries: "inForce cfg live \<longleftrightarrow> (\<forall>k. entryInForce cfg live k)"
  by (auto simp: inForce_def entryInForce_def)

lemma applyRedisConfig_Ok:
  assumes laws: "config_laws E conf" and set: "lookupM cfg k = Some v"
    and run: "applyRedisConfig E k v opt w = (Ok u, w')"
  shows "entryInForce cfg (conf (w_ext w') (Addr opt)) k"
    and "entryInForce cfg (conf (w_ext w) a) k' \<Longrightarrow> entryInForce cfg (conf (w_ext w') a) k'"
proof -
  obtain r w1 where w1: "extG (E_statusCmd E opt [''config'', ''set'', k, v]) w = (Ok r, w1)" "skipG w1 = (Ok u, w')"
    using run unfolding applyRedisConfig_def by (rule bindG_OkE)
  then obtain x where "E_statusCmd E opt [''config'', ''set'', k, v] (w_ext w) = (Inr r, x)" "w1 = w\<lparr>w_ext := x\<rparr>"
    unfolding extG_Ok_iff by blast
  then have "E_statusCmd E opt [''config'', ''set'', k, v] (w_ext w) = (Inr r, w_ext w')" using w1(2) by auto
  then obtain s where s: "conf (w_ext w') = (conf (w_ext w))(Addr opt := (conf (w_ext w) (Addr opt))(k \<mapsto> s))"
    "\<forall>c. wantedValue k v = Some c \<longrightarrow> s = c" using config_lawsD(3) [OF laws, of opt k v "w_ext w" r "w_ext w'"] by blast
  show now: "entryInForce cfg (conf (w_ext w') (Addr opt)) k"
    using s(2) set by (simp add: entryInForce_def liveValue_def s(1))
  show "entryInForce cfg (conf (w_ext w') a) k'" if "entryInForce cfg (conf (w_ext w) a) k'"
  proof (cases "a = Addr opt \<and> k' = k")
    case True
    then show ?thesis using now by simp
  next
    case False
    then have "conf (w_ext w') a k' = conf (w_ext w) a k'" by (cases "a = Addr opt") (simp_all add: s(1))
    then show ?thesis using that by (simp add: entryInForce_def liveValue_def)
  qed
qed

lemma applyAll_Ok:
  assumes laws: "config_laws E conf" and "\<forall>(k, v) \<in> set kvs. lookupM cfg k = Some v"
    and "forG (\<lambda>(param, value). applyRedisConfig E param value opt) kvs w = (Ok u, w')"
  shows "(\<forall>(k, v) \<in> set kvs. entryInForce cfg (conf (w_ext w') (Addr opt)) k) \<and>
     (\<forall>a k. entryInForce cfg (conf (w_ext w) a) k \<longrightarrow> entryInForce cfg (conf (w_ext w') a) k)"
  using assms(2,3)
proof (induction kvs arbitrary: w)
  case (Cons kv kvs)
  obtain k v where kv: "kv = (k, v)" by fastforce
  obtain w1 x where w1: "applyRedisConfig E k v opt w = (Ok x, w1)"
    "forG (\<lambda>(param, value). applyRedisConfig E param value opt) kvs w1 = (Ok u, w')"
    using Cons.prems(2) kv by (auto simp: seqG_Ok_iff)
  have set: "lookupM cfg k = Some v" using Cons.prems(1) kv by simp
  note one = applyRedisConfig_Ok [OF laws set w1(1)]
  have rest: "(\<forall>(k, v) \<in> set kvs. entryInForce cfg (conf (w_ext w') (Addr opt)) k)"
    "\<forall>a k. entryInForce cfg (conf (w_ext w1) a) k \<longrightarrow> entryInForce cfg (conf (w_ext w') a) k"
    using Cons.IH [OF _ w1(2)] Cons.prems(1) by simp_all
  show ?case using rest one kv by auto
qed simp

lemma GetAllRedisConfig_Ok:
  assumes laws: "config_laws E conf" and run: "GetAllRedisConfig E opt w = (Ok configs, w')"
  shows "fmlookup configs = conf (w_ext w) (Addr opt)" and "conf (w_ext w') = conf (w_ext w)"
proof -
  obtain vs w1 where w1: "extG (E_sliceCmd E opt [''config'', ''get'', ''*'']) w = (Ok vs, w1)"
    "configPairs vs fmempty w1 = (Ok configs, w')"
    using run unfolding GetAllRedisConfig_def by (rule bindG_OkE)
  from w1(1) obtain x where x: "E_sliceCmd E opt [''config'', ''get'', ''*''] (w_ext w) = (Inr vs, x)" "w1 = w\<lparr>w_ext := x\<rparr>"
    unfolding extG_Ok_iff by blast
  obtain kvs where kvs: "vs = fieldReply kvs" "map_of (rev kvs) = conf (w_ext w) (Addr opt)"
    using config_lawsD(2) [OF laws x(1)] by blast
  have "configs = foldl (\<lambda>m (k, v). fmupd k v m) fmempty kvs" "w' = w1"
    using w1(2) unfolding kvs(1) configPairs_reply by simp_all
  then show "fmlookup configs = conf (w_ext w) (Addr opt)" "conf (w_ext w') = conf (w_ext w)"
    using kvs(2) config_lawsD(1) [OF laws x(1)] x(2) by (auto simp: fun_eq_iff foldl_fmupd_lookup split: option.split)
qed

subsection \<open>A pass over the servers\<close>

locale config_setter =
  fixes E :: "'e env" and cfg :: strmap and auth :: AuthConfig and check set :: "string \<Rightarrow> ('e, unit) op"
    and event :: "('e, unit) op"
  assumes check_run: "check ip = bindG (GetAllRedisConfig E \<lparr>Addr = redisAddr ip, opt_Password = Password auth\<rparr>) (\<lambda>configs.
       bindG (rangeG E cfg) (\<lambda>kvs. forG (\<lambda>kv. guardG (configEntryConflict configs kv)) kvs))"
    and set_run: "set ip = (if entries cfg = fmempty \<and> length (Password auth) = 0 then skipG
       else SetCustomRedisConfig E ip cfg auth)"
    and event_run: "\<exists>w'. event w = (Ok (), w') \<and> w_ext w' = w_ext w"
begin

lemma check_keeps:
  assumes "config_laws E conf" and "check ip w = (r, w')"
  shows "conf (w_ext w') = conf (w_ext w)"
proof -
  have ext: "keepsView conf (extG (E_sliceCmd E opt [''config'', ''get'', ''*'']))" "keepsView conf (totalG (E_range E m))" for opt m
    using config_lawsD(1,4) [OF assms(1)] by (intro keepsView_ext; metis prod.collapse)+
  have "keepsView conf (check ip)"
    unfolding check_run GetAllRedisConfig_def rangeG_def by (intro internal_intros ext)
  then show ?thesis using assms(2) by (auto dest: keeps_sameD)
qed

lemma check_passes:
  assumes laws: "config_laws E conf" "range_laws E" and run: "check ip w = (Ok u, w')"
  shows "inForce cfg (conf (w_ext w') (redisAddr ip))"
proof -
  let ?opt = "\<lparr>Addr = redisAddr ip, opt_Password = Password auth\<rparr>"
  obtain configs w1 where w1: "GetAllRedisConfig E ?opt w = (Ok configs, w1)"
    "bindG (rangeG E cfg) (\<lambda>kvs. forG (\<lambda>kv. guardG (configEntryConflict configs kv)) kvs) w1 = (Ok u, w')"
    using run unfolding check_run by (rule bindG_OkE)
  obtain kvs w2 where w2: "rangeG E cfg w1 = (Ok kvs, w2)"
    "forG (\<lambda>kv. guardG (configEntryConflict configs kv)) kvs w2 = (Ok u, w')" using w1(2) by (rule bindG_OkE)
  have range: "E_range E (entries cfg) (w_ext w1) = (kvs, w_ext w2)"
    using w2(1) by (auto simp: rangeG_def totalG_def split: prod.splits)
  have live: "fmlookup configs = conf (w_ext w') (redisAddr ip)"
    using GetAllRedisConfig_Ok(1) [OF laws(1) w1(1)] check_keeps [OF laws(1) run] by simp
  have "configEntryConflict configs (k, v) = None" if "lookupM cfg k = Some v" for k v
    using guards_pass [OF w2(2)] range_entries [OF laws(2) range] that by blast
  then show ?thesis unfolding inForce_def configEntryConflict_None live by blast
qed

lemma set_Ok:
  assumes laws: "config_laws E conf" "range_laws E" and run: "set ip w = (Ok u, w')"
  shows "inForce cfg (conf (w_ext w') (redisAddr ip))"
    and "inForce cfg (conf (w_ext w) a) \<Longrightarrow> inForce cfg (conf (w_ext w') a)"
proof -
  have "inForce cfg (conf (w_ext w') (redisAddr ip)) \<and> (inForce cfg (conf (w_ext w) a) \<longrightarrow> inForce cfg (conf (w_ext w') a))"
  proof (cases "entries cfg = fmempty \<and> length (Password auth) = 0")
    case True
    then have "inForce cfg live" for live by (simp add: inForce_def lookupM_def)
    then show ?thesis by blast
  next
    case False
    then have "SetCustomRedisConfig E ip cfg auth w = (Ok u, w')" using run unfolding set_run by auto
    then obtain kvs w1 where w1: "rangeG E cfg w = (Ok kvs, w1)"
      "forG (\<lambda>(param, value). applyRedisConfig E param value (setOptions ip redisPort auth)) kvs w1 = (Ok u, w')"
      unfolding SetCustomRedisConfig_def by (rule bindG_OkE)
    have range: "E_range E (entries cfg) (w_ext w) = (kvs, w_ext w1)"
      using w1(1) by (auto simp: rangeG_def totalG_def split: prod.splits)
    note entries = range_entries [OF laws(2) range]
    have "\<forall>(k, v) \<in> List.set kvs. lookupM cfg k = Some v" using entries by blast
    note all = applyAll_Ok [OF laws(1) this w1(2)]
    have "entryInForce cfg (conf (w_ext w') (redisAddr ip)) k" for k
    proof (cases "lookupM cfg k")
      case (Some v)
      then have "(k, v) \<in> List.set kvs" by (simp add: entries)
      with all show ?thesis by auto
    qed (simp add: entryInForce_def)
    then show ?thesis using all config_lawsD(4) [OF laws(1) range] unfolding inForce_entries by metis
  qed
  then show "inForce cfg (conf (w_ext w') (redisAddr ip))"
    "inForce cfg (conf (w_ext w) a) \<Longrightarrow> inForce cfg (conf (w_ext w') a)" by blast+
qed

lemma step_Ok:
  assumes laws: "config_laws E conf" "range_laws E"
    and run: "tryG (check ip) (\<lambda>_. seqG event (set ip)) (\<lambda>_. skipG) w = (Ok u, w')"
  shows "inForce cfg (conf (w_ext w') (redisAddr ip))"
    and "inForce cfg (conf (w_ext w) a) \<Longrightarrow> inForce cfg (conf (w_ext w') a)"
proof -
  have "inForce cfg (conf (w_ext w') (redisAddr ip)) \<and> (inForce cfg (conf (w_ext w) a) \<longrightarrow> inForce cfg (conf (w_ext w') a))"
    using run
  proof (cases rule: tryG_OkE)
    case (ok v t)
    then show ?thesis using check_passes [OF laws ok(1)] check_keeps [OF laws(1) ok(1)] by simp
  next
    case (err e t)
    obtain t1 where t1: "event t = (Ok (), t1)" "w_ext t1 = w_ext t" using event_run by blast
    then have "set ip t1 = (Ok u, w')" using err(2) by (simp add: seqG_run)
    from set_Ok [OF laws this] check_keeps [OF laws(1) err(1)] t1(2) show ?thesis by auto
  qed
  then show "inForce cfg (conf (w_ext w') (redisAddr ip))"
    "inForce cfg (conf (w_ext w) a) \<Longrightarrow> inForce cfg (conf (w_ext w') a)" by blast+
qed

lemma pass_Ok:
  assumes laws: "config_laws E conf" "range_laws E"
    and "forG (\<lambda>ip. tryG (check ip) (\<lambda>_. seqG event (set ip)) (\<lambda>_. skipG)) ips w = (Ok u, w')"
  shows "(\<forall>ip \<in> List.set ips. inForce cfg (conf (w_ext w') (redisAddr ip))) \<and>
     (\<forall>a. inForce cfg (conf (w_ext w) a) \<longrightarrow> inForce cfg (conf (w_ext w') a))"
  using assms(3)
proof (induction ips arbitrary: w)
  case (Cons ip ips)
  obtain w1 x where w1: "tryG (check ip) (\<lambda>_. seqG event (set ip)) (\<lambda>_. skipG) w = (Ok x, w1)"
    "forG (\<lambda>ip. tryG (check ip) (\<lambda>_. seqG event (set ip)) (\<lambda>_. skipG)) ips w1 = (Ok u, w')"
    using Cons.prems unfolding forG.simps seqG_Ok_iff by blast
  show ?case using Cons.IH [OF w1(2)] step_Ok [OF laws w1(1)] by auto
qed auto

end

lemma event_ext: "\<exists>w'. EventUpdateStatus om msg w = (Ok (), w') \<and> w_ext w' = w_ext w"
  by (simp add: EventUpdateStatus_def recordEvent_def)

interpretation rsc: config_setter E "sn_Config (rs_spec rc)" auth "\<lambda>ip. CheckRedisConfig E rc ip auth"
    "\<lambda>ip. SetRedisCustomConfig E ip rc auth" "EventUpdateStatus (rs_meta rc) ''set custom config for redis server''"
  for E rc auth
  by unfold_locales (simp_all add: CheckRedisConfig_def SetRedisCustomConfig_def event_ext redisPort_def)

interpretation rac: config_setter E "sa_Config (ra_spec rc)" auth "\<lambda>ip. standalone_CheckRedisConfig E rc ip auth"
    "\<lambda>ip. standalone_SetRedisCustomConfig E ip rc auth"
    "EventUpdateStatus (ra_meta rc) ''set custom config for redis server''"
  for E rc auth
  by unfold_locales (simp_all add: standalone_CheckRedisConfig_def standalone_SetRedisCustomConfig_def event_ext redisPort_def)

subsection \<open>Properties\<close>

lemma config_reads:
  assumes "config_laws E conf"
  shows "keepsView conf (GetStatefulSet E ns n)" "keepsView conf (GetStatefulSetPods E ns n)"
proof -
  have ext: "keepsView conf (extG (kc_Get (E_statefulSets E) ns n))" "keepsView conf (extG (kc_List (E_pods E) ns sel))" for ns n sel
    using config_lawsD(5,6) [OF assms] by (intro keepsView_ext; metis prod.collapse)+
  show "keepsView conf (GetStatefulSet E ns n)" "keepsView conf (GetStatefulSetPods E ns n)"
    unfolding GetStatefulSetPods_def GetStatefulSet_def getObj_def by (intro internal_intros ext)+
qed


lemma standalone_CheckRedisNumber_Ok:
  assumes "standalone_CheckRedisNumber E rc w = (Ok u, w')"
  shows "\<exists>ss. kc_Get (E_statefulSets E) (ra_namespace rc) (standalone_GetRedisName rc) (w_ext w) = (Inr ss, w_ext w')
     \<and> ss_replicas ss = Some (sa_Size (ra_spec rc)) \<and> ss_readyReplicas ss = sa_Size (ra_spec rc)"
proof -
  obtain ss w1 where w1: "GetStatefulSet E (ra_namespace rc) (standalone_GetRedisName rc) w = (Ok ss, w1)"
    "bindG (derefG (ss_replicas ss)) (\<lambda>replicas. if sa_Size (ra_spec rc) \<noteq> replicas
       then failG (ErrorString ''number of redis pods differ from specification'')
       else if sa_Size (ra_spec rc) \<noteq> ss_readyReplicas ss
       then failG (ErrorString ''waiting all of redis pods become ready'') else skipG) w1 = (Ok u, w')"
    using assms unfolding standalone_CheckRedisNumber_def by (rule bindG_OkE)
  from w1(2) have "ss_replicas ss = Some (sa_Size (ra_spec rc)) \<and> ss_readyReplicas ss = sa_Size (ra_spec rc) \<and> w' = w1"
    by (cases "ss_replicas ss") (simp_all add: derefG_def bindG_run split: if_splits)
  moreover have "kc_Get (E_statefulSets E) (ra_namespace rc) (standalone_GetRedisName rc) (w_ext w) = (Inr ss, w_ext w1)"
    using w1(1) by (auto simp: GetStatefulSet_def getObj_def extG_Ok_iff)
  ultimately show ?thesis by blast
qed

text \<open>
  A run of the standalone \<open>CheckAndHeal\<close> that reports success found the workload complete (the
  stored replicas and the ready ones are the requested size) and leaves the requested
  configuration in force on every running pod.
\<close>

lemma standalone_CheckAndHeal_Ok:
  assumes "config_laws E conf" and "range_laws E" and "cluster_laws E sts podsOf role"
    and "w_ra w (m_Obj (w_metas w m)) = rc"
    and "pods = clusterPods sts podsOf (w_ext w) (ra_namespace rc) (standalone_GetRedisName rc)"
    and "standalone_CheckAndHeal E m w = (Ok (), w')"
  shows "(\<exists>ss. sts (w_ext w) (ra_namespace rc, standalone_GetRedisName rc) = Some ss
        \<and> ss_replicas ss = Some (sa_Size (ra_spec rc)) \<and> ss_readyReplicas ss = sa_Size (ra_spec rc)) \<and>
     (\<forall>ip \<in> set (runningIPs pods). inForce (sa_Config (ra_spec rc)) (conf (w_ext w') (redisAddr ip)))"
proof -
  let ?auth = "m_Auth (w_metas w m)"
  have "tryG (standalone_CheckRedisNumber E rc)
      (\<lambda>_. seqG (EventUpdateStatus (ra_meta rc) ''wait for all redis server start'') (failG ErrNeedRequeue))
      (\<lambda>_. standalone_setRedisConfig E rc ?auth) w = (Ok (), w')"
    using assms(4,6) by (simp add: standalone_CheckAndHeal_def getMeta_def getRa_def)
  then obtain w1 u where w1: "standalone_CheckRedisNumber E rc w = (Ok u, w1)" "standalone_setRedisConfig E rc ?auth w1 = (Ok (), w')"
    by (rule tryG_OkE) (blast, simp add: seqG_Ok_iff)
  obtain ss where get: "kc_Get (E_statefulSets E) (ra_namespace rc) (standalone_GetRedisName rc) (w_ext w) = (Inr ss, w_ext w1)"
    and ss: "ss_replicas ss = Some (sa_Size (ra_spec rc))" "ss_readyReplicas ss = sa_Size (ra_spec rc)"
    using standalone_CheckRedisNumber_Ok [OF w1(1)] by blast
  note g = cluster_get [OF assms(3) get]
  obtain ips w2 where w2: "standalone_GetRedisesIPs E rc w1 = (Ok ips, w2)"
    "forG (\<lambda>rip. tryG (standalone_CheckRedisConfig E rc rip ?auth)
               (\<lambda>_. seqG (EventUpdateStatus (ra_meta rc) ''set custom config for redis server'')
                         (standalone_SetRedisCustomConfig E rip rc ?auth)) (\<lambda>_. skipG)) ips w2 = (Ok (), w')"
    using w1(2) unfolding standalone_setRedisConfig_def by (rule bindG_OkE)
  obtain ps where ps: "GetStatefulSetPods E (ra_namespace rc) (standalone_GetRedisName rc) w1 = (Ok ps, w2)" "ips = runningIPs ps"
    using w2(1) by (auto simp: standalone_GetRedisesIPs_def bindG_Ok_iff)
  have "ips = runningIPs pods"
    using GetStatefulSetPods_Ok(1) [OF assms(3) ps(1)] ps(2) clusterPods_cong [of sts "w_ext w1" "w_ext w" podsOf] g assms(5)
    by simp
  then show ?thesis using rac.pass_Ok [OF assms(1,2) w2(2)] g ss by auto
qed

text \<open>An environment whose Redis servers keep their configuration.\<close>

definition confEnv :: "memApi env" where
  "confEnv = memEnv\<lparr>
     E_sliceCmd := (\<lambda>opt args x. (Inr (fieldReply (ma_configs x (Addr opt))), x)),
     E_statusCmd := (\<lambda>opt args x.
       if length args = 4 \<and> args ! 0 = ''config''
       then (Inr ''OK'', x\<lparr>ma_configs := (ma_configs x)(Addr opt := ma_configs x (Addr opt) @
          [(args ! 2, case wantedValue (args ! 2) (args ! 3) of Some c \<Rightarrow> c | None \<Rightarrow> args ! 3)])\<rparr>)
       else memStatusCmd opt args x)\<rparr>"

definition memConf :: "memApi \<Rightarrow> string \<Rightarrow> string \<rightharpoonup> string" where
  "memConf x a = map_of (rev (ma_configs x a))"

lemma confEnv_sel:
  "E_statefulSets confEnv = E_statefulSets memEnv" "E_pods confEnv = E_pods memEnv" "E_range confEnv = E_range memEnv"
  "E_stringCmd confEnv = E_stringCmd memEnv"
  "E_sliceCmd confEnv = (\<lambda>opt args x. (Inr (fieldReply (ma_configs x (Addr opt))), x))"
  "E_statusCmd confEnv opt [''config'', ''set'', k, v] x =
     (Inr ''OK'', x\<lparr>ma_configs := (ma_configs x)(Addr opt := ma_configs x (Addr opt) @
        [(k, case wantedValue k v of Some c \<Rightarrow> c | None \<Rightarrow> v)])\<rparr>)"
  by (simp_all add: confEnv_def split: option.split)

lemma confEnv_laws: "config_laws confEnv memConf" "range_laws confEnv" "cluster_laws confEnv ma_statefulSets memPodsOf memRole"
proof -
  show "config_laws confEnv memConf"
    unfolding config_laws_def confEnv_sel
    by (auto simp: memConf_def fun_eq_iff memEnv_range_run memEnv_kinds memKind_def memPods_def split: option.split)
  show "range_laws confEnv" using memEnv_range by (simp add: range_laws_def confEnv_sel)
  have "redis_laws confEnv memRole"
    using memEnv_redis unfolding redis_laws_def by (simp add: confEnv_def memEnv_cmds)
  then show "cluster_laws confEnv ma_statefulSets memPodsOf memRole"
    using memEnv_cluster unfolding cluster_laws_def
    by (auto simp: confEnv_def memEnv_cmds memPodsOf_def fun_eq_iff split: if_splits)
qed

text \<open>A server that should close idle connections after a minute and does not yet.\<close>

definition limitedSentinel :: RedisSentinel where
  "limitedSentinel = upd_rs_spec (sn_Config_update (\<lambda>_. mapLit [(''timeout'', ''60'')])) (sentinelNamed ''db'' ''x'')"

definition limitedMem :: memApi where
  "limitedMem = emptyMem\<lparr>
     ma_statefulSets := [(''db'', ''redis-worker-x'') \<mapsto> fst (generateRedisStatefulSet limitedSentinel None [])],
     ma_pods := [samplePod ''10.0.0.1'' 5]\<rparr>"

definition limitedWorld :: "memApi world" where
  "limitedWorld = initWorld limitedMem"

lemma limited_names:
  "sentinel_GetRedisName limitedSentinel = ''redis-worker-x''" "rs_namespace limitedSentinel = ''db''" "rs_name limitedSentinel = ''x''"
  by (simp_all add: limitedSentinel_def resource_name_defs)

lemma limited_config: "sn_Config (rs_spec limitedSentinel) = mapLit [(''timeout'', ''60'')]"
  by (simp add: limitedSentinel_def)

lemma limited_workload:
  "GetStatefulSetPods confEnv ''db'' ''redis-worker-x'' limitedWorld = (Ok [samplePod ''10.0.0.1'' 5], limitedWorld)"
proof -
  have ext: "w_ext limitedWorld = limitedMem" "limitedWorld\<lparr>w_ext := limitedMem\<rparr> = limitedWorld"
    by (simp_all add: limitedWorld_def)
  have ss: "ma_statefulSets limitedMem (''db'', ''redis-worker-x'') = Some (fst (generateRedisStatefulSet limitedSentinel None []))"
    by (simp add: limitedMem_def)
  have sel: "ss_selector (fst (generateRedisStatefulSet limitedSentinel None [])) = Some (roleLabels None RedisRoleName ''x'')"
    by (simp add: limited_names)
  have pods: "kc_List (E_pods confEnv) ''db'' (Some (entries (roleLabels None RedisRoleName ''x''))) limitedMem
      = (Inr [samplePod ''10.0.0.1'' 5], limitedMem)"
    by (simp add: confEnv_sel memEnv_kinds memPods_def limitedMem_def samplePod_def)
  show ?thesis
    by (simp add: GetStatefulSetPods_def GetStatefulSet_def getObj_def confEnv_sel(1) memEnv_kinds(1) memKind_def
        bindG_def tryG_def extG_def derefG_def ext ss sel pods limited_names)
qed

lemma wanted_sample: "wantedValue ''timeout'' ''60'' = Some ''60''"
  by (simp add: wantedValue_def ParseConfigMap_def)

lemma sample_range: "rangeG confEnv (mapLit [(''timeout'', ''60'')]) w = (Ok [(''timeout'', ''60'')], w)"
  by (simp add: rangeG_def totalG_def confEnv_sel memEnv_range_run)

lemma limited_step:
  "\<exists>e. bindG (GetAllRedisConfig confEnv opt) (\<lambda>configs. bindG (rangeG confEnv (mapLit [(''timeout'', ''60'')]))
      (\<lambda>kvs. forG (\<lambda>kv. guardG (configEntryConflict configs kv)) kvs)) limitedWorld = (Fail e, limitedWorld)"
  "\<exists>w'. SetCustomRedisConfig confEnv ip (mapLit [(''timeout'', ''60'')]) auth w = (Ok (), w')"
proof -
  have "GetAllRedisConfig confEnv opt limitedWorld = (Ok fmempty, limitedWorld)"
    by (simp add: GetAllRedisConfig_def bindG_def tryG_def extG_def confEnv_sel fieldReply_def limitedWorld_def initWorld_def
        limitedMem_def emptyMem_def)
  moreover have "configEntryConflict fmempty (''timeout'', ''60'') \<noteq> None"
    by (simp only: configEntryConflict_None wanted_sample) (simp add: liveValue_def)
  ultimately show "\<exists>e. bindG (GetAllRedisConfig confEnv opt) (\<lambda>configs. bindG (rangeG confEnv (mapLit [(''timeout'', ''60'')]))
      (\<lambda>kvs. forG (\<lambda>kv. guardG (configEntryConflict configs kv)) kvs)) limitedWorld = (Fail e, limitedWorld)"
    by (auto simp: bindG_def tryG_def seqG_def sample_range [simplified] guardG_def)
  show "\<exists>w'. SetCustomRedisConfig confEnv ip (mapLit [(''timeout'', ''60'')]) auth w = (Ok (), w')"
    by (simp add: SetCustomRedisConfig_def bindG_def tryG_def seqG_def sample_range [simplified] applyRedisConfig_def extG_def confEnv_sel)
qed

lemma limited_set:
  "SetRedisCustomConfig E ip limitedSentinel auth = SetCustomRedisConfig E ip (mapLit [(''timeout'', ''60'')]) auth"
proof -
  have "entries (mapLit [(''timeout'', ''60'')]) \<noteq> fmempty" by (simp add: entries_def)
  then show ?thesis unfolding SetRedisCustomConfig_def limited_config by simp
qed

lemma sample_running: "runningIPs [samplePod ip t] = [ip]"
  by (simp add: runningIPs_def samplePod_def podRunning_def)

lemma inForce_sample: "inForce (mapLit [(''timeout'', ''60'')]) live \<Longrightarrow> liveValue live ''timeout'' = ''60''"
proof -
  assume "inForce (mapLit [(''timeout'', ''60'')]) live"
  moreover have "lookupM (mapLit [(''timeout'', ''60'')]) ''timeout'' = Some ''60''" by (simp add: lookupM_def entries_def)
  ultimately show "liveValue live ''timeout'' = ''60''" using wanted_sample unfolding inForce_def by blast
qed


end
