(* ===== verification/Standalone_Success.thy ===== *)
theory Standalone_Success
  imports Reconcile_Success Redis_Config
begin

text \<open>
  The parts of the standalone controller put together: what holds of the server when the gauge of a
  RedisStandalone turns to one, in the state in which the reconcile leaves it.
\<close>

subsection \<open>The run of a successful reconcile\<close>

lemma standalone_checkFailed_fails: "failsOnly (standalone_checkFailed E p err)"
  unfolding standalone_checkFailed_def getRa_def Let_def by (intro failsOnly_rules)

lemma standalone_Do_OkE:
  assumes "standalone_Do E p w = (Ok (), w')"
  obtains w1 m w2 w3 w4 labels refs w5 w6 w7 where
    "onRa p standalone_Validate w = (Ok False, w1)" "standalone_Cache p w1 = (Ok m, w2)"
    "standalone_updateStatus E m w2 = (Ok (), w3)" "EnsureCluster (ra_meta (w_ra w3 p)) w3 = (Ok (), w4)"
    "standalone_Ensure E (m_Obj (w_metas w3 m)) labels refs w4 = (Ok (), w5)"
    "CheckCluster (ra_meta (w_ra w5 p)) w5 = (Ok (), w6)" "standalone_CheckAndHeal E m w6 = (Ok (), w7)"
    "standalone_reportHealthy E p w7 = (Ok (), w')"
proof -
  obtain b w1 where v: "onRa p standalone_Validate w = (Ok b, w1)"
    and rest: "(if b then getRa p (\<lambda>rc. seqG (UpdateStandaloneSpec E (ra_namespace rc) p) (failG ErrNeedRequeueImmediately))
       else bindG (standalone_Cache p) (\<lambda>m. seqG (standalone_updateStatus E m) (getRa p (\<lambda>rc. getMeta m (\<lambda>meta.
            seqG (EnsureCluster (ra_meta rc))
           (tryG (standalone_Ensure E (m_Obj meta) (standalone_getLabels rc) (standalone_createOwnerReferences rc))
              (\<lambda>err. seqG (standalone_reportFailed E p err) (seqG (standalone_setError p) (failG err)))
              (\<lambda>_. getRa p (\<lambda>rc'. seqG (CheckCluster (ra_meta rc'))
                (tryG (standalone_CheckAndHeal E m) (standalone_checkFailed E p)
                   (\<lambda>_. standalone_reportHealthy E p)))))))))) w1 = (Ok (), w')"
    using assms unfolding standalone_Do_def
    by (cases rule: tryG_OkE) (use failsOnlyD [OF failsOnly_rules(2) [OF failsOnly_rules(1)]] in blast)+
  have b: "\<not> b"
  proof
    assume "b"
    then have "failsOnly (getRa p (\<lambda>rc. seqG (UpdateStandaloneSpec E (ra_namespace rc) p) (failG ErrNeedRequeueImmediately)))"
      unfolding getRa_def by (intro failsOnly_rules)
    from failsOnlyD [OF this] rest \<open>b\<close> show False by simp
  qed
  obtain m w2 w3 w4 where r: "standalone_Cache p w1 = (Ok m, w2)" "standalone_updateStatus E m w2 = (Ok (), w3)"
    "EnsureCluster (ra_meta (w_ra w3 p)) w3 = (Ok (), w4)"
    and ens: "tryG (standalone_Ensure E (m_Obj (w_metas w3 m)) (standalone_getLabels (w_ra w3 p)) (standalone_createOwnerReferences (w_ra w3 p)))
              (\<lambda>err. seqG (standalone_reportFailed E p err) (seqG (standalone_setError p) (failG err)))
              (\<lambda>_. getRa p (\<lambda>rc'. seqG (CheckCluster (ra_meta rc'))
                (tryG (standalone_CheckAndHeal E m) (standalone_checkFailed E p)
                   (\<lambda>_. standalone_reportHealthy E p)))) w4 = (Ok (), w')"
    using rest b by (auto simp: getRa_def getMeta_def bindG_Ok_iff seqG_Ok_iff)
  have fail: "failsOnly (seqG (standalone_reportFailed E p err) (seqG (standalone_setError p) (failG err)))" for err
    by (intro failsOnly_rules)
  obtain w5 where w5: "standalone_Ensure E (m_Obj (w_metas w3 m)) (standalone_getLabels (w_ra w3 p))
      (standalone_createOwnerReferences (w_ra w3 p)) w4 = (Ok (), w5)"
    and after: "seqG (CheckCluster (ra_meta (w_ra w5 p))) (tryG (standalone_CheckAndHeal E m) (standalone_checkFailed E p)
                   (\<lambda>_. standalone_reportHealthy E p)) w5 = (Ok (), w')"
    using ens by (cases rule: tryG_OkE) (use failsOnlyD [OF fail] in \<open>auto simp: getRa_def\<close>)
  obtain w6 where w6: "CheckCluster (ra_meta (w_ra w5 p)) w5 = (Ok (), w6)"
    and heal: "tryG (standalone_CheckAndHeal E m) (standalone_checkFailed E p) (\<lambda>_. standalone_reportHealthy E p) w6 = (Ok (), w')"
    using after unfolding seqG_Ok_iff by auto
  have "standalone_checkFailed E p e t \<noteq> (Ok (), w')" for e t by (rule failsOnlyD [OF standalone_checkFailed_fails])
  then obtain w7 where "standalone_CheckAndHeal E m w6 = (Ok (), w7)" "standalone_reportHealthy E p w7 = (Ok (), w')"
    using heal by (elim tryG_OkE) auto
  with v b r w5 w6 show thesis by (intro that) simp_all
qed

subsection \<open>What the steps leave alone\<close>

text \<open>
  \<open>server_laws\<close>: pods and configurations behave as documented; no read, no command that sets
  a parameter and no look at the clock touches what the API server stores; an update of the status of a
  RedisStandalone touches neither the other objects nor a configuration, and nor does the clock.
\<close>

definition serverStores :: "'e stores \<Rightarrow> ('e \<Rightarrow> string \<Rightarrow> (string, string) fmap option \<Rightarrow> Pod list) \<Rightarrow> 'e \<Rightarrow>
     (string \<times> string \<Rightarrow> Service option) \<times> (string \<times> string \<Rightarrow> ConfigMap option) \<times>
     (string \<times> string \<Rightarrow> StatefulSet option) \<times> (string \<Rightarrow> (string, string) fmap option \<Rightarrow> Pod list)" where
  "serverStores db podsOf x = (st_services db x, st_configMaps db x, st_statefulSets db x, podsOf x)"

definition server_laws :: "'e env \<Rightarrow> 'e stores \<Rightarrow> ('e \<Rightarrow> string \<Rightarrow> (string, string) fmap option \<Rightarrow> Pod list)
     \<Rightarrow> ('e \<Rightarrow> string \<Rightarrow> string) \<Rightarrow> ('e \<Rightarrow> string \<Rightarrow> string \<rightharpoonup> string) \<Rightarrow> bool" where
  "server_laws E db podsOf role conf \<longleftrightarrow>
     cluster_laws E (st_statefulSets db) podsOf role \<and> config_laws E conf \<and> range_laws E \<and>
     calm_view E (serverStores db podsOf) \<and> (\<forall>x. conf (snd (E_now E x)) = conf x) \<and>
     (\<forall>ra x. serverStores db podsOf (snd (kc_StatusUpdate (E_standalones E) ra x)) = serverStores db podsOf x
        \<and> conf (snd (kc_StatusUpdate (E_standalones E) ra x)) = conf x)"

lemma server_lawsD:
  assumes "server_laws E db podsOf role conf"
  shows "cluster_laws E (st_statefulSets db) podsOf role" "config_laws E conf" "range_laws E" "calm_view E (serverStores db podsOf)"
    "(serverStores db podsOf (snd (E_now E x)), conf (snd (E_now E x))) = (serverStores db podsOf x, conf x)"
    "(serverStores db podsOf (snd (kc_StatusUpdate (E_standalones E) ra x)), conf (snd (kc_StatusUpdate (E_standalones E) ra x)))
       = (serverStores db podsOf x, conf x)" "range_keeps E db"
  using assms unfolding server_laws_def by (simp_all add: calm_view_def serverStores_def range_keeps_def)

lemma standalone_CheckAndHeal_view: "calm_view E v \<Longrightarrow> keepsView v (standalone_CheckAndHeal E m)"
  unfolding standalone_CheckAndHeal_def standalone_setRedisConfig_def standalone_CheckRedisNumber_def standalone_GetRedisesIPs_def
    standalone_CheckRedisConfig_def standalone_SetRedisCustomConfig_def GetAllRedisConfig_def SetCustomRedisConfig_def
    applyRedisConfig_def rangeG_def object_client_defs ptr_defs event_defs Let_def split_def
  by (intro keepsView_intros keeps_readG calm_ext)

lemma standalone_reportHealthy_view:
  assumes now: "\<And>x. v (snd (E_now E x)) = v x" and upd: "\<And>ra x. v (snd (kc_StatusUpdate (E_standalones E) ra x)) = v x"
  shows "keepsView v (standalone_reportHealthy E p)"
proof -
  have ext: "keepsView v (extG (kc_StatusUpdate (E_standalones E) ra))" "keepsView v (totalG (E_now E))" for ra
    by (rule keepsView_ext, rule upd) (rule keepsView_ext, rule now)
  have own: "keepsView v (setRa p f)" "keepsView v (SetClusterOK ns n)" for f ns n
    by (simp_all add: keeps_def same_def setRa_def SetClusterOK_def)
  show ?thesis
    unfolding standalone_reportHealthy_def UpdateStandaloneStatus_def standalone_SetConditionG_def nowG_def getRa_def event_defs
      Let_def split_def
    by (intro keepsView_intros keeps_readG own ext)
qed

text \<open>The object whose objects are ensured and whose server is configured: the one that the cache has for the key.\<close>

lemma standalone_Do_target:
  assumes sound: "cachesSound w" "p < w_next w"
    and valid: "onRa p standalone_Validate w = (Ok b, w1)" and cache: "standalone_Cache p w1 = (Ok m, w2)"
    and v: "opView w5 = opView w2"
  shows "standaloneKey (w_ra w5 (m_Obj (w_metas w5 m))) = standaloneKey (w_ra w p)"
proof -
  have v1: "opView w1 = opView w" by (rule keeps_sameD [OF keyedRa_Validate [OF opView_keyed(2)] valid])
  then have sound1: "cachesSound w1" "p < w_next w1" using sound opView_sound [OF v1] by simp_all
  have sound2: "cachesSound w2" using standalone_Cache_sound [OF sound1 cache] by simp
  have "w_saCache w2 (standaloneKey (w_ra w1 p)) = Some m" using standalone_Cache_observes(5) [OF cache] by simp
  then have "standaloneKey (w_ra w2 (m_Obj (w_metas w2 m))) = standaloneKey (w_ra w1 p)"
    using cachesSoundD(2) [OF sound2] by (simp add: soundIn_def)
  moreover have "w_metas w5 = w_metas w2" using v by (simp add: opView_def)
  ultimately show ?thesis using opView_entries(4) [OF v] opView_entries(4) [OF v1] by simp
qed

lemma event_ra: "CheckCluster om w = (r, w') \<Longrightarrow> opView w' = opView w \<and> w_ra w' = w_ra w \<and> w_ext w' = w_ext w"
  "EnsureCluster om w = (r, w') \<Longrightarrow> opView w' = opView w \<and> w_ra w' = w_ra w \<and> w_ext w' = w_ext w"
  by (auto simp: event_defs recordEvent_def opView_def)

text \<open>A server that runs as asked: the workload is complete and every running pod has the requested configuration.\<close>

definition serverReady ::
  "('e \<Rightarrow> string \<times> string \<Rightarrow> StatefulSet option) \<Rightarrow> ('e \<Rightarrow> string \<Rightarrow> (string, string) fmap option \<Rightarrow> Pod list)
     \<Rightarrow> ('e \<Rightarrow> string \<Rightarrow> string \<rightharpoonup> string) \<Rightarrow> RedisStandalone \<Rightarrow> 'e \<Rightarrow> bool" where
  "serverReady sts podsOf conf rc x \<longleftrightarrow>
     (\<exists>ss. sts x (ra_namespace rc, standalone_GetRedisName rc) = Some ss
        \<and> ss_replicas ss = Some (sa_Size (ra_spec rc)) \<and> ss_readyReplicas ss = sa_Size (ra_spec rc)) \<and>
     (\<forall>ip \<in> set (runningIPs (clusterPods sts podsOf x (ra_namespace rc) (standalone_GetRedisName rc))).
        inForce (sa_Config (ra_spec rc)) (conf x (redisAddr ip)))"

lemma serverStores_eqD:
  assumes "serverStores db podsOf y = serverStores db podsOf x"
  shows "standaloneSettled db rc y = standaloneSettled db rc x" "st_statefulSets db y = st_statefulSets db x"
    "clusterPods (st_statefulSets db) podsOf y ns n = clusterPods (st_statefulSets db) podsOf x ns n"
  using assms by (simp_all add: serverStores_def standaloneSettled_def clusterPods_def split: option.split)

lemma standalone_Do_success:
  assumes laws: "serves E db" "\<forall>ss. stored_as_written E ss" "server_laws E db podsOf role conf" "standalone_identity_laws E"
    and sound: "cachesSound w" "p < w_next w" and run: "standalone_Do E p w = (Ok (), w')"
  shows "\<exists>rc. standaloneKey rc = standaloneKey (w_ra w p) \<and> standaloneSettled db rc (w_ext w') \<and>
     serverReady (st_statefulSets db) podsOf conf rc (w_ext w')"
  using run
proof (cases rule: standalone_Do_OkE)
  case (1 w1 m w2 w3 w4 labels refs w5 w6 w7)
  note l = server_lawsD [OF laws(3)]
  have v3: "opView w3 = opView w2" by (rule keeps_sameD [OF keyedRa_report(2) [OF opView_keyed(2) laws(4)] 1(3)])
  have v4: "opView w4 = opView w3" using event_ra(2) [OF 1(4)] by simp
  have v5: "opView w5 = opView w4" by (rule keeps_sameD [OF keyedRa_Ensure [OF opView_keyed(2)] 1(5)])
  have w6: "opView w6 = opView w5" "w_ra w6 = w_ra w5" "w_ext w6 = w_ext w5" using event_ra(1) [OF 1(6)] by simp_all
  have v: "opView w6 = opView w2" using v3 v4 v5 w6(1) by simp
  have metas: "w_metas w6 = w_metas w3" using v v3 by (simp add: opView_def)
  define rc where "rc = w_ra w6 (m_Obj (w_metas w6 m))"
  have settled: "standaloneSettled db rc (w_ext w6)"
    using standalone_Ensure_settles [OF laws(1) l(7) laws(2) 1(5)] by (simp add: rc_def metas w6(2,3))
  have w7: "serverStores db podsOf (w_ext w7) = serverStores db podsOf (w_ext w6)"
    by (rule keeps_sameD [OF standalone_CheckAndHeal_view [OF l(4)] 1(7)])
  have "keepsView (\<lambda>x. (serverStores db podsOf x, conf x)) (standalone_reportHealthy E p)"
    by (rule standalone_reportHealthy_view; rule l)
  from keeps_sameD [OF this 1(8)]
  have w': "serverStores db podsOf (w_ext w') = serverStores db podsOf (w_ext w7)" "conf (w_ext w') = conf (w_ext w7)" by simp_all
  note same = serverStores_eqD [OF trans [OF w'(1) w7]]
  have "standaloneKey rc = standaloneKey (w_ra w p)"
    unfolding rc_def by (rule standalone_Do_target [OF sound 1(1,2) v])
  moreover have "standaloneSettled db rc (w_ext w')" using settled unfolding same(1) .
  moreover have "serverReady (st_statefulSets db) podsOf conf rc (w_ext w')"
    using standalone_CheckAndHeal_Ok [OF l(2,3,1) rc_def [symmetric] refl 1(7)] unfolding serverReady_def same(2,3) w'(2) .
  ultimately show ?thesis by blast
qed

subsection \<open>The reconcile\<close>

text \<open>The gauge of an object turns to one only through a run of \<open>Do\<close> that succeeds.\<close>

lemma standalone_Reconcile_turns:
  assumes "standalone_identity_laws E" and get: "kc_Get (E_standalones E) ns n (w_ext w) = (Inr inst, x)" "metaKey (ra_meta inst) = (ns, n)"
    and run: "standalone_Reconcile E T ns n w = (r, w')" and "w_metrics w (ns, n) \<noteq> Some 1" "w_metrics w' (ns, n) = Some 1"
  shows "standalone_Do E (w_next w) (w\<lparr>w_ext := x, w_next := w_next w + 1, w_ra := (w_ra w)(w_next w := inst)\<rparr>) = (Ok (), w')"
    "r = Ok (zeroResult\<lparr>RequeueAfter := T * second\<rparr>)"
proof -
  let ?w = "w\<lparr>w_ext := x, w_next := w_next w + 1, w_ra := (w_ra w)(w_next w := inst)\<rparr>"
  obtain d where d: "standalone_Do E (w_next w) ?w = (d, w')" by (rule standalone_Reconcile_after_Do [OF get(1) run])
  have "gaugeOutcome (w_metrics ?w) (raKey (w_next w) ?w) d (w_metrics w')"
    using standalone_Do_gaugeOut [OF assms(1), of "w_next w"] d unfolding gaugeOut_def by (metis fst_conv snd_conv)
  then have "d = Ok ()" using assms(5,6) get(2)
    by (auto simp: gaugeOutcome_def raKey_def metaKey_def split: if_splits)
  then show "standalone_Do E (w_next w) ?w = (Ok (), w')" "r = Ok (zeroResult\<lparr>RequeueAfter := T * second\<rparr>)"
    using d run get(1) by (auto simp: standalone_Reconcile_def tryG_def extG_def bindG_run allocRa_def)
qed


subsection \<open>A server in its steady state\<close>

text \<open>As the steady cluster, with one server without persistence; parameters cannot be set.\<close>

definition soloRa :: RedisStandalone where
  "soloRa = standaloneDefaults (upd_ra_spec (sa_DisablePersistence_update (\<lambda>_. True)) (standaloneNamed ''db'' ''x''))"

definition soloSets :: "string \<times> string \<Rightarrow> StatefulSet option" where
  "soloSets = [(''db'', ''redis-standalone-x'') \<mapsto> (fst (standalone_generateRedisStatefulSet soloRa None []))\<lparr>ss_readyReplicas := 1\<rparr>]"

definition soloStores :: "unit stores" where
  "soloStores = \<lparr>st_services = st_services steadyStores, st_configMaps = st_configMaps steadyStores, st_statefulSets = \<lambda>_. soloSets\<rparr>"

definition soloPods :: "unit \<Rightarrow> string \<Rightarrow> (string, string) fmap option \<Rightarrow> Pod list" where
  "soloPods x ns sel = [samplePod ''10.0.0.1'' 5]"

definition soloConf :: "(string \<times> string) list" where
  "soloConf = [(''appendonly'', ''no''), (''save'', [])]"

definition soloEnv :: "unit env" where
  "soloEnv = steadyEnv\<lparr>E_statefulSets := fixedKind soloSets, E_standalones := fixedKind [(''db'', ''x'') \<mapsto> soloRa],
     E_pods := (fixedKind (\<lambda>_. None))\<lparr>kc_List := \<lambda>ns sel x. (Inr (soloPods () ns sel), ())\<rparr>,
     E_sliceCmd := (\<lambda>opt args x. (Inr (fieldReply soloConf), ())),
     E_statusCmd := (\<lambda>opt args x. (Inl (ErrorString ''refused''), ()))\<rparr>"

lemma solo_sel:
  "E_services soloEnv = fixedKind (st_services steadyStores ())" "E_configMaps soloEnv = fixedKind (st_configMaps steadyStores ())"
  "E_statefulSets soloEnv = fixedKind soloSets" "E_standalones soloEnv = fixedKind [(''db'', ''x'') \<mapsto> soloRa]"
  "E_pods soloEnv = (fixedKind (\<lambda>_. None))\<lparr>kc_List := \<lambda>ns sel x. (Inr (soloPods () ns sel), ())\<rparr>"
  "E_sentinels soloEnv = fixedKind [(''db'', ''x'') \<mapsto> steadyRc]"
  "E_stringCmd soloEnv = E_stringCmd steadyEnv" "E_statusCmd soloEnv = (\<lambda>opt args x. (Inl (ErrorString ''refused''), ()))"
  "E_boolCmd soloEnv = E_boolCmd steadyEnv" "E_intCmd soloEnv = E_intCmd steadyEnv"
  "E_sliceCmd soloEnv = (\<lambda>opt args x. (Inr (fieldReply soloConf), ()))" "E_now soloEnv = E_now steadyEnv"
  "E_range soloEnv = E_range steadyEnv"
  by (simp_all add: soloEnv_def steady_sel)

lemma steady_range: "range_laws steadyEnv"
  using memEnv_range by (simp add: range_laws_def steady_sel memEnv_range_run)

lemma solo_laws:
  "serves soloEnv soloStores" "stored_as_written soloEnv ss" "identity_laws soloEnv" "standalone_identity_laws soloEnv"
  "server_laws soloEnv soloStores soloPods (\<lambda>_ _. []) (\<lambda>_ _. map_of soloConf)"
proof -
  have api: "api_laws (fixedKind st) meta (\<lambda>_. st)" for st :: "string \<times> string \<Rightarrow> 'o option" and meta
    by (auto simp: api_laws_def split: option.splits)
  show "serves soloEnv soloStores"
    using api [of "st_services steadyStores ()" svc_meta] api [of "st_configMaps steadyStores ()" cm_meta] api [of soloSets ss_meta]
    by (simp add: api_server_def kind_keeps_def solo_sel soloStores_def)
  show "stored_as_written soloEnv ss" "identity_laws soloEnv" "standalone_identity_laws soloEnv"
    by (simp_all add: stored_as_written_def identity_laws_def standalone_identity_laws_def solo_sel)
  have "roleReply ''role:master'' []" by (simp add: roleReply_def sublist_Cons_right)
  then have "redis_laws soloEnv (\<lambda>_ _. [])" by (simp add: redis_laws_def solo_sel steady_sel fun_upd_def)
  then have cluster: "cluster_laws soloEnv (st_statefulSets soloStores) soloPods (\<lambda>_ _. [])"
    by (auto simp: cluster_laws_def solo_sel soloStores_def soloPods_def split: option.splits)
  have "map_of (rev soloConf) = map_of soloConf" by (auto simp: soloConf_def)
  then have conf: "config_laws soloEnv (\<lambda>_ _. map_of soloConf)" by (auto simp: config_laws_def solo_sel)
  show "server_laws soloEnv soloStores soloPods (\<lambda>_ _. []) (\<lambda>_ _. map_of soloConf)"
    unfolding server_laws_def using cluster conf steady_range
    by (simp add: range_laws_def solo_sel calm_view_def)
qed

lemma soloRa_sel:
  "ra_namespace soloRa = ''db''" "ra_name soloRa = ''x''" "sa_Size (ra_spec soloRa) = 1" "ex_Enabled (sa_Exporter (ra_spec soloRa)) = False"
  "sa_ShutdownConfigMap (ra_spec soloRa) = []" "sa_Config (ra_spec soloRa) = Some (fmupd ''save'' [] (fmupd ''appendonly'' ''no'' fmempty))"
  by (simp_all add: soloRa_def standaloneDefaults_def exporterDefaults_def upd_ra_spec_def standaloneNamed_def withPersistence_def
      zero_defs entries_def)

lemma solo_Validate: "standalone_Validate soloRa = (Ok False, soloRa)"
proof -
  have "standaloneError (upd_ra_spec (sa_DisablePersistence_update (\<lambda>_. True)) (standaloneNamed ''db'' ''x'')) = None"
    by (simp add: standaloneError_def standaloneNamed_def upd_ra_spec_def zero_defs)
  from av.accepts [OF av.defaults_accepted [OF this]] show ?thesis by (simp add: soloRa_def av.defaults_stable)
qed

definition solo :: "RedisStandalone \<Rightarrow> bool" where
  "solo rc \<longleftrightarrow> ra_meta rc = ra_meta soloRa \<and> ra_spec rc = ra_spec soloRa"

lemma solo_names:
  assumes "solo rc"
  shows "ra_namespace rc = ''db''" "ra_name rc = ''x''" "standalone_GetRedisName rc = ''redis-standalone-x''" "ra_spec rc = ra_spec soloRa"
  using assms soloRa_sel(1,2) by (simp_all add: solo_def resource_name_defs)

lemma solo_gets:
  "GetService soloEnv ns n w = (Ok (generateRedisService steadyRc None []), w)"
  "GetConfigMap soloEnv ns n w = (Ok (generateSentinelConfigMap steadyRc None []), w)"
  "GetStatefulSet soloEnv ''db'' ''redis-standalone-x'' w =
     (Ok ((fst (standalone_generateRedisStatefulSet soloRa None []))\<lparr>ss_readyReplicas := 1\<rparr>), w)"
  by (simp_all add: wrapper_defs extG_def solo_sel steadyStores_def soloSets_def)

lemma solo_Ensure:
  assumes "solo (w_ra w p)"
  shows "standalone_Ensure soloEnv p labels refs w = (Ok (), w)"
proof -
  note n = solo_names [OF assms]
  have make: "CreateIfNotExistsService soloEnv ns s w = (Ok (), w)" "CreateIfNotExistsConfigMap soloEnv ns c w = (Ok (), w)" for ns s c
    by (simp_all add: CreateIfNotExistsService_def CreateIfNotExistsConfigMap_def tryG_run solo_gets)
  have "\<exists>cm. standalone_generateRedisConfigMap soloEnv (w_ra w p) labels refs w = (Ok cm, w)"
    by (simp add: standalone_generateRedisConfigMap_def Let_def rangeG_def totalG_def bindG_run solo_sel steady_sel)
  then have written: "standalone_EnsureRedisConfigMap soloEnv (w_ra w p) labels refs w = (Ok (), w)"
    by (auto simp: standalone_EnsureRedisConfigMap_def bindG_run make)
  have "standalone_EnsureRedisStatefulset soloEnv p labels refs w = (Ok (), w)"
    by (simp add: standalone_EnsureRedisStatefulset_def getRa_def n tryG_run solo_gets soloRa_sel
        standalone_generateRedisStatefulSet_def Let_def indexG_def derefG_def bindG_run standaloneContainer_def
        standalone_shouldUpdateRedis_def standalone_exporterChanged_def ExporterContainerName_def)
  then show ?thesis
    by (simp add: standalone_Ensure_def getRa_def seqG_run standalone_EnsureRedisService_def EnsureRedisHeadlessService_def
        standalone_EnsureRedisShutdownConfigMap_def make written n soloRa_sel)
qed

lemma guards_ok: "\<forall>x \<in> set xs. g x = None \<Longrightarrow> forG (\<lambda>x. guardG (g x)) xs w = (Ok (), w)"
  by (induction xs) (auto simp: guardG_def seqG_run)

lemma solo_config:
  assumes "solo rc"
  shows "standalone_CheckRedisConfig soloEnv rc ip auth w = (Ok (), w)"
proof -
  let ?live = "foldl (\<lambda>m (k, v). fmupd k v m) fmempty soloConf"
  let ?m = "fmupd ''save'' [] (fmupd ''appendonly'' ''no'' fmempty)"
  let ?kvs = "map (\<lambda>k. (k, the (fmlookup ?m k))) (sorted_list_of_set (fset (fmdom ?m)))"
  have "configEntryConflict ?live kv = None" if kv: "kv \<in> set ?kvs" for kv
  proof -
    from kv have "kv = (''appendonly'', ''no'') \<or> kv = (''save'', [])" by (auto split: if_splits)
    then show ?thesis by (auto simp: configEntryConflict_None liveValue_def soloConf_def wantedValue_def ParseConfigMap_def)
  qed
  then have "forG (\<lambda>kv. guardG (configEntryConflict ?live kv)) ?kvs w = (Ok (), w)" by (intro guards_ok ballI)
  then show ?thesis
    by (simp add: standalone_CheckRedisConfig_def GetAllRedisConfig_def bindG_run extG_def rangeG_def totalG_def
        solo_sel steady_sel configPairs_reply solo_names [OF assms] soloRa_sel entries_def)
qed

lemma solo_heal:
  assumes "solo (w_ra w 1)" "w_metas w 2 = newStandalone soloRa 1"
  shows "standalone_CheckAndHeal soloEnv 2 w = (Ok (), w)"
proof -
  note n = solo_names [OF assms(1)]
  have number: "standalone_CheckRedisNumber soloEnv (w_ra w 1) w = (Ok (), w)"
    by (simp add: standalone_CheckRedisNumber_def n bindG_run solo_gets soloRa_sel derefG_def del: One_nat_def)
  have "GetStatefulSetPods soloEnv ''db'' ''redis-standalone-x'' w = (Ok [samplePod ''10.0.0.1'' 5], w)"
    by (simp add: GetStatefulSetPods_def solo_gets bindG_run extG_def solo_sel soloPods_def
        standalone_generateRedisStatefulSet_def Let_def)
  then have "standalone_setRedisConfig soloEnv (w_ra w 1) auth w = (Ok (), w)" for auth
    by (simp add: standalone_setRedisConfig_def standalone_GetRedisesIPs_def n bindG_run runningIPs_def samplePod_def podRunning_def
        seqG_run tryG_run solo_config [OF assms(1)] del: One_nat_def)
  moreover have "m_Obj (newStandalone soloRa 1) = 1" by (simp add: newStandalone_def)
  ultimately show ?thesis
    by (simp add: standalone_CheckAndHeal_def getMeta_def getRa_def assms(2) tryG_run number del: One_nat_def)
qed

text \<open>The operator's state after the first observation of the resource.\<close>

definition soloAt :: "unit world \<Rightarrow> bool" where
  "soloAt w \<longleftrightarrow> solo (w_ra w 1) \<and> w_metas w 2 = newStandalone soloRa 1"

lemma solo_status:
  "succeedsG soloAt (standalone_SetConditionG soloEnv 1 k msg) soloAt" "succeedsG soloAt (UpdateStandaloneStatus soloEnv ns 1) soloAt"
  "succeedsG soloAt (recordEvent om t r msg) soloAt" "succeedsG soloAt (SetClusterOK ns n) soloAt"
  by (auto simp: succeedsG_def soloAt_def solo_def standalone_SetConditionG_def UpdateStandaloneStatus_def recordEvent_def
      SetClusterOK_def nowG_def totalG_def getRa_def setRa_def bindG_run seqG_run extG_def solo_sel steady_sel Let_def split: option.split)

lemma solo_seq: "succeedsG soloAt m soloAt \<Longrightarrow> succeedsG soloAt n soloAt \<Longrightarrow> succeedsG soloAt (seqG m n) soloAt"
  by (rule succeedsG_seqG)

lemma solo_report:
  "succeedsG soloAt (standalone_updateStatus soloEnv 2) soloAt" "succeedsG soloAt (standalone_reportHealthy soloEnv 1) soloAt"
proof -
  show "succeedsG soloAt (standalone_reportHealthy soloEnv 1) soloAt"
    unfolding standalone_reportHealthy_def getRa_def event_defs
    by (intro succeedsG_readG solo_seq solo_status)
  have announce: "succeedsG soloAt (seqG (standalone_announce soloEnv (newStandalone soloRa 1) om) (UpdateStandaloneStatus soloEnv ns 1)) soloAt" for om ns
    unfolding standalone_announce_def event_defs Let_def newStandalone_def Meta.select_convs
    by (intro solo_seq succeedsG_if solo_status)
  show "succeedsG soloAt (standalone_updateStatus soloEnv 2) soloAt"
    unfolding standalone_updateStatus_def getMeta_def
  proof (rule succeedsG_readG)
    fix w
    assume "soloAt w"
    then have m: "w_metas w 2 = newStandalone soloRa 1" by (simp add: soloAt_def)
    have obj: "m_Obj (newStandalone soloRa 1) = 1" by (simp add: newStandalone_def)
    show "succeedsG soloAt (if m_State (w_metas w 2) \<noteq> Check
        then getRa (m_Obj (w_metas w 2)) (\<lambda>rc. seqG (standalone_announce soloEnv (w_metas w 2) (ra_meta rc))
          (UpdateStandaloneStatus soloEnv (ra_namespace rc) (m_Obj (w_metas w 2)))) else skipG) soloAt"
      unfolding m obj getRa_def by (intro succeedsG_if succeedsG_readG announce succeedsG_skip)
  qed
qed

lemma solo_Do:
  assumes "w = (initWorld ())\<lparr>w_next := 2, w_ra := (w_ra (initWorld ()))(1 := soloRa)\<rparr>"
  shows "\<exists>w'. standalone_Do soloEnv 1 w = (Ok (), w')"
proof -
  define w2 where "w2 = w\<lparr>w_next := 3, w_metas := (w_metas w)(2 := newStandalone soloRa 1),
    w_saCache := (w_saCache w)(''db/x'' \<mapsto> 2)\<rparr>"
  have rc: "w_ra w 1 = soloRa" "w_ra w2 1 = soloRa" by (simp_all add: assms w2_def)
  have valid: "onRa 1 standalone_Validate w = (Ok False, w)"
    by (simp add: onRa_def zoomG_def rc solo_Validate fun_upd_idem del: One_nat_def)
  have "getNamespacedName ''db'' ''x'' = ''db/x''" by (simp add: getNamespacedName_def)
  then have cache: "standalone_Cache 1 w = (Ok 2, w2)"
    by (simp add: standalone_cache_defs rc soloRa_sel seqG_case bindG_run w2_def assms initWorld_def)
  have at2: "soloAt w2" by (simp add: soloAt_def solo_def rc w2_def del: One_nat_def)
  obtain w3 where w3: "standalone_updateStatus soloEnv 2 w2 = (Ok (), w3)" "soloAt w3"
    using solo_report(1) at2 unfolding succeedsG_def by blast
  obtain w4 where w4: "EnsureCluster (ra_meta (w_ra w3 1)) w3 = (Ok (), w4)" "soloAt w4"
    using solo_status(3) w3(2) unfolding succeedsG_def event_defs by blast
  have obj: "m_Obj (w_metas w3 2) = 1" "solo (w_ra w4 1)" using w3(2) w4(2) by (simp_all add: soloAt_def newStandalone_def)
  obtain w5 where w5: "CheckCluster (ra_meta (w_ra w4 1)) w4 = (Ok (), w5)" "soloAt w5"
    using solo_status(3) w4(2) unfolding succeedsG_def event_defs by blast
  have w6: "standalone_CheckAndHeal soloEnv 2 w5 = (Ok (), w5)" using w5(2) solo_heal unfolding soloAt_def by blast
  obtain w7 where w7: "standalone_reportHealthy soloEnv 1 w5 = (Ok (), w7)"
    using solo_report(2) w5(2) unfolding succeedsG_def by blast
  have "standalone_Do soloEnv 1 w = (Ok (), w7)"
    unfolding standalone_Do_def getRa_def getMeta_def
    by (subst tryG_run(1), rule valid, simp only: if_False, subst bindG_run(1), rule cache, subst seqG_run(1), rule w3(1),
        simp only: readG_run, subst seqG_run(1), rule w4(1), simp only: obj(1), subst tryG_run(1), rule solo_Ensure, rule obj(2),
        simp only: readG_run, subst seqG_run(1), rule w5(1), subst tryG_run(1), rule w6, rule w7)
  then show ?thesis by blast
qed

lemma solo_Reconcile:
  "\<exists>r w'. standalone_Reconcile soloEnv 10 ''db'' ''x'' (initWorld ()) = (r, w') \<and> w_metrics w' (''db'', ''x'') = Some 1"
proof -
  let ?w = "(initWorld ())\<lparr>w_next := 2, w_ra := (w_ra (initWorld ()))(1 := soloRa)\<rparr>"
  obtain w' where w': "standalone_Do soloEnv 1 ?w = (Ok (), w')" using solo_Do [OF refl] by blast
  have "gaugeOutcome (w_metrics ?w) (raKey 1 ?w) (Ok ()) (w_metrics w')"
    using standalone_Do_gaugeOut [OF solo_laws(4), of 1] w' unfolding gaugeOut_def by (metis fst_conv snd_conv)
  then have gauge: "w_metrics w' (''db'', ''x'') = Some 1"
    by (simp add: gaugeOutcome_def raKey_def metaKey_def soloRa_sel)
  have get: "extG (kc_Get (E_standalones soloEnv) ''db'' ''x'') (initWorld ()) = (Ok soloRa, initWorld ())"
    by (simp add: extG_def solo_sel)
  have "allocRa soloRa (initWorld ()) = (Ok 1, ?w)" by (simp add: allocRa_def initWorld_def)
  then have "\<exists>r. standalone_Reconcile soloEnv 10 ''db'' ''x'' (initWorld ()) = (r, w')"
    using w' by (simp add: standalone_Reconcile_def tryG_run get bindG_run del: One_nat_def)
  with gauge show ?thesis by blast
qed


end
