(* ===== verification/Cache_Refinement.thy ===== *)
theory Cache_Refinement
  imports Meta_Cache
begin

text \<open>
  The metadata cache of the RedisSentinel controller refines a map without pointers. In the
  code the cache maps a key to a pointer to a \<open>Meta\<close>, which points to a custom resource that the
  handler keeps mutating; a new object may be linked in, or only compared with the cached one.
  Abstractly there is one map from keys to pairs of an entry and an object. The invariant that
  makes the two agree is that the pointers behind different keys are different.
\<close>

subsection \<open>The abstract cache\<close>

type_synonym absEntry = "Meta \<times> RedisSentinel"

datatype cacheOp =
    Observe RedisSentinel
  | Forget string string
  | Mutate string "RedisSentinel \<Rightarrow> RedisSentinel"

fun specObserve :: "RedisSentinel \<Rightarrow> absEntry option \<Rightarrow> absEntry" where
  "specObserve rc None = (newCluster rc 0, rc)"
| "specObserve rc (Some (e, old)) =
     (if om_generation (rs_meta old) = om_generation (rs_meta rc)
      then (e\<lparr>m_State := if rs_status old = zeroSentinelStatus then Create else Check\<rparr>, old)
      else (sentinel_changedMeta e old rc 0, upd_rs_spec (sn_Password_update (\<lambda>_. sn_Password (rs_spec old))) rc))"

fun specStep :: "cacheOp \<Rightarrow> (string \<rightharpoonup> absEntry) \<Rightarrow> (string \<rightharpoonup> absEntry)" where
  "specStep (Observe rc) c = c(sentinelKey rc \<mapsto> specObserve rc (c (sentinelKey rc)))"
| "specStep (Forget ns n) c = c(getNamespacedName ns n := None)"
| "specStep (Mutate k f) c = c(k := map_option (\<lambda>(e, o1). (e, f o1)) (c k))"

subsection \<open>The cache of the code\<close>

text \<open>
  A reconcile observes the object it fetched, deletion drops a key, and every change the
  handler makes to a cached object (its status, the reply of the API server) goes through
  the pointer of its entry.
\<close>

fun cacheStep :: "cacheOp \<Rightarrow> ('e, unit) op" where
  "cacheStep (Observe rc) = bindG (allocRs rc) (\<lambda>p. bindG (sentinel_Cache p) (\<lambda>_. skipG))"
| "cacheStep (Forget ns n) = sentinel_Del (zeroMeta\<lparr>om_namespace := ns, om_name := n\<rparr>)"
| "cacheStep (Mutate k f) = readG (\<lambda>w. w_snCache w k)
     (\<lambda>v. case v of None \<Rightarrow> skipG | Some m \<Rightarrow> getMeta m (\<lambda>e. setRs (m_Obj e) f))"

definition absCache :: "'e world \<Rightarrow> string \<rightharpoonup> absEntry" where
  "absCache w k = map_option (\<lambda>m. ((w_metas w m)\<lparr>m_Obj := 0\<rparr>, w_rs w (m_Obj (w_metas w m)))) (w_snCache w k)"

definition cacheInv :: "'e world \<Rightarrow> bool" where
  "cacheInv w \<longleftrightarrow>
     (\<forall>k m. w_snCache w k = Some m \<longrightarrow> m < w_next w \<and> m_Obj (w_metas w m) < w_next w) \<and>
     (\<forall>k k' m m'. w_snCache w k = Some m \<and> w_snCache w k' = Some m' \<and> k \<noteq> k' \<longrightarrow>
        m \<noteq> m' \<and> m_Obj (w_metas w m) \<noteq> m_Obj (w_metas w m'))"

lemma cacheInvD:
  assumes "cacheInv w" and "w_snCache w k = Some m"
  shows "m < w_next w" "m_Obj (w_metas w m) < w_next w"
    "w_snCache w k' = Some m' \<Longrightarrow> k \<noteq> k' \<Longrightarrow> m \<noteq> m' \<and> m_Obj (w_metas w m) \<noteq> m_Obj (w_metas w m')"
  using assms unfolding cacheInv_def by blast+

lemma changedMeta_pointer:
  "(sentinel_changedMeta e old new p)\<lparr>m_Obj := 0\<rparr> = sentinel_changedMeta (e\<lparr>m_Obj := 0\<rparr>) old new 0"
  unfolding sentinel_changedMeta_def Let_def
  by (cases "sentinel_isImagesChanged old new"; cases "sentinel_isScalingDown old new"; cases "sentinel_isScalingUp old new";
      cases "sentinel_isResourcesChange old new"; simp)

lemma newCluster_pointer: "(newCluster rc p)\<lparr>m_Obj := 0\<rparr> = newCluster rc 0"
  by (simp add: newCluster_def)

subsection \<open>Simulation\<close>

lemma Observe_new:
  assumes "w_snCache w (sentinelKey rc) = None"
  shows "cacheStep (Observe rc) w = (Ok (), w\<lparr>w_next := w_next w + 2, w_rs := (w_rs w)(w_next w := rc),
     w_metas := (w_metas w)(w_next w + 1 := newCluster rc (w_next w)),
     w_snCache := (w_snCache w)(sentinelKey rc \<mapsto> w_next w + 1)\<rparr>)"
  using assms by (simp add: sentinel_cache_defs seqG_case bindG_run)

lemma Observe_known:
  assumes "w_snCache w (sentinelKey rc) = Some m" and "old = w_rs w (m_Obj (w_metas w m))" and "m_Obj (w_metas w m) < w_next w"
  shows "om_generation (rs_meta old) = om_generation (rs_meta rc) \<Longrightarrow> cacheStep (Observe rc) w =
      (Ok (), w\<lparr>w_next := w_next w + 1, w_rs := (w_rs w)(w_next w := rc), w_metas := (w_metas w)
        (m := (w_metas w m)\<lparr>m_State := if rs_status old = zeroSentinelStatus then Create else Check\<rparr>)\<rparr>)"
    and "om_generation (rs_meta old) \<noteq> om_generation (rs_meta rc) \<Longrightarrow> cacheStep (Observe rc) w =
      (Ok (), w\<lparr>w_next := w_next w + 1,
        w_rs := (w_rs w)(w_next w := upd_rs_spec (sn_Password_update (\<lambda>_. sn_Password (rs_spec old))) rc),
        w_metas := (w_metas w)(m := sentinel_changedMeta (w_metas w m) old rc (w_next w))\<rparr>)"
  using assms by (simp_all add: sentinel_cache_defs seqG_case bindG_run upd_rs_spec_def)

lemma absCache_key: "w_snCache w k = Some m \<Longrightarrow> absCache w k = Some ((w_metas w m)\<lparr>m_Obj := 0\<rparr>, w_rs w (m_Obj (w_metas w m)))"
  "w_snCache w k = None \<Longrightarrow> absCache w k = None"
  by (simp_all add: absCache_def)

lemma cacheInv_link:
  assumes inv: "cacheInv w" and "w_snCache w' = w_snCache w" "w_next w' = w_next w + 1"
    and "w_metas w' = (w_metas w)(m := e)" "m_Obj e = m_Obj (w_metas w m) \<or> m_Obj e = w_next w"
  shows "cacheInv w'"
  unfolding cacheInv_def
proof (intro conjI allI impI)
  fix k k' m1 m2
  assume k: "w_snCache w' k = Some m1"
  then have k1: "w_snCache w k = Some m1" by (simp add: assms(2))
  note d = cacheInvD [OF inv k1]
  show "m1 < w_next w'" using d(1) by (simp add: assms(3))
  show "m_Obj (w_metas w' m1) < w_next w'" using d(2) assms(3-5) by (cases "m1 = m") auto
next
  fix k k' m1 m2
  assume k: "w_snCache w' k = Some m1 \<and> w_snCache w' k' = Some m2 \<and> k \<noteq> k'"
  then have k1: "w_snCache w k = Some m1" "w_snCache w k' = Some m2" "k \<noteq> k'" by (simp_all add: assms(2))
  note d = cacheInvD(3) [OF inv k1] cacheInvD(2) [OF inv k1(1)] cacheInvD(2) [OF inv k1(2)]
  then show "m1 \<noteq> m2" by blast
  from d show "m_Obj (w_metas w' m1) \<noteq> m_Obj (w_metas w' m2)" using assms(4,5) by auto
qed

lemma Observe_simulates:
  assumes inv: "cacheInv w"
  shows "\<exists>w'. cacheStep (Observe rc) w = (Ok (), w') \<and> cacheInv w' \<and> absCache w' = specStep (Observe rc) (absCache w)"
proof (cases "w_snCache w (sentinelKey rc)")
  case None
  let ?w = "w\<lparr>w_next := w_next w + 2, w_rs := (w_rs w)(w_next w := rc),
     w_metas := (w_metas w)(w_next w + 1 := newCluster rc (w_next w)),
     w_snCache := (w_snCache w)(sentinelKey rc \<mapsto> w_next w + 1)\<rparr>"
  have obj: "m_Obj (newCluster rc p) = p" for p by (simp add: newCluster_def)
  have "cacheInv ?w"
    unfolding cacheInv_def using cacheInvD [OF inv] by (auto simp: obj split: if_splits) (metis less_irrefl less_SucI trans_less_add1)+
  moreover have "absCache ?w k = specStep (Observe rc) (absCache w) k" for k
    using cacheInvD(1,2) [OF inv, of k] None absCache_key(2) [OF None]
    by (cases "w_snCache w k") (auto simp: absCache_def obj newCluster_pointer)
  ultimately show ?thesis using Observe_new [OF None] by (intro exI [of _ ?w]) (simp add: fun_eq_iff)
next
  case (Some m)
  let ?e = "w_metas w m"
  let ?old = "w_rs w (m_Obj ?e)"
  note d = cacheInvD [OF inv Some]
  show ?thesis
  proof (cases "om_generation (rs_meta ?old) = om_generation (rs_meta rc)")
    case True
    let ?w = "w\<lparr>w_next := w_next w + 1, w_rs := (w_rs w)(w_next w := rc), w_metas := (w_metas w)
        (m := ?e\<lparr>m_State := if rs_status ?old = zeroSentinelStatus then Create else Check\<rparr>)\<rparr>"
    have "cacheInv ?w"
      by (rule cacheInv_link [OF inv, where m = m
            and e = "?e\<lparr>m_State := if rs_status ?old = zeroSentinelStatus then Create else Check\<rparr>"]) simp_all
    moreover have "absCache ?w k = specStep (Observe rc) (absCache w) k" for k
      using True d absCache_key(1) [OF Some] cacheInvD(1,2) [OF inv, of k] Some
      by (cases "w_snCache w k"; cases "k = sentinelKey rc") (auto simp: absCache_def)
    ultimately show ?thesis using Observe_known(1) [OF Some refl d(2) True] by (intro exI [of _ ?w]) (simp add: fun_eq_iff)
  next
    case False
    let ?w = "w\<lparr>w_next := w_next w + 1,
        w_rs := (w_rs w)(w_next w := upd_rs_spec (sn_Password_update (\<lambda>_. sn_Password (rs_spec ?old))) rc),
        w_metas := (w_metas w)(m := sentinel_changedMeta ?e ?old rc (w_next w))\<rparr>"
    have "cacheInv ?w"
      by (rule cacheInv_link [OF inv, where m = m and e = "sentinel_changedMeta ?e ?old rc (w_next w)"]) simp_all
    moreover have "absCache ?w k = specStep (Observe rc) (absCache w) k" for k
      using False d absCache_key(1) [OF Some] cacheInvD(1,2) [OF inv, of k] Some
      by (cases "w_snCache w k"; cases "k = sentinelKey rc") (auto simp: absCache_def changedMeta_pointer)
    ultimately show ?thesis using Observe_known(2) [OF Some refl d(2) False] by (intro exI [of _ ?w]) (simp add: fun_eq_iff)
  qed
qed

lemma cacheStep_simulates:
  assumes inv: "cacheInv w"
  shows "\<exists>w'. cacheStep op w = (Ok (), w') \<and> cacheInv w' \<and> absCache w' = specStep op (absCache w)"
proof (cases op)
  case (Observe rc)
  then show ?thesis using Observe_simulates [OF inv] by simp
next
  case (Forget ns n)
  let ?w = "w\<lparr>w_snCache := (w_snCache w)(getNamespacedName ns n := None)\<rparr>"
  have "cacheInv ?w" using inv unfolding cacheInv_def by (auto split: if_splits)
  moreover have "absCache ?w = specStep op (absCache w)" by (simp add: Forget absCache_def fun_eq_iff)
  ultimately show ?thesis by (simp add: Forget sentinel_Del_def)
next
  case (Mutate k f)
  show ?thesis
  proof (cases "w_snCache w k")
    case None
    then have "absCache w = specStep op (absCache w)" by (auto simp: Mutate absCache_def fun_eq_iff)
    with inv None show ?thesis by (simp add: Mutate)
  next
    case (Some m)
    let ?p = "m_Obj (w_metas w m)"
    let ?w = "w\<lparr>w_rs := (w_rs w)(?p := f (w_rs w ?p))\<rparr>"
    have "cacheInv ?w" using inv by (simp add: cacheInv_def)
    moreover have "absCache ?w k' = specStep op (absCache w) k'" for k'
      using Some cacheInvD(3) [OF inv Some, of k'] by (cases "w_snCache w k'"; cases "k' = k") (auto simp: Mutate absCache_def)
    ultimately show ?thesis using Some by (simp add: Mutate getMeta_def setRs_def fun_eq_iff)
  qed
qed

lemma cacheSteps_simulate:
  "cacheInv w \<Longrightarrow> \<exists>w'. forG cacheStep ops w = (Ok (), w') \<and> cacheInv w' \<and> absCache w' = fold specStep ops (absCache w)"
proof (induction ops arbitrary: w)
  case (Cons op ops)
  obtain w1 where w1: "cacheStep op w = (Ok (), w1)" "cacheInv w1" "absCache w1 = specStep op (absCache w)"
    using cacheStep_simulates [OF Cons.prems] by blast
  with Cons.IH [OF w1(2)] show ?case by (auto simp: seqG_run)
qed simp

text \<open>
  C8. The cache refines a map. Whatever objects are observed, forgotten and mutated through the
  cache, in whatever order and number, starting from the empty cache: every operation
  succeeds (in particular the lookup after an update never finds the key missing), the
  pointers of different keys stay apart, and the entry and the object the cache then holds
  for each key are those of the pointer-free map, so that no operation on one cluster can
  affect what is cached for another.
\<close>

theorem cache_refines_map:
  "\<exists>w'. forG cacheStep ops (initWorld x) = (Ok (), w') \<and> cacheInv w' \<and> absCache w' = fold specStep ops Map.empty"
proof -
  have "cacheInv (initWorld x)" "absCache (initWorld x) = Map.empty"
    by (simp_all add: cacheInv_def absCache_def initWorld_def fun_eq_iff)
  then show ?thesis using cacheSteps_simulate [of "initWorld x" ops] by simp
qed

end
