(* ===== verification/Startup.thy ===== *)
theory Startup
  imports Operator
begin

text \<open>
  How the operator's process comes up: the package initialisers (\<open>api/v1alpha1\<close>,
  \<open>controllers/common\<close>, \<open>main.go\<close>), the constructors of the two controllers with the client
  bundle they share (\<open>pkg/client/k8s/k8s.go\<close>, \<open>namespaces.go\<close>), their \<open>SetupWithManager\<close> and
  \<open>main\<close> itself. The libraries behind it (Prometheus' registry, controller-runtime's manager and
  builder, client-go) are one function \<open>lib\<close>: a call, with the arguments the code passes, and the
  library's state give an error or success and the next state. The process keeps a trace of its
  calls. \<open>os.Exit\<close> is the value of the run, a panic its \<open>Panic\<close>. Flags arrive parsed; logging
  and the signal handler are left out.
\<close>

subsection \<open>What is handed to the libraries\<close>

record GaugeOpts =
  g_Namespace :: string
  g_Subsystem :: string
  g_Name :: string
  g_Help :: string
  g_labels :: "string list"

record Flags =
  metricsAddr :: string
  probeAddr :: string
  enableLeaderElection :: bool

record ManagerOptions =
  MetricsBindAddress :: string
  mo_Port :: int
  HealthProbeBindAddress :: string
  LeaderElection :: bool
  LeaderElectionID :: string

text \<open>\<open>predicate.Funcs\<close>: a nil function lets every event pass.\<close>

record 'e Funcs =
  CreateFunc :: "(ObjectMeta \<Rightarrow> ('e, bool) op) option"
  DeleteFunc :: "(ObjectMeta \<Rightarrow> bool \<Rightarrow> ('e, bool) op) option"
  UpdateFunc :: "(ObjectMeta \<Rightarrow> ObjectMeta \<Rightarrow> ('e, bool) op) option"
  GenericFunc :: "(ObjectMeta \<Rightarrow> ('e, bool) op) option"

text \<open>A reconciler as its constructor leaves it, and the controller that the builder completes.\<close>

record 'e Reconciler =
  r_recorder :: string
  r_Reconcile :: "string \<Rightarrow> string \<Rightarrow> ('e, Result) op"

record 'e Controller =
  c_For :: string
  c_filter :: "'e Funcs"
  c_MaxConcurrentReconciles :: int
  c_Reconciler :: "'e Reconciler"

datatype 'e LibCall =
    MustRegister GaugeOpts
  | AddClientGoToScheme
  | AddToScheme string string "string list"
  | GetConfig
  | NewManager ManagerOptions
  | NewClient
  | Complete "'e Controller"
  | AddHealthzCheck string
  | AddReadyzCheck string
  | Start

type_synonym ('e, 'x) lib = "'e LibCall \<Rightarrow> 'x \<Rightarrow> (GoErr + unit) \<times> 'x"

text \<open>The process: its package variables, the trace, the libraries' state and the operator's.\<close>

record ('e, 'x) process =
  p_types :: "string list"
  p_MaxConcurrentReconciles :: int
  p_ReconcileTime :: int
  p_calls :: "('e LibCall \<times> GoErr option) list"
  p_lib :: 'x
  p_world :: "'e world"

type_synonym ('e, 'x, 'a) startup = "(('e, 'x) process, 'a) go"

definition callL :: "('e, 'x) lib \<Rightarrow> 'e LibCall \<Rightarrow> ('e, 'x, unit) startup" where
  "callL lib c = (\<lambda>s. case lib c (p_lib s) of
       (Inl e, x) \<Rightarrow> (Fail e, s\<lparr>p_lib := x, p_calls := p_calls s @ [(c, Some e)]\<rparr>)
     | (Inr _, x) \<Rightarrow> (Ok (), s\<lparr>p_lib := x, p_calls := p_calls s @ [(c, None)]\<rparr>))"

text \<open>\<open>if err != nil { panic(err) }\<close>, and \<open>if err != nil { os.Exit(1) }\<close> before the rest of \<open>main\<close>.\<close>

definition mustL :: "('e, 'x, unit) startup \<Rightarrow> ('e, 'x, unit) startup" where
  "mustL m = tryG m (\<lambda>err. panicG (ErrorMsg err)) (\<lambda>_. skipG)"

definition orExit :: "('e, 'x, unit) startup \<Rightarrow> ('e, 'x, int) startup \<Rightarrow> ('e, 'x, int) startup" where
  "orExit m k = tryG m (\<lambda>_. retG 1) (\<lambda>_. k)"

definition onWorld :: "('e world \<Rightarrow> 'e world) \<Rightarrow> ('e, 'x, unit) startup" where
  "onWorld f = modifyG (\<lambda>s. s\<lparr>p_world := f (p_world s)\<rparr>)"

subsection \<open>Package initialisers\<close>

definition SchemeBuilder_Register :: "string list \<Rightarrow> ('e, 'x, unit) startup" where
  "SchemeBuilder_Register ts = modifyG (\<lambda>s. s\<lparr>p_types := p_types s @ ts\<rparr>)"

definition sentinel_types_init :: "('e, 'x, unit) startup" where
  "sentinel_types_init = SchemeBuilder_Register [''RedisSentinel'', ''RedisSentinelList'']"

definition standalone_types_init :: "('e, 'x, unit) startup" where
  "standalone_types_init = SchemeBuilder_Register [''RedisStandalone'', ''RedisStandaloneList'']"

definition clusterHealthyOpts :: "string \<Rightarrow> GaugeOpts" where
  "clusterHealthyOpts namespace = \<lparr>g_Namespace = namespace, g_Subsystem = ''controller'', g_Name = ''cluster_healthy'',
     g_Help = ''Status of redis clusters managed by the operator.'', g_labels = [''namespace'', ''name'']\<rparr>"

definition InitPrometheusMetrics :: "('e, 'x) lib \<Rightarrow> string \<Rightarrow> ('e, 'x, unit) startup" where
  "InitPrometheusMetrics lib namespace =
     seqG (onWorld (\<lambda>w. w\<lparr>w_metrics := Map.empty\<rparr>)) (mustL (callL lib (MustRegister (clusterHealthyOpts namespace))))"

definition MaxConcurrentReconcilesDefault :: int where "MaxConcurrentReconcilesDefault = 4"

definition common_init :: "('e, 'x) lib \<Rightarrow> (string \<Rightarrow> string) \<Rightarrow> ('e, 'x, unit) startup" where
  "common_init lib getenv =
     seqG (modifyG (\<lambda>s. s\<lparr>p_MaxConcurrentReconciles := MaxConcurrentReconcilesDefault\<rparr>))
    (seqG (modifyG (\<lambda>s. s\<lparr>p_ReconcileTime := ReconcileTimeDefault\<rparr>))
    (let namespace = ReplaceSymbol (GetEnvOrDefault getenv ''MY_POD_NAMESPACE'' ''default'') in
     InitPrometheusMetrics lib namespace))"

definition GroupVersion :: "string \<times> string" where
  "GroupVersion = (Group, Version)"

definition main_init :: "('e, 'x) lib \<Rightarrow> ('e, 'x, unit) startup" where
  "main_init lib =
     seqG (mustL (callL lib AddClientGoToScheme))
       (readG p_types (\<lambda>ts. mustL (callL lib (AddToScheme (fst GroupVersion) (snd GroupVersion) ts))))"

subsection \<open>The controllers\<close>

text \<open>Of the bundle's members only the namespace client has a constructor that can fail: it dials the API server itself.\<close>

definition NewNameSpaces :: "('e, 'x) lib \<Rightarrow> ('e, 'x, unit) startup" where
  "NewNameSpaces lib = seqG (mustL (callL lib GetConfig)) (mustL (callL lib NewClient))"

definition k8s_New :: "('e, 'x) lib \<Rightarrow> ('e, 'x, unit) startup" where
  "k8s_New lib = NewNameSpaces lib"

definition RedisSentinelControllerName :: string where "RedisSentinelControllerName = ''redis-sentinel-controller''"

definition RedsiStandaloneControllerName :: string where "RedsiStandaloneControllerName = ''redis-standalone-controller''"

text \<open>\<open>Reconcile\<close> reads the variable \<open>ReconcileTime\<close>, which nothing assigns after the initialiser.\<close>

definition NewRedisSentinelReconciler :: "('e, 'x) lib \<Rightarrow> 'e env \<Rightarrow> ('e, 'x, 'e Reconciler) startup" where
  "NewRedisSentinelReconciler lib E =
     seqG (k8s_New lib)
    (seqG (onWorld (\<lambda>w. w\<lparr>w_snCache := Map.empty\<rparr>))
    (readG p_ReconcileTime (\<lambda>T.
     retG \<lparr>r_recorder = RedisSentinelControllerName, r_Reconcile = sentinel_Reconcile E T\<rparr>)))"

definition NewRedisStandaloneReconciler :: "('e, 'x) lib \<Rightarrow> 'e env \<Rightarrow> ('e, 'x, 'e Reconciler) startup" where
  "NewRedisStandaloneReconciler lib E =
     seqG (k8s_New lib)
    (seqG (onWorld (\<lambda>w. w\<lparr>w_saCache := Map.empty\<rparr>))
    (readG p_ReconcileTime (\<lambda>T.
     retG \<lparr>r_recorder = RedsiStandaloneControllerName, r_Reconcile = standalone_Reconcile E T\<rparr>)))"

definition sentinel_pred :: "'e Funcs" where
  "sentinel_pred = \<lparr>CreateFunc = Some (\<lambda>obj. retG (sentinel_CreateFunc obj)), DeleteFunc = Some sentinel_DeleteFunc,
     UpdateFunc = Some (\<lambda>old new. retG (sentinel_UpdateFunc old new)), GenericFunc = None\<rparr>"

definition standalone_pred :: "'e Funcs" where
  "standalone_pred = \<lparr>CreateFunc = Some (\<lambda>obj. retG (standalone_CreateFunc obj)),
     DeleteFunc = Some (\<lambda>obj unknown. retG (standalone_DeleteFunc obj unknown)),
     UpdateFunc = Some (\<lambda>old new. retG (standalone_UpdateFunc old new)), GenericFunc = None\<rparr>"

definition sentinel_SetupWithManager :: "('e, 'x) lib \<Rightarrow> 'e Reconciler \<Rightarrow> ('e, 'x, unit) startup" where
  "sentinel_SetupWithManager lib r =
     readG p_MaxConcurrentReconciles (\<lambda>k.
       callL lib (Complete \<lparr>c_For = ''RedisSentinel'', c_filter = sentinel_pred, c_MaxConcurrentReconciles = k, c_Reconciler = r\<rparr>))"

definition standalone_SetupWithManager :: "('e, 'x) lib \<Rightarrow> 'e Reconciler \<Rightarrow> ('e, 'x, unit) startup" where
  "standalone_SetupWithManager lib r =
     readG p_MaxConcurrentReconciles (\<lambda>k.
       callL lib (Complete \<lparr>c_For = ''RedisStandalone'', c_filter = standalone_pred, c_MaxConcurrentReconciles = k, c_Reconciler = r\<rparr>))"

subsection \<open>The program\<close>

definition defaultFlags :: Flags where
  "defaultFlags = \<lparr>metricsAddr = '':8080'', probeAddr = '':8081'', enableLeaderElection = False\<rparr>"

definition managerOptions :: "Flags \<Rightarrow> ManagerOptions" where
  "managerOptions fl = \<lparr>MetricsBindAddress = metricsAddr fl, mo_Port = 9443, HealthProbeBindAddress = probeAddr fl,
     LeaderElection = enableLeaderElection fl, LeaderElectionID = ''c740b416.lovelycat.io''\<rparr>"

text \<open>\<open>GetConfigOrDie\<close> exits with 1 as well.\<close>

definition main :: "('e, 'x) lib \<Rightarrow> 'e env \<Rightarrow> Flags \<Rightarrow> ('e, 'x, int) startup" where
  "main lib E fl =
     orExit (callL lib GetConfig)
    (orExit (callL lib (NewManager (managerOptions fl)))
    (orExit (bindG (NewRedisSentinelReconciler lib E) (sentinel_SetupWithManager lib))
    (orExit (bindG (NewRedisStandaloneReconciler lib E) (standalone_SetupWithManager lib))
    (orExit (callL lib (AddHealthzCheck ''healthz''))
    (orExit (callL lib (AddReadyzCheck ''readyz''))
    (orExit (callL lib Start)
    (retG 0)))))))"

text \<open>The run of the process: the initialisers in the order of the imports, then \<open>main\<close>.\<close>

definition process_run :: "('e, 'x) lib \<Rightarrow> 'e env \<Rightarrow> (string \<Rightarrow> string) \<Rightarrow> Flags \<Rightarrow> ('e, 'x, int) startup" where
  "process_run lib E getenv fl =
     seqG sentinel_types_init (seqG standalone_types_init
    (seqG (common_init lib getenv) (seqG (main_init lib) (main lib E fl))))"

subsection \<open>The order of the calls\<close>

text \<open>
  The calls of a start-up that succeeds, in order, each with whether its failure is a panic
  (otherwise it is an exit with status 1).
\<close>

definition metricsNamespace :: "(string \<Rightarrow> string) \<Rightarrow> string" where
  "metricsNamespace getenv = ReplaceSymbol (GetEnvOrDefault getenv ''MY_POD_NAMESPACE'' ''default'')"

definition sentinelController :: "'e env \<Rightarrow> 'e Controller" where
  "sentinelController E = \<lparr>c_For = ''RedisSentinel'', c_filter = sentinel_pred, c_MaxConcurrentReconciles = 4,
     c_Reconciler = \<lparr>r_recorder = ''redis-sentinel-controller'', r_Reconcile = sentinel_Reconcile E 10\<rparr>\<rparr>"

definition standaloneController :: "'e env \<Rightarrow> 'e Controller" where
  "standaloneController E = \<lparr>c_For = ''RedisStandalone'', c_filter = standalone_pred, c_MaxConcurrentReconciles = 4,
     c_Reconciler = \<lparr>r_recorder = ''redis-standalone-controller'', r_Reconcile = standalone_Reconcile E 10\<rparr>\<rparr>"

definition startupScript :: "'e env \<Rightarrow> (string \<Rightarrow> string) \<Rightarrow> Flags \<Rightarrow> ('e LibCall \<times> bool) list" where
  "startupScript E getenv fl =
     [(MustRegister (clusterHealthyOpts (metricsNamespace getenv)), True),
      (AddClientGoToScheme, True),
      (AddToScheme ''redis.lovelycat.io'' ''v1alpha1''
         [''RedisSentinel'', ''RedisSentinelList'', ''RedisStandalone'', ''RedisStandaloneList''], True),
      (GetConfig, False), (NewManager (managerOptions fl), False),
      (GetConfig, True), (NewClient, True), (Complete (sentinelController E), False),
      (GetConfig, True), (NewClient, True), (Complete (standaloneController E), False),
      (AddHealthzCheck ''healthz'', False), (AddReadyzCheck ''readyz'', False), (Start, False)]"

text \<open>A script runs its calls in order up to the first that fails.\<close>

fun runScript :: "('e, 'x) lib \<Rightarrow> ('e LibCall \<times> bool) list \<Rightarrow> 'x \<Rightarrow> int res \<times> ('e LibCall \<times> GoErr option) list \<times> 'x" where
  "runScript lib [] x = (Ok 0, [], x)"
| "runScript lib ((c, panics) # cs) x = (case lib c x of
     (Inl e, y) \<Rightarrow> (if panics then Panic (ErrorMsg e) else Ok 1, [(c, Some e)], y)
   | (Inr _, y) \<Rightarrow> (case runScript lib cs y of (r, tr, z) \<Rightarrow> (r, (c, None) # tr, z)))"

lemma runScript_trace:
  assumes "runScript lib S x = (r, tr, y)"
  shows "prefix (map fst tr) (map fst S) \<and> (\<forall>c \<in> set (butlast tr). snd c = None) \<and>
     (if tr = [] \<or> snd (last tr) = None then length tr = length S \<and> r = Ok 0
      else \<exists>e. snd (last tr) = Some e \<and> r = (if snd (S ! (length tr - 1)) then Panic (ErrorMsg e) else Ok 1))"
  using assms
proof (induction lib S x arbitrary: r tr rule: runScript.induct)
  case (2 lib c panics cs x)
  show ?case
  proof (cases "lib c x")
    case (Pair a y')
    show ?thesis
    proof (cases a)
      case (Inl e)
      then show ?thesis using 2(2) Pair by auto
    next
      case (Inr u)
      obtain r1 t1 z1 where run: "runScript lib cs y' = (r1, t1, z1)" by (metis prod_cases3)
      then have tr: "tr = (c, None) # t1" "r = r1" "y = z1" using 2(2) Pair Inr by auto
      from 2(1) [OF Pair [symmetric] Inr run [unfolded tr(3) [symmetric]]] show ?thesis
        by (cases t1 rule: rev_cases) (auto simp: tr nth_Cons' split: if_splits)
    qed
  qed
qed simp

lemmas startup_defs = process_run_def sentinel_types_init_def standalone_types_init_def SchemeBuilder_Register_def
  common_init_def InitPrometheusMetrics_def main_init_def main_def NewNameSpaces_def k8s_New_def
  NewRedisSentinelReconciler_def NewRedisStandaloneReconciler_def sentinel_SetupWithManager_def
  standalone_SetupWithManager_def onWorld_def Let_def

lemmas startup_values = startupScript_def metricsNamespace_def sentinelController_def standaloneController_def
  GroupVersion_def Group_def Version_def MaxConcurrentReconcilesDefault_def ReconcileTimeDefault_def RedisSentinelControllerName_def
  RedsiStandaloneControllerName_def

text \<open>
  \<open>follows lib W S m s\<close>: from \<open>s\<close>, the program \<open>m\<close> makes the calls of the script \<open>S\<close> and ends as it
  does, and when all have been made the operator's state is \<open>W\<close>.
\<close>

definition follows :: "('e, 'x) lib \<Rightarrow> 'e world \<Rightarrow> ('e LibCall \<times> bool) list \<Rightarrow> ('e, 'x, int) startup \<Rightarrow> ('e, 'x) process \<Rightarrow> bool" where
  "follows lib W S m s \<longleftrightarrow>
     (case runScript lib S (p_lib s) of (r, tr, y) \<Rightarrow>
        case m s of (r', s') \<Rightarrow> r' = r \<and> p_calls s' = p_calls s @ tr \<and> p_lib s' = y \<and> (length tr = length S \<longrightarrow> p_world s' = W))"

definition vars :: "('e, 'x) process \<Rightarrow> string list \<times> int \<times> int \<times> 'e world" where
  "vars s = (p_types s, p_MaxConcurrentReconciles s, p_ReconcileTime s, p_world s)"

lemma follows_call:
  assumes "c = d" and "S \<noteq> [] \<or> p_world s = W" and k: "\<And>t. vars t = vars s \<Longrightarrow> follows lib W S k t"
  shows "follows lib W ((c, True) # S) (seqG (mustL (callL lib d)) k) s"
    "follows lib W ((c, False) # S) (orExit (callL lib d) k) s"
proof -
  obtain a x where ax: "lib d (p_lib s) = (a, x)" by fastforce
  have "follows lib W S k (s\<lparr>p_lib := x, p_calls := p_calls s @ [(d, None)]\<rparr>)" by (rule k) (simp add: vars_def)
  then show "follows lib W ((c, True) # S) (seqG (mustL (callL lib d)) k) s"
    "follows lib W ((c, False) # S) (orExit (callL lib d) k) s"
    using assms(1,2)
    by (cases a; auto simp: ax follows_def seqG_case mustL_def orExit_def tryG_def callL_def split: prod.splits)+
qed

lemma follows_ret: "p_world s = W \<Longrightarrow> follows lib W [] (retG 0) s"
  by (simp add: follows_def)

lemma follows_modify:
  assumes "follows lib W S k (g s)" and "p_calls (g s) = p_calls s" "p_lib (g s) = p_lib s"
  shows "follows lib W S (seqG (modifyG g) k) s"
  using assms by (simp add: follows_def seqG_run)

lemma follows_read: "follows lib W S (k (f s)) s \<Longrightarrow> follows lib W S (readG f k) s"
  by (simp add: follows_def)

text \<open>The program as one sequence.\<close>

lemma bindG_pure: "bindG (readG g q) h = readG g (\<lambda>a. bindG (q a) h)" "bindG (retG v) h = h v"
  by (auto simp: fun_eq_iff bindG_def tryG_def readG_def)

lemma seqG_readG: "seqG (readG f q) k = readG f (\<lambda>a. seqG (q a) k)"
  by (auto simp: fun_eq_iff seqG_case)

lemma orExit_assoc:
  "orExit (seqG (mustL a) m) k = seqG (mustL a) (orExit m k)" "orExit (seqG (modifyG g) m) k = seqG (modifyG g) (orExit m k)"
  "orExit (readG f q) k = readG f (\<lambda>a. orExit (q a) k)"
  by (auto simp: fun_eq_iff seqG_case bindG_def tryG_def orExit_def mustL_def readG_def split: prod.splits res.splits)

lemmas startup_assoc = seqG_assoc bindG_pure seqG_readG orExit_assoc

definition cleared :: "'e world \<Rightarrow> 'e world" where
  "cleared w = w\<lparr>w_metrics := Map.empty, w_snCache := Map.empty, w_saCache := Map.empty\<rparr>"

lemma process_run_follows:
  assumes "p_types s = []"
  shows "follows lib (cleared (p_world s)) (startupScript E getenv fl) (process_run lib E getenv fl) s"
  unfolding startup_defs startup_assoc startupScript_def
  by (intro follows_modify follows_read follows_call follows_ret) (simp_all add: assms vars_def startup_values cleared_def)

lemma process_run_script:
  assumes "p_types s = []" "p_calls s = []" "process_run lib E getenv fl s = (r, s')"
  shows "runScript lib (startupScript E getenv fl) (p_lib s) = (r, p_calls s', p_lib s')"
    "length (p_calls s') = length (startupScript E getenv fl) \<Longrightarrow> p_world s' = cleared (p_world s)"
  using process_run_follows [OF assms(1), of lib E getenv fl] assms(2,3)
  by (auto simp: follows_def split: prod.splits)

lemma cleared_init [simp]: "cleared (initWorld x) = initWorld x"
  by (simp add: cleared_def initWorld_def)

lemma cleared_inv: "operatorInv (cleared w)"
  by (simp add: cleared_def operatorInv_def cachesSound_def soundIn_def)

lemma startup_complete:
  assumes "prefix (map fst tr) (map fst (startupScript E getenv fl))" "Start \<in> fst ` set tr"
  shows "length tr = length (startupScript E getenv fl)"
proof (rule ccontr)
  let ?S = "map fst (startupScript E getenv fl)"
  assume "length tr \<noteq> length (startupScript E getenv fl)"
  then have "map fst tr \<noteq> ?S" by (metis length_map)
  then have "prefix (map fst tr) (butlast ?S)"
    using assms(1) by (cases ?S rule: rev_cases) (auto simp: prefix_snoc)
  then have "Start \<in> set (butlast ?S)" using assms(2) set_mono_prefix by fastforce
  then show False by (simp add: startupScript_def)
qed

lemma startup_reached:
  assumes s: "p_types s = []" "p_calls s = []" and run: "process_run lib E getenv fl s = (r, s')"
    and reached: "Start \<in> fst ` set (p_calls s')"
  shows "map fst (p_calls s') = map fst (startupScript E getenv fl)" "\<forall>c \<in> set (butlast (p_calls s')). snd c = None"
    "p_world s' = cleared (p_world s)"
proof -
  note t = runScript_trace [OF process_run_script(1) [OF s run]]
  have len: "length (p_calls s') = length (startupScript E getenv fl)" using startup_complete [OF conjunct1 [OF t] reached] .
  then show "map fst (p_calls s') = map fst (startupScript E getenv fl)" using conjunct1 [OF t]
    by (metis length_map not_equal_is_parallel parallelD1)
  show "\<forall>c \<in> set (butlast (p_calls s')). snd c = None" using t by blast
  show "p_world s' = cleared (p_world s)" by (rule process_run_script(2) [OF s run len])
qed

text \<open>
  C15. The process comes up in one order. Whatever the libraries answer, it registers the gauge and
  the types, builds the manager, completes the controller of each kind with its own event filter,
  four workers and a delay of ten seconds, adds the probes and starts the manager, and makes each
  call only after all earlier ones have succeeded; the first failure ends it, by a panic or with exit
  status 1 as the call demands, and status 0 means that all calls succeeded. When the manager is
  started, the caches and the gauge are empty, whatever was there before, and the invariant of
  the operator holds.
\<close>

theorem startup_sequence:
  assumes "p_types s = []" and "p_calls s = []" and "process_run lib E getenv fl s = (r, s')"
  shows "prefix (map fst (p_calls s')) (map fst (startupScript E getenv fl))
     \<and> (\<forall>c \<in> set (butlast (p_calls s')). snd c = None)
     \<and> (case snd (last (p_calls s')) of
          None \<Rightarrow> length (p_calls s') = length (startupScript E getenv fl) \<and> r = Ok 0
        | Some e \<Rightarrow> r = (if snd (startupScript E getenv fl ! (length (p_calls s') - 1)) then Panic (ErrorMsg e) else Ok 1))
     \<and> (Start \<in> fst ` set (p_calls s') \<longrightarrow> p_world s' = cleared (p_world s) \<and> operatorInv (p_world s'))"
proof -
  note t = runScript_trace [OF process_run_script(1) [OF assms]]
  have ne: "startupScript E getenv fl \<noteq> []" by (simp add: startupScript_def)
  show ?thesis using t ne cleared_inv startup_reached(3) [OF assms] by (auto split: option.splits if_splits)
qed

definition blankProcess :: "'x \<Rightarrow> 'e world \<Rightarrow> ('e, 'x) process" where
  "blankProcess x w = \<lparr>p_types = [], p_MaxConcurrentReconciles = 0, p_ReconcileTime = 0, p_calls = [], p_lib = x, p_world = w\<rparr>"

text \<open>Libraries on which every call succeeds.\<close>

definition willing :: "('e, unit) lib" where "willing c x = (Inr (), ())"

lemma willing_script: "runScript willing S x = (Ok 0, map (\<lambda>c. (fst c, None)) S, ())"
  by (induction S arbitrary: x) (auto simp: willing_def)

theorem startup_sequence_witness:
  "\<exists>s'. process_run willing memEnv (\<lambda>_. []) defaultFlags (blankProcess () (initWorld emptyMem)) = (Ok 0, s')
     \<and> length (p_calls s') = 14 \<and> operatorInv (p_world s')"
proof -
  let ?s = "blankProcess () (initWorld emptyMem) :: (memApi, unit) process"
  obtain r s' where run: "process_run willing memEnv (\<lambda>_. []) defaultFlags ?s = (r, s')" by fastforce
  have s: "p_types ?s = []" "p_calls ?s = []" by (simp_all add: blankProcess_def)
  have calls: "r = Ok 0" "p_calls s' = map (\<lambda>c. (fst c, None)) (startupScript memEnv (\<lambda>_. []) defaultFlags)"
    using process_run_script(1) [OF s run] by (simp_all add: willing_script)
  have "Start \<in> fst ` set (p_calls s')" "length (p_calls s') = 14" by (simp_all add: calls startupScript_def)
  with startup_sequence [OF s run] run calls(1) show ?thesis by blast
qed

subsection \<open>The name of the gauge\<close>

text \<open>
  How Prometheus names and accepts a metric (\<open>BuildFQName\<close>, \<open>IsValidMetricName\<close> of the vendored
  client): the parts joined by underscores must be a name of letters, digits, underscores and
  colons that does not begin with a digit.
\<close>

definition BuildFQName :: "string \<Rightarrow> string \<Rightarrow> string \<Rightarrow> string" where
  "BuildFQName namespace subsystem name =
     (if name = [] then []
      else if namespace \<noteq> [] \<and> subsystem \<noteq> [] then Join [namespace, subsystem, name] ''_''
      else if namespace \<noteq> [] then Join [namespace, name] ''_''
      else if subsystem \<noteq> [] then Join [subsystem, name] ''_''
      else name)"

definition IsValidMetricName :: "string \<Rightarrow> bool" where
  "IsValidMetricName n =
     (if n = [] then False
      else list_all (\<lambda>(i, b). isLower b \<or> isUpper b \<or> b = CHR ''_'' \<or> b = CHR '':'' \<or> (isDigit b \<and> i > 0)) (enumerate 0 n))"

definition metricChar :: "char \<Rightarrow> bool" where
  "metricChar b \<longleftrightarrow> isLower b \<or> isUpper b \<or> b = CHR ''_'' \<or> b = CHR '':'' \<or> isDigit b"

lemma list_all_enumerate: "0 < i \<Longrightarrow>
    list_all (\<lambda>(i, b). isLower b \<or> isUpper b \<or> b = CHR ''_'' \<or> b = CHR '':'' \<or> (isDigit b \<and> i > 0)) (enumerate i n)
      = list_all metricChar n"
  by (induction n arbitrary: i) (auto simp: metricChar_def)

lemma IsValidMetricName_Cons:
  "IsValidMetricName (c # n) \<longleftrightarrow> metricChar c \<and> \<not> isDigit c \<and> list_all metricChar n"
  using list_all_enumerate [of "Suc 0" n]
  by (auto simp: IsValidMetricName_def metricChar_def isDigit_def isLower_def isUpper_def)

lemma gauge_name_valid:
  assumes "ns = c # cs" "\<forall>b \<in> set ns. isLower b \<or> isDigit b \<or> b = CHR ''-''" "c \<noteq> CHR ''-''"
  shows "IsValidMetricName (BuildFQName (ReplaceSymbol ns) ''controller'' ''cluster_healthy'') \<longleftrightarrow> \<not> isDigit c"
proof -
  let ?u = "\<lambda>b. if b = CHR ''-'' then CHR ''_'' else b"
  have name: "BuildFQName (ReplaceSymbol ns) ''controller'' ''cluster_healthy'' = c # map ?u cs @ ''_controller_cluster_healthy''"
    by (simp add: BuildFQName_def ReplaceSymbol_def assms(1,3))
  have "list_all metricChar (map ?u cs)" using assms(1,2) by (auto simp: list_all_iff metricChar_def)
  moreover have "list_all metricChar ''_controller_cluster_healthy''" by code_simp
  moreover have "metricChar c" using assms by (auto simp: metricChar_def)
  ultimately show ?thesis by (simp only: name IsValidMetricName_Cons list_all_append simp_thms)
qed

text \<open>
  C24. Whether the operator survives its own start depends on the name of its namespace. When the
  registry accepts the gauge exactly if its name is valid, then in a namespace with a Kubernetes name
  (lower-case letters, digits and dashes, no dash in front) the registration succeeds if the name
  begins with a letter, and if it begins with a digit, which Kubernetes allows, the process panics
  before \<open>main\<close>: the dashes are replaced for Prometheus, a leading digit is not.
\<close>

theorem startup_namespace:
  assumes "p_types s = []" and "p_calls s = []" and run: "process_run lib E getenv fl s = (r, s')"
    and registry: "\<forall>ns x. fst (lib (MustRegister (clusterHealthyOpts ns)) x) = Inr () \<longleftrightarrow>
      IsValidMetricName (BuildFQName ns ''controller'' ''cluster_healthy'')"
    and ns: "getenv ''MY_POD_NAMESPACE'' = c # cs" "\<forall>b \<in> set (c # cs). isLower b \<or> isDigit b \<or> b = CHR ''-''" "c \<noteq> CHR ''-''"
  shows "if isDigit c
     then \<exists>e. r = Panic (ErrorMsg e) \<and> p_calls s' = [(MustRegister (clusterHealthyOpts (ReplaceSymbol (c # cs))), Some e)]
     else \<exists>calls. p_calls s' = (MustRegister (clusterHealthyOpts (ReplaceSymbol (c # cs))), None) # calls"
proof -
  let ?g = "MustRegister (clusterHealthyOpts (ReplaceSymbol (c # cs)))"
  have "metricsNamespace getenv = ReplaceSymbol (c # cs)" by (simp add: metricsNamespace_def GetEnvOrDefault_def ns(1))
  then obtain S where S: "startupScript E getenv fl = (?g, True) # S" by (simp add: startupScript_def)
  have valid: "fst (lib ?g (p_lib s)) = Inr () \<longleftrightarrow> \<not> isDigit c"
    using registry gauge_name_valid [OF refl ns(2,3)] by blast
  obtain a y where ay: "lib ?g (p_lib s) = (a, y)" by fastforce
  from process_run_script(1) [OF assms(1,2) run] show ?thesis
    using valid by (cases a) (auto simp: S ay split: prod.splits if_splits intro: sym)
qed

text \<open>A registry that knows no other rule.\<close>

definition strict :: "('e, unit) lib" where
  "strict c x = (case c of
     MustRegister g \<Rightarrow> if IsValidMetricName (BuildFQName (g_Namespace g) (g_Subsystem g) (g_Name g)) then Inr ()
       else Inl (ErrorString ''invalid metric name'')
   | _ \<Rightarrow> Inr (), ())"

theorem startup_namespace_witness:
  "\<exists>e s'. process_run strict memEnv (\<lambda>_. ''1st-team'') defaultFlags (blankProcess () (initWorld emptyMem)) = (Panic e, s')
     \<and> length (p_calls s') = 1"
proof -
  let ?s = "blankProcess () (initWorld emptyMem) :: (memApi, unit) process"
  obtain r s' where run: "process_run strict memEnv (\<lambda>_. ''1st-team'') defaultFlags ?s = (r, s')" by fastforce
  have s: "p_types ?s = []" "p_calls ?s = []" by (simp_all add: blankProcess_def)
  have "\<forall>ns x. fst (strict (MustRegister (clusterHealthyOpts ns)) x) = Inr () \<longleftrightarrow>
      IsValidMetricName (BuildFQName ns ''controller'' ''cluster_healthy'')"
    by (simp add: strict_def clusterHealthyOpts_def)
  from startup_namespace [OF s run this, of "CHR ''1''" "''st-team''"] run show ?thesis
    by (auto simp: isDigit_def isLower_def)
qed

end
