(* ===== verification/Controller_Loop.thy ===== *)
theory Controller_Loop
  imports Startup Steady_Cluster
begin

text \<open>
  The running system: the controllers that \<open>main\<close> registered, each with the work queue that
  controller-runtime keeps for it. An event of the API server passes the controller's filter
  and adds a request to its queue; a worker takes a request, reconciles it and adds it again or
  drops it as the result says. These parts of controller-runtime (\<open>predicate.Funcs\<close>,
  \<open>EnqueueRequestForObject\<close>, \<open>reconcileHandler\<close>) are modelled from the vendored source; a queue is
  the set of pending requests, delayed ones included, and the delays themselves are left out. The
  theory shows that this system is the state machine of \<open>Operator\<close>, and that what the caches
  remember is always scheduled.
\<close>

subsection \<open>Events\<close>

datatype WatchEvent =
    CreateEvent ObjectMeta
  | UpdateEvent ObjectMeta ObjectMeta
  | DeleteEvent ObjectMeta bool
  | GenericEvent ObjectMeta

fun Funcs_passes :: "'e Funcs \<Rightarrow> WatchEvent \<Rightarrow> ('e, bool) op" where
  "Funcs_passes p (CreateEvent obj) = (case CreateFunc p of None \<Rightarrow> retG True | Some f \<Rightarrow> f obj)"
| "Funcs_passes p (DeleteEvent obj unknown) = (case DeleteFunc p of None \<Rightarrow> retG True | Some f \<Rightarrow> f obj unknown)"
| "Funcs_passes p (UpdateEvent old new) = (case UpdateFunc p of None \<Rightarrow> retG True | Some f \<Rightarrow> f old new)"
| "Funcs_passes p (GenericEvent obj) = (case GenericFunc p of None \<Rightarrow> retG True | Some f \<Rightarrow> f obj)"

fun EnqueueRequestForObject :: "WatchEvent \<Rightarrow> (string \<times> string) list" where
  "EnqueueRequestForObject (CreateEvent obj) = [metaKey obj]"
| "EnqueueRequestForObject (UpdateEvent old new) = [metaKey old, metaKey new]"
| "EnqueueRequestForObject (DeleteEvent obj _) = [metaKey obj]"
| "EnqueueRequestForObject (GenericEvent obj) = [metaKey obj]"

subsection \<open>Workers\<close>

text \<open>The value says whether the request goes back to the queue, at once, rate-limited or after a delay.\<close>

definition reconcileHandler :: "'e Controller \<Rightarrow> string \<times> string \<Rightarrow> ('e, bool) op" where
  "reconcileHandler c req =
     tryG (r_Reconcile (c_Reconciler c) (fst req) (snd req))
       (\<lambda>err. retG True)
       (\<lambda>result. if RequeueAfter result > 0 then retG True else if Requeue result then retG True else retG False)"

inductive controllerStep :: "'e Controller \<Rightarrow> 'e world \<times> (string \<times> string) set \<Rightarrow> 'e world \<times> (string \<times> string) set \<Rightarrow> bool"
  for c where
  event: "Funcs_passes (c_filter c) ev w = (Ok b, w') \<Longrightarrow>
    controllerStep c (w, Q) (w', if b then set (EnqueueRequestForObject ev) \<union> Q else Q)"
| work: "req \<in> Q \<Longrightarrow> reconcileHandler c req w = (Ok again, w') \<Longrightarrow>
    controllerStep c (w, Q) (w', if again then Q else Q - {req})"

inductive_cases controllerStepE: "controllerStep c (w, Q) (w', Q')"

subsection \<open>The system\<close>

record 'e system =
  y_controllers :: "'e Controller list"
  y_world :: "'e world"
  y_queue :: "string \<Rightarrow> (string \<times> string) set"

text \<open>The controllers that the calls of a process completed, in order.\<close>

fun completed :: "('e LibCall \<times> GoErr option) list \<Rightarrow> 'e Controller list" where
  "completed [] = []"
| "completed ((Complete c, None) # calls) = c # completed calls"
| "completed (_ # calls) = completed calls"

text \<open>
  A process that reaches \<open>Start\<close> begins with empty queues. A crash, of a worker that panics or of
  the whole process, is followed by the next start.
\<close>

inductive systemReach :: "('e, 'x) lib \<Rightarrow> 'e env \<Rightarrow> (string \<Rightarrow> string) \<Rightarrow> Flags \<Rightarrow> 'e system \<Rightarrow> bool"
  for lib E getenv fl where
  start: "process_run lib E getenv fl (blankProcess y (initWorld x)) = (r, s) \<Longrightarrow> Start \<in> fst ` set (p_calls s) \<Longrightarrow>
    systemReach lib E getenv fl \<lparr>y_controllers = completed (p_calls s), y_world = p_world s, y_queue = (\<lambda>_. {})\<rparr>"
| controller: "systemReach lib E getenv fl s \<Longrightarrow> c \<in> set (y_controllers s) \<Longrightarrow>
    controllerStep c (y_world s, y_queue s (c_For c)) (w', Q') \<Longrightarrow>
    systemReach lib E getenv fl (s\<lparr>y_world := w', y_queue := (y_queue s)(c_For c := Q')\<rparr>)"
| cluster: "systemReach lib E getenv fl s \<Longrightarrow> systemReach lib E getenv fl (s\<lparr>y_world := (y_world s)\<lparr>w_ext := x\<rparr>\<rparr>)"

text \<open>\<open>named_gets E\<close>: the API server answers a read of a custom resource with one of the name that was asked for.\<close>

definition named_gets :: "'e env \<Rightarrow> bool" where
  "named_gets E \<longleftrightarrow>
     (\<forall>ns n x rc y. kc_Get (E_sentinels E) ns n x = (Inr rc, y) \<longrightarrow> metaKey (rs_meta rc) = (ns, n)) \<and>
     (\<forall>ns n x ra y. kc_Get (E_standalones E) ns n x = (Inr ra, y) \<longrightarrow> metaKey (ra_meta ra) = (ns, n))"

subsection \<open>What a reconcile remembers\<close>

lemma observed_dom: "observed p key (n, ms, c) (n', ms', c') \<Longrightarrow> dom c' \<subseteq> insert (key p) (dom c)"
  by (auto simp: observed_def)

definition snGrows :: "ptr \<Rightarrow> string \<Rightarrow> 'e world \<Rightarrow> 'e world \<Rightarrow> bool" where
  "snGrows p k w w' \<longleftrightarrow> (sentinelKey (w_rs w p) = k \<longrightarrow>
     sentinelKey (w_rs w' p) = k \<and> dom (w_snCache w') \<subseteq> insert k (dom (w_snCache w)) \<and> w_saCache w' = w_saCache w)"

definition saGrows :: "ptr \<Rightarrow> string \<Rightarrow> 'e world \<Rightarrow> 'e world \<Rightarrow> bool" where
  "saGrows p k w w' \<longleftrightarrow> (standaloneKey (w_ra w p) = k \<longrightarrow>
     standaloneKey (w_ra w' p) = k \<and> dom (w_saCache w') \<subseteq> insert k (dom (w_saCache w)) \<and> w_snCache w' = w_snCache w)"

lemma grows_order: "reflp (snGrows p k)" "transp (snGrows p k)" "reflp (saGrows p k)" "transp (saGrows p k)"
  unfolding snGrows_def saGrows_def reflp_def transp_def by (simp_all add: subset_insertI) blast+

lemma opView_caches:
  assumes "opView w' = opView w"
  shows "w_snCache w' = w_snCache w" "w_saCache w' = w_saCache w"
  using assms by (simp_all add: opView_def)

lemma grows_view: "same opView \<le> (snGrows p k :: 'e world \<Rightarrow> _)" "same opView \<le> (saGrows p k :: 'e world \<Rightarrow> _)"
proof -
  have "snGrows p k w w' \<and> saGrows p k w w'" if v: "opView w' = opView w" for w w' :: "'e world"
    by (simp add: snGrows_def saGrows_def opView_entries(3,4) [OF v] opView_caches [OF v] subset_insertI)
  then show "same opView \<le> (snGrows p k :: 'e world \<Rightarrow> _)" "same opView \<le> (saGrows p k :: 'e world \<Rightarrow> _)"
    by (simp_all add: le_fun_def same_def)
qed

lemma keepsI: "(\<And>w r w'. m w = (r, w') \<Longrightarrow> R w w') \<Longrightarrow> keeps R m"
  unfolding keeps_def by (metis prod.collapse)

lemma grows_Cache: "keeps (snGrows p k) (sentinel_Cache p)" "keeps (saGrows q j) (standalone_Cache q)"
proof (rule_tac [!] keepsI)
  fix w w' :: "'a world" and r
  assume run: "sentinel_Cache p w = (r, w')"
  note o = sentinel_Cache_observes [OF run]
  show "snGrows p k w w'" unfolding snGrows_def using observed_dom [OF o(1)] fun_cong [OF o(2), of p] o(4) by (intro impI) simp
next
  fix w w' :: "'b world" and r
  assume run: "standalone_Cache q w = (r, w')"
  note o = standalone_Cache_observes [OF run]
  show "saGrows q j w w'" unfolding saGrows_def using observed_dom [OF o(1)] fun_cong [OF o(2), of q] o(4) by (intro impI) simp
qed

lemmas snGrows_Do = sentinel_Do_keeps [OF grows_order(1,2) grows_view(1) grows_Cache(1)]
  and saGrows_Do = standalone_Do_keeps [OF grows_order(3,4) grows_view(2) grows_Cache(2)]

text \<open>The result of the reconcile behind a worker's decision.\<close>

definition decision :: "Result res \<Rightarrow> bool \<Rightarrow> bool" where
  "decision res again \<longleftrightarrow> (case res of Ok v \<Rightarrow> again = (RequeueAfter v > 0 \<or> Requeue v) | Fail e \<Rightarrow> again | _ \<Rightarrow> False)"

lemma worker_decision:
  assumes "reconcileHandler c (ns, n) w = (Ok again, w')"
  obtains res where "r_Reconcile (c_Reconciler c) ns n w = (res, w')" "decision res again"
proof (cases "r_Reconcile (c_Reconciler c) ns n w")
  case (Pair res w1)
  then show thesis using assms that [of res]
    by (cases res) (auto simp: reconcileHandler_def tryG_def decision_def split: if_splits)
qed

text \<open>A reconcile of an object that exists asks for another.\<close>

lemma Reconcile_again:
  "kc_Get (E_sentinels E) ns n (w_ext w) = (Inr inst, x) \<Longrightarrow> sentinel_Reconcile E 10 ns n w = (res, w') \<Longrightarrow> decision res again \<Longrightarrow> again"
  "kc_Get (E_standalones E) ns n (w_ext w) = (Inr ra, x) \<Longrightarrow> standalone_Reconcile E 10 ns n w = (res, w') \<Longrightarrow> decision res again \<Longrightarrow> again"
  by (auto simp: sentinel_Reconcile_def standalone_Reconcile_def tryG_def extG_def bindG_run allocRs_def allocRa_def getRs_def
      zeroResult_def second_def decision_def split: prod.splits res.splits if_splits)

lemma named_getsD:
  assumes "named_gets E"
  shows "kc_Get (E_sentinels E) ns n x = (Inr rc, y) \<Longrightarrow> metaKey (rs_meta rc) = (ns, n)"
    "kc_Get (E_standalones E) ns n x = (Inr ra, y) \<Longrightarrow> metaKey (ra_meta ra) = (ns, n)"
  using assms unfolding named_gets_def by blast+

text \<open>
  \<open>remembers key c c' d d' again\<close>: a worker on \<open>key\<close> adds at most the entry of its own key to its cache \<open>c\<close>,
  leaves the other cache \<open>d\<close> alone, and drops the request only with the entry.
\<close>

definition remembers :: "string \<Rightarrow> (string \<rightharpoonup> ptr) \<Rightarrow> (string \<rightharpoonup> ptr) \<Rightarrow> (string \<rightharpoonup> ptr) \<Rightarrow> (string \<rightharpoonup> ptr) \<Rightarrow> bool \<Rightarrow> bool" where
  "remembers k c c' d d' again \<longleftrightarrow> dom c' \<subseteq> insert k (dom c) \<and> d' = d \<and> (again \<or> k \<notin> dom c')"

lemma sentinel_worker:
  assumes laws: "identity_laws E" "named_gets E" and run: "reconcileHandler (sentinelController E) (ns, n) w = (Ok again, w')"
  shows "remembers (getNamespacedName ns n) (w_snCache w) (w_snCache w') (w_saCache w) (w_saCache w') again"
proof -
  obtain res where rec: "sentinel_Reconcile E 10 ns n w = (res, w')" and again: "decision res again"
    using worker_decision [OF run] by (auto simp: sentinelController_def)
  obtain a x where ax: "kc_Get (E_sentinels E) ns n (w_ext w) = (a, x)" by fastforce
  show ?thesis
  proof (cases a)
    case (Inl e)
    then show ?thesis using rec again ax unfolding remembers_def
      by (cases "IsNotFound e") (auto simp: sentinel_Reconcile_def tryG_def extG_def seqG_run sentinel_Del_def decision_def)
  next
    case (Inr inst)
    let ?w = "w\<lparr>w_ext := x, w_next := w_next w + 1, w_rs := (w_rs w)(w_next w := inst)\<rparr>"
    note get = ax [unfolded Inr]
    obtain d w1 where d: "sentinel_Do E (w_next w) ?w = (d, w1)" and v: "opView w' = opView w1"
      by (rule sentinel_Reconcile_after_Do [OF get rec])
    have "snGrows (w_next w) (getNamespacedName ns n) ?w w1" by (rule keepsD [OF snGrows_Do [OF laws(1)] d])
    then show ?thesis using Reconcile_again(1) [OF get rec again]
      by (simp add: remembers_def snGrows_def keys_of_metaKey named_getsD(1) [OF laws(2) get] opView_caches [OF v])
  qed
qed

lemma standalone_worker:
  assumes laws: "standalone_identity_laws E" "named_gets E" and run: "reconcileHandler (standaloneController E) (ns, n) w = (Ok again, w')"
  shows "remembers (getNamespacedName ns n) (w_saCache w) (w_saCache w') (w_snCache w) (w_snCache w') again"
proof -
  obtain res where rec: "standalone_Reconcile E 10 ns n w = (res, w')" and again: "decision res again"
    using worker_decision [OF run] by (auto simp: standaloneController_def)
  obtain a x where ax: "kc_Get (E_standalones E) ns n (w_ext w) = (a, x)" by fastforce
  show ?thesis
  proof (cases a)
    case (Inl e)
    then show ?thesis using rec again ax unfolding remembers_def
      by (cases "IsNotFound e") (auto simp: standalone_Reconcile_def tryG_def extG_def seqG_run standalone_Del_def decision_def)
  next
    case (Inr inst)
    let ?w = "w\<lparr>w_ext := x, w_next := w_next w + 1, w_ra := (w_ra w)(w_next w := inst)\<rparr>"
    note get = ax [unfolded Inr]
    obtain d where d: "standalone_Do E (w_next w) ?w = (d, w')" by (rule standalone_Reconcile_after_Do [OF get rec])
    have "saGrows (w_next w) (getNamespacedName ns n) ?w w'" by (rule keepsD [OF saGrows_Do [OF laws(1)] d])
    then show ?thesis using Reconcile_again(2) [OF get rec again]
      by (simp add: remembers_def saGrows_def keys_of_metaKey named_getsD(2) [OF laws(2) get])
  qed
qed

subsection \<open>What is remembered is scheduled\<close>

definition scheduled :: "(string \<rightharpoonup> ptr) \<Rightarrow> (string \<times> string) set \<Rightarrow> bool" where
  "scheduled c Q \<longleftrightarrow> (\<forall>k \<in> dom c. \<exists>ns n. k = getNamespacedName ns n \<and> (ns, n) \<in> Q)"

lemma scheduled_mono: "scheduled c Q \<Longrightarrow> Q \<subseteq> R \<Longrightarrow> scheduled c R"
  unfolding scheduled_def by blast

lemma scheduled_work:
  assumes "scheduled c Q" "(ns, n) \<in> Q" "remembers (getNamespacedName ns n) c c' d d' again"
  shows "scheduled c' (if again then Q else Q - {(ns, n)})" "d' = d"
proof -
  have c': "k \<in> dom c' \<Longrightarrow> k \<noteq> getNamespacedName ns n \<Longrightarrow> k \<in> dom c" for k
    using assms(3) unfolding remembers_def by blast
  show "scheduled c' (if again then Q else Q - {(ns, n)})" unfolding scheduled_def
  proof
    fix k
    assume k: "k \<in> dom c'"
    show "\<exists>ns' n'. k = getNamespacedName ns' n' \<and> (ns', n') \<in> (if again then Q else Q - {(ns, n)})"
    proof (cases "k = getNamespacedName ns n")
      case True
      then have again using k assms(3) unfolding remembers_def by blast
      then show ?thesis using True assms(2) by auto
    next
      case False
      then obtain ns' n' where q: "k = getNamespacedName ns' n'" "(ns', n') \<in> Q" using c' [OF k] assms(1) unfolding scheduled_def by blast
      then have "(ns', n') \<noteq> (ns, n)" using False by blast
      then show ?thesis using q by auto
    qed
  qed
  show "d' = d" using assms(3) by (simp add: remembers_def)
qed

text \<open>The filters move a gauge at most.\<close>

lemma filter_steps:
  "Funcs_passes sentinel_pred ev w = (r, w') \<Longrightarrow> w' = w \<or> (\<exists>obj u. sentinel_DeleteFunc obj u w = (r, w'))"
  "Funcs_passes standalone_pred ev w = (r, w') \<Longrightarrow> w' = w"
  by (cases ev; simp add: sentinel_pred_def standalone_pred_def; blast)+

lemma DeleteFunc_caches:
  "sentinel_DeleteFunc obj u w = (r, w') \<Longrightarrow> w_snCache w' = w_snCache w \<and> w_saCache w' = w_saCache w"
  by (auto simp: sentinel_DeleteFunc_def DeleteCluster_def seqG_run split: if_splits)

definition systemInv :: "'e env \<Rightarrow> 'e system \<Rightarrow> bool" where
  "systemInv E s \<longleftrightarrow> y_controllers s = [sentinelController E, standaloneController E] \<and> operatorReach E 10 (y_world s)
     \<and> scheduled (w_snCache (y_world s)) (y_queue s ''RedisSentinel'')
     \<and> scheduled (w_saCache (y_world s)) (y_queue s ''RedisStandalone'')"

lemma kinds [simp]: "c_For (sentinelController E) = ''RedisSentinel''" "c_For (standaloneController E) = ''RedisStandalone''"
  "c_filter (sentinelController E) = sentinel_pred" "c_filter (standaloneController E) = standalone_pred"
  by (simp_all add: sentinelController_def standaloneController_def)

text \<open>
  What the loop relies on of a controller: its filter and its workers make steps of the operator, the
  filter touches no cache, and a worker remembers as above.
\<close>

locale scheduled_controller =
  fixes c :: "'e env \<Rightarrow> 'e Controller" and own other :: "'e world \<Rightarrow> string \<rightharpoonup> ptr" and laws :: "'e env \<Rightarrow> bool"
  assumes filter_law: "Funcs_passes (c_filter (c E)) ev w = (Ok b, w') \<Longrightarrow> operatorReach E 10 w \<Longrightarrow>
      operatorReach E 10 w' \<and> own w' = own w \<and> other w' = other w"
    and worker_reach: "reconcileHandler (c E) (ns, n) w = (Ok again, w') \<Longrightarrow> operatorReach E 10 w \<Longrightarrow> operatorReach E 10 w'"
    and worker_law: "laws E \<Longrightarrow> reconcileHandler (c E) (ns, n) w = (Ok again, w') \<Longrightarrow>
      remembers (getNamespacedName ns n) (own w) (own w') (other w) (other w') again"
begin

lemma step_schedules:
  assumes laws: "laws E" and step: "controllerStep (c E) (w, Q) (w', Q')"
    and inv: "operatorReach E 10 w" "scheduled (own w) Q"
  shows "operatorReach E 10 w' \<and> scheduled (own w') Q' \<and> other w' = other w"
  using step
proof (rule controllerStepE)
  fix ev b
  assume Q': "Q' = (if b then set (EnqueueRequestForObject ev) \<union> Q else Q)" and run: "Funcs_passes (c_filter (c E)) ev w = (Ok b, w')"
  have "scheduled (own w) Q'" using scheduled_mono [OF inv(2)] Q' by auto
  with filter_law [OF run inv(1)] show ?thesis by simp
next
  fix req again
  assume Q': "Q' = (if again then Q else Q - {req})" and req: "req \<in> Q" and run: "reconcileHandler (c E) req w = (Ok again, w')"
  obtain ns n where k: "req = (ns, n)" by fastforce
  from scheduled_work [OF inv(2) req [unfolded k] worker_law [OF laws run [unfolded k]]] worker_reach [OF run [unfolded k] inv(1)]
  show ?thesis unfolding Q' k by blast
qed

end

interpretation snl: scheduled_controller sentinelController w_snCache w_saCache "\<lambda>E. identity_laws E \<and> named_gets E"
proof
  fix E :: "'a env" and ev b w w'
  assume run: "Funcs_passes (c_filter (sentinelController E)) ev w = (Ok b, w')" and inv: "operatorReach E 10 w"
  from run consider "w' = w" | obj u where "sentinel_DeleteFunc obj u w = (Ok b, w')" using filter_steps(1) by fastforce
  then show "operatorReach E 10 w' \<and> w_snCache w' = w_snCache w \<and> w_saCache w' = w_saCache w"
    using inv DeleteFunc_caches operatorReach.step [OF inv operatorStep.deleted] by cases blast+
next
  fix E :: "'a env" and ns n w again w'
  assume run: "reconcileHandler (sentinelController E) (ns, n) w = (Ok again, w')" and inv: "operatorReach E 10 w"
  obtain r where "sentinel_Reconcile E 10 ns n w = (r, w')" using worker_decision [OF run] by (auto simp: sentinelController_def)
  then show "operatorReach E 10 w'" by (rule operatorReach.step [OF inv operatorStep.sentinel])
qed (use sentinel_worker in blast)

interpretation sal: scheduled_controller standaloneController w_saCache w_snCache "\<lambda>E. standalone_identity_laws E \<and> named_gets E"
proof
  fix E :: "'a env" and ev b w w'
  assume "Funcs_passes (c_filter (standaloneController E)) ev w = (Ok b, w')" and inv: "operatorReach E 10 w"
  then have "w' = w" using filter_steps(2) by fastforce
  with inv show "operatorReach E 10 w' \<and> w_saCache w' = w_saCache w \<and> w_snCache w' = w_snCache w" by simp
next
  fix E :: "'a env" and ns n w again w'
  assume run: "reconcileHandler (standaloneController E) (ns, n) w = (Ok again, w')" and inv: "operatorReach E 10 w"
  obtain r where "standalone_Reconcile E 10 ns n w = (r, w')" using worker_decision [OF run] by (auto simp: standaloneController_def)
  then show "operatorReach E 10 w'" by (rule operatorReach.step [OF inv operatorStep.standalone])
qed (use standalone_worker in blast)

text \<open>What the calls of a process that reaches \<open>Start\<close> have registered.\<close>

lemma completed_snoc: "completed (calls @ [(Start, e)]) = completed calls"
  by (induction calls rule: completed.induct) auto

lemma completed_startup:
  assumes "map fst calls = map fst (startupScript E getenv fl)" "\<forall>c \<in> set (butlast calls). snd c = None"
  shows "completed calls = [sentinelController E, standaloneController E]"
proof -
  obtain ys z where calls: "calls = ys @ [z]" using assms(1) by (cases calls rule: rev_cases) (auto simp: startupScript_def)
  have z: "fst z = Start" and ys: "map fst ys = map fst (butlast (startupScript E getenv fl))"
    using assms(1) by (simp_all add: calls startupScript_def)
  have "ys = map (\<lambda>c. (c, None)) (map fst ys)" using assms(2) by (auto simp: calls intro!: nth_equalityI prod_eqI)
  then have "ys = map (\<lambda>c. (fst c, None)) (butlast (startupScript E getenv fl))" by (simp add: ys comp_def)
  then have "completed ys = [sentinelController E, standaloneController E]" by (simp add: startupScript_def)
  then show ?thesis using z completed_snoc [of ys "snd z"] by (cases z) (simp add: calls)
qed

lemma systemReach_inv:
  assumes laws: "identity_laws E" "standalone_identity_laws E" "named_gets E" and "systemReach lib E getenv fl s"
  shows "systemInv E s"
  using assms(4)
proof induction
  case (start y x r s)
  have b: "p_types (blankProcess y (initWorld x)) = []" "p_calls (blankProcess y (initWorld x)) = []" by (simp_all add: blankProcess_def)
  note reached = startup_reached [OF b start]
  have "p_world s = initWorld x" using reached(3) by (simp add: blankProcess_def)
  then show ?case using completed_startup [OF reached(1,2)] operatorReach.start
    by (simp add: systemInv_def scheduled_def initWorld_def)
next
  case (controller s c w' Q')
  from controller(4) have s: "y_controllers s = [sentinelController E, standaloneController E]" "operatorReach E 10 (y_world s)"
    "scheduled (w_snCache (y_world s)) (y_queue s ''RedisSentinel'')" "scheduled (w_saCache (y_world s)) (y_queue s ''RedisStandalone'')"
    by (simp_all add: systemInv_def)
  from controller(2) s(1) consider "c = sentinelController E" | "c = standaloneController E" by auto
  then show ?case
  proof cases
    case 1
    from snl.step_schedules [OF conjI [OF laws(1,3)] controller(3) [unfolded 1 kinds] s(2,3)] s show ?thesis by (simp add: systemInv_def 1)
  next
    case 2
    from sal.step_schedules [OF conjI [OF laws(2,3)] controller(3) [unfolded 2 kinds] s(2,4)] s show ?thesis by (simp add: systemInv_def 2)
  qed
next
  case (cluster s x)
  then have "operatorReach E 10 ((y_world s)\<lparr>w_ext := x\<rparr>)"
    unfolding systemInv_def by (blast intro: operatorReach.step operatorStep.cluster)
  then show ?case using cluster by (simp add: systemInv_def)
qed


lemma steady_named: "named_gets steadyEnv"
  by (auto simp: named_gets_def steady_sel steadyRc_sel metaKey_def split: option.splits if_splits)

text \<open>A resource under management is created and reconciled for the first time.\<close>

definition steadyObj :: ObjectMeta where
  "steadyObj = zeroMeta\<lparr>om_namespace := ''db'', om_name := ''x'', om_annotations := mapLit [(AnnotationScope, AnnotationClusterScoped)]\<rparr>"

lemma steady_system:
  "\<exists>s. systemReach willing steadyEnv (\<lambda>_. []) defaultFlags s \<and> w_snCache (y_world s) ''db/x'' = Some 2"
proof -
  let ?R = "systemReach willing steadyEnv (\<lambda>_. []) defaultFlags"
  obtain r p where run: "process_run willing steadyEnv (\<lambda>_. []) defaultFlags (blankProcess () (initWorld ())) = (r, p)" by fastforce
  have b: "p_types (blankProcess () (initWorld ())) = []" "p_calls (blankProcess () (initWorld ())) = []" by (simp_all add: blankProcess_def)
  have calls: "p_calls p = map (\<lambda>c. (fst c, None)) (startupScript steadyEnv (\<lambda>_. []) defaultFlags)"
    using process_run_script(1) [OF b run] by (simp add: willing_script)
  have st: "Start \<in> fst ` set (p_calls p)" by (simp add: calls startupScript_def)
  define s0 where "s0 = \<lparr>y_controllers = completed (p_calls p), y_world = p_world p, y_queue = (\<lambda>_. {})\<rparr>"
  have s0: "?R s0" unfolding s0_def by (rule systemReach.start [OF run st])
  have inv: "y_controllers s0 = [sentinelController steadyEnv, standaloneController steadyEnv]" "y_world s0 = initWorld ()" "y_queue s0 = (\<lambda>_. {})"
    using systemReach_inv [OF steady_laws(3,4) steady_named s0] startup_reached(3) [OF b run st]
    by (simp_all add: systemInv_def s0_def blankProcess_def)
  have "Funcs_passes (c_filter (sentinelController steadyEnv)) (CreateEvent steadyObj) (initWorld ()) = (Ok True, initWorld ())"
    by (simp add: sentinel_pred_def sentinel_CreateFunc_def ShouldManage_def steadyObj_def IsClusterScoped_def lookupM_def entries_def)
  from controllerStep.event [OF this, of "{}"]
  have step: "controllerStep (sentinelController steadyEnv) (initWorld (), {}) (initWorld (), {(''db'', ''x'')})"
    by (simp add: steadyObj_def metaKey_def)
  let ?s1 = "s0\<lparr>y_world := initWorld (), y_queue := (\<lambda>_. {})(''RedisSentinel'' := {(''db'', ''x'')})\<rparr>"
  have s1: "?R ?s1"
    using systemReach.controller [OF s0, of "sentinelController steadyEnv"] step by (simp add: inv)
  obtain w' where w': "sentinel_Reconcile steadyEnv 10 ''db'' ''x'' (initWorld ()) = (Ok (zeroResult\<lparr>RequeueAfter := 10 * second\<rparr>), w')" "steadyAt w'"
    using steady_Reconcile by blast
  have "reconcileHandler (sentinelController steadyEnv) (''db'', ''x'') (initWorld ()) = (Ok True, w')"
    using w'(1) by (simp add: reconcileHandler_def sentinelController_def tryG_def second_def)
  from controllerStep.work [OF _ this, of "{(''db'', ''x'')}"]
  have "controllerStep (sentinelController steadyEnv) (initWorld (), {(''db'', ''x'')}) (w', {(''db'', ''x'')})" by simp
  then have "?R (?s1\<lparr>y_world := w', y_queue := (y_queue ?s1)(''RedisSentinel'' := {(''db'', ''x'')})\<rparr>)"
    using systemReach.controller [OF s1, of "sentinelController steadyEnv"] by (simp add: inv)
  moreover have "w_snCache w' ''db/x'' = Some 2" using w'(2) by (simp add: steadyAt_def)
  ultimately show ?thesis by (intro exI) auto
qed


end
